theory Spec2Isabelle
  imports Complex_Main
begin

section \<open>Tensors and Python errors\<close>

text \<open>
  The functions of \<open>verl/trainer/ppo/core_algos.py\<close> work on two-dimensional torch
  tensors of shape \<open>(bs, response_length)\<close>. A tensor is modelled as the list of its rows,
  a one-dimensional tensor as a list. Tensor elements are modelled as real numbers:
  rounding, infinities and NaN of the 32-bit floats are not part of the model.
  Element-wise operations between arguments that the docstrings give one common shape are
  modelled with \<open>zip\<close>; torch's own shape errors are modelled where the source combines
  tensors of different shapes.
\<close>

datatype error =
    ValueError
  | AssertionError
  | AttributeError
  | TypeError
  | NotImplementedError
  | RuntimeError
  | IndexError
  | KeyError

type_synonym vec = "real list"
type_synonym tensor = "real list list"

definition tmap :: "(real \<Rightarrow> real) \<Rightarrow> tensor \<Rightarrow> tensor" where
  "tmap f A = map (map f) A"

definition tmap2 :: "(real \<Rightarrow> real \<Rightarrow> real) \<Rightarrow> tensor \<Rightarrow> tensor \<Rightarrow> tensor" where
  "tmap2 f A B = map2 (map2 f) A B"

definition clamp :: "real \<Rightarrow> real \<Rightarrow> real \<Rightarrow> real" where
  \<comment> \<open>\<open>torch.clamp(x, min=lo, max=hi)\<close> on one element\<close>
  "clamp x lo hi = min (max x lo) hi"

section \<open>KL penalty\<close>

definition kl_penalty :: "tensor \<Rightarrow> tensor \<Rightarrow> string \<Rightarrow> error + tensor" where
  "kl_penalty logprob ref_logprob kind =
     (if kind = ''kl'' then Inr (tmap2 (-) logprob ref_logprob)
      else if kind = ''abs'' then Inr (tmap abs (tmap2 (-) logprob ref_logprob))
      else if kind = ''mse'' then
        Inr (tmap (\<lambda>d. 0.5 * d\<^sup>2) (tmap2 (-) logprob ref_logprob))
      else if kind = ''low_var_kl'' then
        (let kl = tmap2 (-) ref_logprob logprob;
             ratio = tmap exp kl;
             kld = tmap (\<lambda>x. x - 1) (tmap2 (-) ratio kl)
         in Inr (tmap (\<lambda>x. clamp x (- 10) 10) kld))
      else if kind = ''full'' then Inl NotImplementedError
      else Inl NotImplementedError)"

section \<open>KL controllers\<close>

text \<open>
  \<open>AdaptiveKLController\<close> and \<open>FixedKLController\<close> are classes with the one mutable
  field \<open>value\<close>; \<open>update\<close> returns the updated object. The configuration object read by
  \<open>get_kl_controller\<close> has two places that can hold controller settings: the attribute
  path \<open>config.critic.kl_ctrl\<close> and the top-level attribute \<open>config.kl_ctrl\<close>. The latter is
  optional: reading an absent attribute raises \<open>AttributeError\<close>.
\<close>

datatype kl_controller =
    FixedKLController (kl_value: real)
  | AdaptiveKLController (kl_value: real) (kl_target: real) (kl_horizon: real)

record kl_ctrl_config =
  ctrl_type :: string
  kl_coef :: real
  target_kl :: real
  horizon :: real

record config =
  critic_kl_ctrl :: kl_ctrl_config
  top_kl_ctrl :: "kl_ctrl_config option"

fun update :: "kl_controller \<Rightarrow> real \<Rightarrow> real \<Rightarrow> kl_controller" where
  "update (FixedKLController v) current_kl n_steps = FixedKLController v"
| "update (AdaptiveKLController v target h) current_kl n_steps =
     (let proportional_error = clamp (current_kl / target - 1) (- 0.2) 0.2;
          mult = 1 + proportional_error * n_steps / h
      in AdaptiveKLController (v * mult) target h)"

definition get_kl_controller :: "config \<Rightarrow> error + kl_controller" where
  "get_kl_controller cfg =
     (if ctrl_type (critic_kl_ctrl cfg) = ''fixed'' then
        Inr (FixedKLController (kl_coef (critic_kl_ctrl cfg)))
      else if ctrl_type (critic_kl_ctrl cfg) = ''adaptive'' then
        (case top_kl_ctrl cfg of
           None \<Rightarrow> Inl AttributeError
         | Some k \<Rightarrow>
             if horizon k > 0 then
               Inr (AdaptiveKLController (kl_coef (critic_kl_ctrl cfg))
                      (target_kl (critic_kl_ctrl cfg)) (horizon (critic_kl_ctrl cfg)))
             else Inl AssertionError)
      else Inl ValueError)"

section \<open>Broadcasting, masked mean and loss aggregation\<close>

text \<open>
  \<open>agg_loss\<close> and \<open>masked_mean\<close> multiply a loss matrix by a mask. The sequence-level
  policy loss hands them a product that torch has broadcast, so their element-wise
  operations follow torch's broadcasting rule for two dimensions: two sizes are compatible
  when they are equal or one of them is 1, and anything else is a \<open>RuntimeError\<close>.
  The number of columns of a tensor without rows is taken to be 0.
\<close>

definition nrows :: "'a list list \<Rightarrow> nat" where
  "nrows A = length A"

definition ncols :: "'a list list \<Rightarrow> nat" where
  "ncols A = (case A of [] \<Rightarrow> 0 | r # _ \<Rightarrow> length r)"

definition rect :: "'a list list \<Rightarrow> bool" where
  "rect A = list_all (\<lambda>r. length r = ncols A) A"

definition bdim :: "nat \<Rightarrow> nat \<Rightarrow> nat option" where
  "bdim a b = (if a = b then Some a else if a = 1 then Some b
               else if b = 1 then Some a else None)"

definition expand_list :: "nat \<Rightarrow> 'a list \<Rightarrow> 'a list" where
  \<comment> \<open>a dimension of size 1 is repeated \<open>n\<close> times\<close>
  "expand_list n xs = (case xs of [x] \<Rightarrow> replicate n x | _ \<Rightarrow> xs)"

definition expand :: "nat \<Rightarrow> nat \<Rightarrow> 'a list list \<Rightarrow> 'a list list" where
  "expand r c A = expand_list r (map (expand_list c) A)"

definition bop :: "(real \<Rightarrow> real \<Rightarrow> real) \<Rightarrow> tensor \<Rightarrow> tensor \<Rightarrow> error + tensor" where
  "bop f A B =
     (case bdim (nrows A) (nrows B) of
        None \<Rightarrow> Inl RuntimeError
      | Some r \<Rightarrow>
          (case bdim (ncols A) (ncols B) of
             None \<Rightarrow> Inl RuntimeError
           | Some c \<Rightarrow> Inr (tmap2 f (expand r c A) (expand r c B))))"

definition vbop :: "(real \<Rightarrow> real \<Rightarrow> real) \<Rightarrow> vec \<Rightarrow> vec \<Rightarrow> error + vec" where
  "vbop f u v =
     (case bdim (length u) (length v) of
        None \<Rightarrow> Inl RuntimeError
      | Some n \<Rightarrow> Inr (map2 f (expand_list n u) (expand_list n v)))"

definition tsum :: "tensor \<Rightarrow> real" where
  "tsum A = sum_list (map sum_list A)"

definition mean :: "vec \<Rightarrow> real" where
  "mean xs = sum_list xs / real (length xs)"

definition ebind :: "error + 'a \<Rightarrow> ('a \<Rightarrow> error + 'b) \<Rightarrow> error + 'b" where
  "ebind m f = (case m of Inl e \<Rightarrow> Inl e | Inr x \<Rightarrow> f x)"

text \<open>
  Modelled from the spec: \<open>verl_F.masked_mean\<close> of \<open>verl/utils/torch_functional.py\<close>, which is
  not among the sources. The spec describes it as the mean over all masked elements,
  weighted by the mask count: the sum of \<open>values * mask\<close> divided by the sum of the mask.
\<close>

definition masked_mean :: "tensor \<Rightarrow> tensor \<Rightarrow> error + real" where
  "masked_mean vals msk = ebind (bop (*) vals msk) (\<lambda>p. Inr (tsum p / tsum msk))"

definition agg_loss :: "tensor \<Rightarrow> tensor \<Rightarrow> string \<Rightarrow> real \<Rightarrow> real \<Rightarrow> error + real" where
  "agg_loss loss_mat loss_mask loss_agg_mode scale eps =
     (if loss_agg_mode = ''token-mean'' then masked_mean loss_mat loss_mask
      else if loss_agg_mode = ''seq-mean-token-sum'' then
        ebind (bop (*) loss_mat loss_mask) (\<lambda>p.
          Inr (mean (map sum_list p)))
      else if loss_agg_mode = ''seq-mean-token-mean'' then
        ebind (bop (*) loss_mat loss_mask) (\<lambda>p.
        ebind (vbop (/) (map sum_list p) (map (\<lambda>r. sum_list r + eps) loss_mask)) (\<lambda>seq_losses.
          Inr (mean seq_losses)))
      else if loss_agg_mode = ''seq-mean-token-sum-norm'' then
        ebind (bop (*) loss_mat loss_mask) (\<lambda>p.
          Inr (mean (map (\<lambda>r. sum_list r / real (ncols loss_mask)) p)))
      else if loss_agg_mode = ''seq-mean-token-sum-norm-scaled'' then
        ebind (bop (*) loss_mat loss_mask) (\<lambda>p.
          Inr (mean (map (\<lambda>r. sum_list r / real (ncols loss_mask) * scale) p)))
      else Inl ValueError)"

section \<open>Policy losses\<close>

text \<open>
  The clip ranges are optional arguments with default \<open>None\<close>. Subtracting \<open>None\<close> from a
  float raises \<open>TypeError\<close>; the bounds \<open>1 - cliprange_low\<close> and \<open>1 + cliprange_high\<close> are
  evaluated in this order.
\<close>

definition clip_bounds :: "real option \<Rightarrow> real option \<Rightarrow> error + real \<times> real" where
  "clip_bounds cliprange_low cliprange_high =
     (case cliprange_low of
        None \<Rightarrow> Inl TypeError
      | Some lo \<Rightarrow>
          (case cliprange_high of
             None \<Rightarrow> Inl TypeError
           | Some hi \<Rightarrow> Inr (1 - lo, 1 + hi)))"

definition or_default :: "real option \<Rightarrow> real option \<Rightarrow> real option" where
  \<comment> \<open>\<open>if x is None: x = d\<close>\<close>
  "or_default x d = (case x of None \<Rightarrow> d | Some v \<Rightarrow> Some v)"

definition gt_float :: "real \<Rightarrow> real \<Rightarrow> real" where
  \<comment> \<open>\<open>torch.gt(a, b).float()\<close> on one element\<close>
  "gt_float a b = (if a > b then 1 else 0)"

definition compute_policy_loss ::
  "tensor \<Rightarrow> tensor \<Rightarrow> tensor \<Rightarrow> tensor \<Rightarrow> real option \<Rightarrow> real option \<Rightarrow> real option \<Rightarrow>
   string \<Rightarrow> real \<Rightarrow> error + real \<times> real \<times> real" where
  "compute_policy_loss old_log_prob log_prob advantages eos_mask
       cliprange cliprange_low cliprange_high loss_agg_mode scale =
     (let negative_approx_kl = tmap2 (-) log_prob old_log_prob;
          ratio = tmap exp negative_approx_kl
      in ebind (masked_mean (tmap uminus negative_approx_kl) eos_mask) (\<lambda>ppo_kl.
         let pg_losses = tmap2 (*) (tmap uminus advantages) ratio;
             cliprange_low = or_default cliprange_low cliprange;
             cliprange_high = or_default cliprange_high cliprange
         in ebind (clip_bounds cliprange_low cliprange_high) (\<lambda>(lo, hi).
            let pg_losses2 = tmap2 (*) (tmap uminus advantages)
                               (tmap (\<lambda>r. clamp r lo hi) ratio)
            in ebind (agg_loss (tmap2 max pg_losses pg_losses2) eos_mask loss_agg_mode scale
                        (1 / 1000000)) (\<lambda>pg_loss.
               ebind (masked_mean (tmap2 gt_float pg_losses2 pg_losses) eos_mask) (\<lambda>pg_clipfrac.
                 Inr (pg_loss, pg_clipfrac, ppo_kl))))))"

text \<open>
  In \<open>compute_policy_loss_gspo\<close> the sequence-level ratio is a one-dimensional tensor of
  length \<open>bs\<close> that is multiplied with the \<open>(bs, response_length)\<close> advantages as it is, so
  torch broadcasts it along the last dimension, as the single row of a \<open>(1, bs)\<close> tensor.
\<close>

definition compute_policy_loss_gspo ::
  "tensor \<Rightarrow> tensor \<Rightarrow> tensor \<Rightarrow> tensor \<Rightarrow> string \<Rightarrow> real option \<Rightarrow> real option \<Rightarrow>
   real option \<Rightarrow> real \<Rightarrow> error + real \<times> real \<times> real" where
  "compute_policy_loss_gspo old_log_prob log_prob advantages response_mask loss_agg_mode
       cliprange cliprange_low cliprange_high eps =
     (let cliprange_low = or_default cliprange_low cliprange;
          cliprange_high = or_default cliprange_high cliprange;
          seq_lengths = map sum_list response_mask;
          normalized_seq_log_prob =
            map2 (\<lambda>s n. s / (n + eps)) (map sum_list (tmap2 (*) log_prob response_mask))
              seq_lengths;
          normalized_old_seq_log_prob =
            map2 (\<lambda>s n. s / (n + eps)) (map sum_list (tmap2 (*) old_log_prob response_mask))
              seq_lengths;
          negative_approx_kl_seq = map2 (-) normalized_seq_log_prob normalized_old_seq_log_prob;
          seq_ratio = map exp negative_approx_kl_seq
      in ebind (bop (*) (tmap uminus advantages) [seq_ratio]) (\<lambda>pg_losses1.
         ebind (clip_bounds cliprange_low cliprange_high) (\<lambda>(lo, hi).
         ebind (bop (*) (tmap uminus advantages) [map (\<lambda>r. clamp r lo hi) seq_ratio])
           (\<lambda>pg_losses2.
         let pg_losses = tmap2 max pg_losses1 pg_losses2
         in ebind (agg_loss pg_losses response_mask loss_agg_mode 1 (1 / 1000000)) (\<lambda>pg_loss.
            ebind (masked_mean (tmap2 gt_float pg_losses2 pg_losses1) response_mask)
              (\<lambda>pg_clipfrac.
            let negative_approx_kl =
                  tmap (\<lambda>x. clamp x (- 20) 20) (tmap2 (-) log_prob old_log_prob)
            in ebind (masked_mean (tmap uminus negative_approx_kl) response_mask) (\<lambda>ppo_kl.
                 Inr (pg_loss, pg_clipfrac, ppo_kl))))))))"

section \<open>Advantage estimators\<close>

text \<open>
  Modelled from the spec: \<open>verl_F.masked_whiten\<close> of \<open>verl/utils/torch_functional.py\<close>, which
  is not among the sources. The spec describes it as subtracting the masked mean and
  dividing by the masked standard deviation, over the whole batch.
\<close>

definition masked_whiten :: "tensor \<Rightarrow> tensor \<Rightarrow> error + tensor" where
  "masked_whiten vals msk =
     ebind (masked_mean vals msk) (\<lambda>mu.
     ebind (masked_mean (tmap (\<lambda>x. (x - mu)\<^sup>2) vals) msk) (\<lambda>var.
       Inr (tmap (\<lambda>x. (x - mu) / sqrt var) vals)))"

text \<open>
  \<open>col t A\<close> is the slice \<open>A[:, t]\<close> and \<open>set_col t v A\<close> the assignment \<open>A[:, t] = v\<close>, for
  \<open>t\<close> below the number of columns. A Python scalar that torch broadcasts against a
  column is modelled as the constant column.
\<close>

definition col :: "nat \<Rightarrow> tensor \<Rightarrow> vec" where
  "col t A = map (\<lambda>row. row ! t) A"

definition set_col :: "nat \<Rightarrow> vec \<Rightarrow> tensor \<Rightarrow> tensor" where
  "set_col t v A = map2 (\<lambda>row x. row[t := x]) A v"

text \<open>
  The loop \<open>for t in reversed(range(gen_len))\<close> of \<open>compute_gae_advantage_return\<close>: the
  counter \<open>Suc t\<close> stands for the iteration with index \<open>t\<close>.
\<close>

definition gae_step :: "tensor \<Rightarrow> tensor \<Rightarrow> real \<Rightarrow> real \<Rightarrow> nat \<Rightarrow> nat \<Rightarrow> vec \<Rightarrow> vec" where
  \<comment> \<open>the body of the loop: the new \<open>lastgaelam\<close>\<close>
  "gae_step token_level_rewards values gamma lam gen_len t lastgaelam =
     (let nextvalues = (if t < gen_len - 1 then col (t + 1) values
                        else replicate (nrows values) 0);
          delta = map2 (-) (map2 (+) (col t token_level_rewards)
                                     (map (\<lambda>v. gamma * v) nextvalues))
                           (col t values)
      in map2 (+) delta (map (\<lambda>a. gamma * lam * a) lastgaelam))"

fun gae_loop ::
  "tensor \<Rightarrow> tensor \<Rightarrow> real \<Rightarrow> real \<Rightarrow> nat \<Rightarrow> nat \<Rightarrow> vec \<Rightarrow> vec list \<Rightarrow> vec list" where
  "gae_loop token_level_rewards values gamma lam gen_len 0 lastgaelam advantages_reversed =
     advantages_reversed"
| "gae_loop token_level_rewards values gamma lam gen_len (Suc t) lastgaelam advantages_reversed =
     (let lastgaelam = gae_step token_level_rewards values gamma lam gen_len t lastgaelam
      in gae_loop token_level_rewards values gamma lam gen_len t lastgaelam
           (advantages_reversed @ [lastgaelam]))"

definition stack_dim1 :: "vec list \<Rightarrow> error + tensor" where
  \<comment> \<open>\<open>torch.stack(cols, dim=1)\<close>; an empty list of tensors is a \<open>RuntimeError\<close>\<close>
  "stack_dim1 cols =
     (case cols of
        [] \<Rightarrow> Inl RuntimeError
      | c # _ \<Rightarrow> Inr (map (\<lambda>i. map (\<lambda>v. v ! i) cols) [0..<length c]))"

definition gae_advantages :: "tensor \<Rightarrow> tensor \<Rightarrow> real \<Rightarrow> real \<Rightarrow> error + tensor" where
  \<comment> \<open>the tensor \<open>advantages\<close> before it is whitened\<close>
  "gae_advantages token_level_rewards values gamma lam =
     (let gen_len = ncols token_level_rewards;
          advantages_reversed =
            gae_loop token_level_rewards values gamma lam gen_len gen_len
              (replicate (nrows token_level_rewards) 0) []
      in stack_dim1 (rev advantages_reversed))"

definition compute_gae_advantage_return ::
  "tensor \<Rightarrow> tensor \<Rightarrow> tensor \<Rightarrow> real \<Rightarrow> real \<Rightarrow> error + tensor \<times> tensor" where
  "compute_gae_advantage_return token_level_rewards values eos_mask gamma lam =
     ebind (gae_advantages token_level_rewards values gamma lam) (\<lambda>advantages.
       let returns = tmap2 (+) advantages values
       in ebind (masked_whiten advantages eos_mask) (\<lambda>advantages.
            Inr (advantages, returns)))"

text \<open>
  GRPO and RLOO group the rows by \<open>index\<close>. \<open>id2score\<close> is a \<open>defaultdict(list)\<close>, modelled
  as an association list in insertion order; \<open>id2mean\<close> and \<open>id2std\<close> are dictionaries,
  modelled as maps. The keys are of any type with equality.
\<close>

fun append_score :: "'k \<Rightarrow> real \<Rightarrow> ('k \<times> real list) list \<Rightarrow> ('k \<times> real list) list" where
  \<comment> \<open>\<open>id2score[k].append(s)\<close>\<close>
  "append_score k s [] = [(k, [s])]"
| "append_score k s ((k', xs) # d) =
     (if k = k' then (k', xs @ [s]) # d else (k', xs) # append_score k s d)"

definition get_scores :: "('k \<times> real list) list \<Rightarrow> 'k \<Rightarrow> real list" where
  \<comment> \<open>\<open>id2score[k]\<close>: a missing key of the \<open>defaultdict\<close> reads as the empty list\<close>
  "get_scores d k = (case map_of d k of None \<Rightarrow> [] | Some xs \<Rightarrow> xs)"

definition build_id2score :: "'k list \<Rightarrow> vec \<Rightarrow> ('k \<times> real list) list" where
  "build_id2score index scores = fold (\<lambda>(k, s) d. append_score k s d) (zip index scores) []"

definition std :: "vec \<Rightarrow> real" where
  \<comment> \<open>\<open>torch.std\<close> over all elements, with Bessel's correction\<close>
  "std xs = sqrt (sum_list (map (\<lambda>x. (x - mean xs)\<^sup>2) xs) / (real (length xs) - 1))"

fun emap :: "('a \<Rightarrow> error + 'b) \<Rightarrow> 'a list \<Rightarrow> error + 'b list" where
  "emap f [] = Inr []"
| "emap f (x # xs) = ebind (f x) (\<lambda>y. ebind (emap f xs) (\<lambda>ys. Inr (y # ys)))"

fun grpo_stats ::
  "('k \<times> real list) list \<Rightarrow> ('k \<rightharpoonup> real) \<Rightarrow> ('k \<rightharpoonup> real) \<Rightarrow>
   error + ('k \<rightharpoonup> real) \<times> ('k \<rightharpoonup> real)" where
  "grpo_stats [] id2mean id2std = Inr (id2mean, id2std)"
| "grpo_stats ((idx, xs) # rest) id2mean id2std =
     (if length xs = 1 then grpo_stats rest (id2mean(idx \<mapsto> 0)) (id2std(idx \<mapsto> 1))
      else if length xs > 1 then
        grpo_stats rest (id2mean(idx \<mapsto> mean xs)) (id2std(idx \<mapsto> std xs))
      else Inl ValueError)"

definition grpo_scores ::
  "tensor \<Rightarrow> 'k list \<Rightarrow> real \<Rightarrow> bool \<Rightarrow> string \<Rightarrow> real \<Rightarrow> error + vec" where
  \<comment> \<open>the one-dimensional tensor \<open>scores\<close> after the last loop\<close>
  "grpo_scores token_level_rewards index epsilon norm_adv_by_std_in_grpo norm_by_importance
       scale =
     (let scores = map sum_list token_level_rewards;
          bsz = length scores
      in if length index < bsz then Inl IndexError
         else
           let id2score = build_id2score index scores
           in ebind (grpo_stats id2score Map.empty Map.empty) (\<lambda>(id2mean, id2std).
                emap (\<lambda>(k, s).
                  case id2mean k of
                    None \<Rightarrow> Inl KeyError
                  | Some m \<Rightarrow>
                      if norm_adv_by_std_in_grpo then
                        (case id2std k of
                           None \<Rightarrow> Inl KeyError
                         | Some sd \<Rightarrow> Inr ((s - m) / (sd + epsilon)))
                      else if norm_by_importance = ''v1'' then
                        (case id2std k of
                           None \<Rightarrow> Inl KeyError
                         | Some sd \<Rightarrow> Inr ((s - m) / ((scale / sd) + epsilon)))
                      else Inr (s - m))
                  (zip index scores)))"

definition broadcast_scores :: "vec \<Rightarrow> nat \<Rightarrow> tensor \<Rightarrow> tensor" where
  \<comment> \<open>\<open>scores.unsqueeze(-1).tile([1, response_length]) * eos_mask\<close>\<close>
  "broadcast_scores scores response_length eos_mask =
     tmap2 (*) (map (replicate response_length) scores) eos_mask"

definition compute_grpo_outcome_advantage ::
  "tensor \<Rightarrow> tensor \<Rightarrow> 'k list \<Rightarrow> real \<Rightarrow> bool \<Rightarrow> string \<Rightarrow> real \<Rightarrow> error + tensor \<times> tensor" where
  "compute_grpo_outcome_advantage token_level_rewards eos_mask index epsilon
       norm_adv_by_std_in_grpo norm_by_importance scale =
     (let response_length = ncols token_level_rewards
      in ebind (grpo_scores token_level_rewards index epsilon norm_adv_by_std_in_grpo
                  norm_by_importance scale) (\<lambda>scores.
           let scores = broadcast_scores scores response_length eos_mask
           in Inr (scores, scores)))"

fun rloo_stats :: "('k \<times> real list) list \<Rightarrow> ('k \<rightharpoonup> real) \<Rightarrow> error + ('k \<rightharpoonup> real)" where
  "rloo_stats [] id2mean = Inr id2mean"
| "rloo_stats ((idx, xs) # rest) id2mean =
     (if length xs = 1 then rloo_stats rest (id2mean(idx \<mapsto> 0))
      else if length xs > 1 then rloo_stats rest (id2mean(idx \<mapsto> mean xs))
      else Inl ValueError)"

definition rloo_scores :: "tensor \<Rightarrow> 'k list \<Rightarrow> error + vec" where
  \<comment> \<open>the one-dimensional tensor \<open>scores\<close> after the last loop\<close>
  "rloo_scores token_level_rewards index =
     (let scores = map sum_list token_level_rewards;
          bsz = length scores
      in if length index < bsz then Inl IndexError
         else
           let id2score = build_id2score index scores
           in ebind (rloo_stats id2score Map.empty) (\<lambda>id2mean.
                emap (\<lambda>(k, s).
                  let response_num = length (get_scores id2score k)
                  in if response_num > 1 then
                       (case id2mean k of
                          None \<Rightarrow> Inl KeyError
                        | Some m \<Rightarrow>
                            Inr (s * real response_num / (real response_num - 1)
                                 - m * real response_num / (real response_num - 1)))
                     else Inr s)
                  (zip index scores)))"

definition compute_rloo_outcome_advantage ::
  "tensor \<Rightarrow> tensor \<Rightarrow> 'k list \<Rightarrow> error + tensor \<times> tensor" where
  "compute_rloo_outcome_advantage token_level_rewards eos_mask index =
     (let response_length = ncols token_level_rewards
      in ebind (rloo_scores token_level_rewards index) (\<lambda>scores.
           let scores = broadcast_scores scores response_length eos_mask
           in Inr (scores, scores)))"

text \<open>
  The loop of \<open>compute_reinforce_plus_plus_outcome_advantage\<close>, with the running return and
  the tensor \<open>returns\<close> as its state.
\<close>

fun rpp_loop :: "tensor \<Rightarrow> tensor \<Rightarrow> real \<Rightarrow> nat \<Rightarrow> vec \<Rightarrow> tensor \<Rightarrow> tensor" where
  "rpp_loop token_level_rewards eos_mask gamma 0 running_return returns = returns"
| "rpp_loop token_level_rewards eos_mask gamma (Suc t) running_return returns =
     (let running_return = map2 (+) (col t token_level_rewards)
                             (map (\<lambda>r. gamma * r) running_return);
          returns = set_col t running_return returns;
          running_return = map2 (*) running_return (col t eos_mask)
      in rpp_loop token_level_rewards eos_mask gamma t running_return returns)"

definition compute_reinforce_plus_plus_outcome_advantage ::
  "tensor \<Rightarrow> tensor \<Rightarrow> real \<Rightarrow> error + tensor \<times> tensor" where
  "compute_reinforce_plus_plus_outcome_advantage token_level_rewards eos_mask gamma =
     (let returns = rpp_loop token_level_rewards eos_mask gamma (ncols token_level_rewards)
                      (replicate (nrows token_level_rewards) 0)
                      (tmap (\<lambda>_. 0) token_level_rewards)
      in ebind (masked_whiten returns eos_mask) (\<lambda>advantages.
           let advantages = tmap2 (*) advantages eos_mask
           in Inr (advantages, returns)))"

fun cumsum_from :: "real \<Rightarrow> vec \<Rightarrow> vec" where
  "cumsum_from acc [] = []"
| "cumsum_from acc (x # xs) = (acc + x) # cumsum_from (acc + x) xs"

definition cumsum :: "vec \<Rightarrow> vec" where
  "cumsum xs = cumsum_from 0 xs"

definition compute_remax_outcome_advantage :: "tensor \<Rightarrow> vec \<Rightarrow> tensor \<Rightarrow> tensor \<times> tensor" where
  "compute_remax_outcome_advantage token_level_rewards reward_baselines eos_mask =
     (let response_length = ncols token_level_rewards;
          returns = map (\<lambda>row. rev (cumsum (rev row))) (tmap2 (*) token_level_rewards eos_mask);
          advantages = tmap2 (-) returns
                         (tmap2 (*) (map (replicate response_length) reward_baselines) eos_mask)
      in (advantages, returns))"

section \<open>Rollout state machine\<close>

text \<open>
  The loop of \<open>_async_rollout_a_request\<close> in
  \<open>verl/workers/rollout/vllm_rollout/vllm_async_engine.py\<close> and the method
  \<open>process_tool_call\<close> it calls. The generation engine, the tokenizer, the regular
  expressions, the image functions and the two prompt constants of
  \<open>verl.trainer.constants\<close> are parameters, collected in an environment. Images, image
  sizes and tool arguments are of arbitrary types. Writing the trajectory to disk
  (\<open>save_traj\<close>) is left out: it changes none of the values below.
\<close>

record ('img, 'sz, 'args) env =
  generate :: "int list \<Rightarrow> 'img list \<Rightarrow> nat \<Rightarrow> int list \<times> string"
    \<comment> \<open>\<open>self.engine.generate\<close> on \<open>vllm_input\<close>, in iteration \<open>current_iteration\<close>: the
        token ids and the finish reason of \<open>results.outputs[0]\<close>\<close>
  decode :: "int list \<Rightarrow> string"
  encode :: "string \<Rightarrow> int list"
  grounding_findall :: "string \<Rightarrow> string list"
    \<comment> \<open>\<open>grounding_pattern.findall\<close>\<close>
  answer_match :: "string \<Rightarrow> bool"
    \<comment> \<open>whether \<open>re.match(".*<answer>.*</answer>$", _, re.DOTALL)\<close> is not \<open>None\<close>\<close>
  finish_is_length :: "string \<Rightarrow> error + bool"
    \<comment> \<open>whether \<open>FinishReasonTypeEnum.from_str\<close> gives \<open>LENGTH\<close>; it may raise\<close>
  try_grounding :: "string \<Rightarrow> 'img list \<Rightarrow> 'sz list \<Rightarrow> string + (string \<times> 'args)"
    \<comment> \<open>the \<open>try\<close> block of \<open>process_tool_call\<close>: \<open>Inl\<close> the text of the exception caught,
        \<open>Inr\<close> the tool type and the arguments\<close>
  crop_image :: "'args \<Rightarrow> 'sz list \<Rightarrow> 'img"
  process_image :: "'img \<Rightarrow> 'img"
  image_size :: "'img \<Rightarrow> 'sz"
  calculate_image_token_num :: "'img \<Rightarrow> int"
  tool_call_crop_prompt :: "nat \<Rightarrow> nat \<Rightarrow> string"
    \<comment> \<open>\<open>TOOL_CALL_CROP_MULTI_TRUN_PROMPT.format(action_turn, observation_turn)\<close>\<close>
  error_info_prompt :: string
    \<comment> \<open>\<open>ERROR_INFO_MULTI_TURN_PROMPT\<close>\<close>

record rollout_config =
  max_total_response_length :: int
  max_iterations :: nat
  max_image_num :: nat

text \<open>
  The variables that the loop and \<open>process_tool_call\<close> change. \<open>prompt_token_ids\<close> and
  \<open>images\<close> are \<open>vllm_input['prompt_token_ids']\<close> and
  \<open>vllm_input['multi_modal_data']['image']\<close>; a fragment of the response mask is the list
  of its entries.
\<close>

record ('img, 'sz) rollout_state =
  prompt_token_ids :: "int list"
  images :: "'img list"
  image_size_used_list :: "'sz list"
  observations_list :: "'img list"
  multi_turn_response_mask :: "int list list"
  context_length :: int
  exceed :: bool
  void :: bool

definition pop :: "'a list \<Rightarrow> error + 'a list" where
  \<comment> \<open>\<open>list.pop()\<close>, the list that is left; an empty list raises \<open>IndexError\<close>\<close>
  "pop xs = (if xs = [] then Inl IndexError else Inr (butlast xs))"

definition process_tool_call ::
  "('img, 'sz, 'args) env \<Rightarrow> ('img, 'sz) rollout_state \<Rightarrow> string \<Rightarrow> nat \<Rightarrow>
   error + int \<times> ('img + string) \<times> ('img, 'sz) rollout_state" where
  \<comment> \<open>returns \<open>new_context_length\<close>, \<open>tool_outputs\<close> (an image or a string) and the state\<close>
  "process_tool_call e st decoded_resp current_iteration =
     (case try_grounding e decoded_resp (observations_list st) (image_size_used_list st) of
        Inl error_info \<Rightarrow>
          let tool_outputs = ''ERROR occurs during grounding. Error Information: ''
                               @ error_info @ ''.\<newline>'';
              tool_call_prompt_message =
                ''<|im_end|>\<newline><|im_start|>user\<newline>'' @ tool_outputs
                  @ error_info_prompt e @ ''<|im_end|>\<newline><|im_start|>assistant\<newline>'';
              next_turn_prompt_ids = encode e tool_call_prompt_message;
              st = st\<lparr>prompt_token_ids := prompt_token_ids st @ next_turn_prompt_ids\<rparr>;
              st = st\<lparr>multi_turn_response_mask :=
                        multi_turn_response_mask st
                          @ [replicate (length next_turn_prompt_ids) 0]\<rparr>;
              new_context_length = int (length next_turn_prompt_ids)
          in Inr (new_context_length, Inr tool_outputs, st)
      | Inr (tool_type, args) \<Rightarrow>
          if tool_type = ''grounding'' then
            let tool_outputs = crop_image e args (image_size_used_list st);
                st = st\<lparr>observations_list := observations_list st @ [tool_outputs]\<rparr>;
                tool_call_prompt_message =
                  ''<|im_end|>\<newline><|im_start|>user\<newline>''
                    @ tool_call_crop_prompt e current_iteration (current_iteration + 1)
                    @ ''<|im_end|>\<newline><|im_start|>assistant\<newline>'';
                next_turn_prompt_ids = encode e tool_call_prompt_message;
                st = st\<lparr>prompt_token_ids := prompt_token_ids st @ next_turn_prompt_ids\<rparr>;
                resized_image = process_image e tool_outputs;
                st = st\<lparr>image_size_used_list :=
                          image_size_used_list st @ [image_size e resized_image]\<rparr>;
                st = st\<lparr>images := images st @ [resized_image]\<rparr>;
                st = st\<lparr>multi_turn_response_mask :=
                          multi_turn_response_mask st
                            @ [replicate (length next_turn_prompt_ids) 0]\<rparr>;
                image_token_num = calculate_image_token_num e resized_image;
                new_context_length = int (length next_turn_prompt_ids) + image_token_num - 1
            in Inr (new_context_length, Inl tool_outputs, st)
          else Inl ValueError)"

datatype 'a loop_step = Continue 'a | Break 'a

definition append_response ::
  "('img, 'sz) rollout_state \<Rightarrow> int list \<Rightarrow> ('img, 'sz) rollout_state" where
  \<comment> \<open>the three statements after the generation: the response joins the token buffer\<close>
  "append_response st response =
     st\<lparr>prompt_token_ids := prompt_token_ids st @ response,
        multi_turn_response_mask :=
          multi_turn_response_mask st @ [replicate (length response) 1],
        context_length := context_length st + int (length response)\<rparr>"

definition roll_back ::
  "('img, 'sz) rollout_state \<Rightarrow> int list \<Rightarrow> ('img + string) \<Rightarrow>
   error + ('img, 'sz) rollout_state" where
  \<comment> \<open>the statements under the second check of the context length, before \<open>break\<close>\<close>
  "roll_back st old_prompt_token_ids tool_outputs =
     (let st = st\<lparr>prompt_token_ids := old_prompt_token_ids\<rparr>
      in ebind (case tool_outputs of
                  Inl _ \<Rightarrow>
                    ebind (pop (images st)) (\<lambda>imgs.
                    ebind (pop (image_size_used_list st)) (\<lambda>sizes.
                    ebind (pop (observations_list st)) (\<lambda>obs.
                      Inr (st\<lparr>images := imgs, image_size_used_list := sizes,
                               observations_list := obs\<rparr>))))
                | Inr _ \<Rightarrow> Inr st) (\<lambda>st.
         ebind (pop (multi_turn_response_mask st)) (\<lambda>frags.
           Inr (st\<lparr>multi_turn_response_mask := frags, exceed := True\<rparr>))))"

definition rollout_iteration ::
  "('img, 'sz, 'args) env \<Rightarrow> rollout_config \<Rightarrow> nat \<Rightarrow> ('img, 'sz) rollout_state \<Rightarrow>
   error + ('img, 'sz) rollout_state loop_step" where
  \<comment> \<open>the body of the \<open>while\<close> loop, up to the increment of \<open>current_iteration\<close>\<close>
  "rollout_iteration e cfg current_iteration st =
     (let (token_ids, finish_reason) =
            generate e (prompt_token_ids st) (images st) current_iteration;
          response = filter (\<lambda>token_id. token_id \<le> 151664) token_ids;
          st = append_response st response;
          decoded_resp = decode e response;
          tool_call_contents = grounding_findall e decoded_resp
      in if length tool_call_contents > 0 then
           if length (images st) \<ge> max_image_num cfg
              \<or> current_iteration = max_iterations cfg - 1
           then Inr (Break (st\<lparr>exceed := True\<rparr>))
           else if context_length st \<ge> max_total_response_length cfg - 2000
           then Inr (Break (st\<lparr>exceed := True\<rparr>))
           else
             let old_prompt_token_ids = prompt_token_ids st
             in ebind (process_tool_call e st decoded_resp current_iteration)
                  (\<lambda>(new_context_length, tool_outputs, st).
                     let st = st\<lparr>context_length := context_length st + new_context_length\<rparr>
                     in if context_length st \<ge> max_total_response_length cfg - 2000
                        then ebind (roll_back st old_prompt_token_ids tool_outputs)
                               (\<lambda>st. Inr (Break st))
                        else Inr (Continue st))
         else
           ebind (finish_is_length e finish_reason) (\<lambda>is_length.
             if is_length \<or> \<not> answer_match e decoded_resp
             then Inr (Break (st\<lparr>void := True\<rparr>))
             else Inr (Break st)))"

function rollout_loop ::
  "('img, 'sz, 'args) env \<Rightarrow> rollout_config \<Rightarrow> nat \<Rightarrow> ('img, 'sz) rollout_state \<Rightarrow>
   error + nat \<times> ('img, 'sz) rollout_state" where
  "rollout_loop e cfg current_iteration st =
     (if current_iteration < max_iterations cfg then
        (case rollout_iteration e cfg current_iteration st of
           Inl err \<Rightarrow> Inl err
         | Inr (Break st') \<Rightarrow> Inr (current_iteration, st')
         | Inr (Continue st') \<Rightarrow> rollout_loop e cfg (current_iteration + 1) st')
      else Inr (current_iteration, st))"
  by pat_completeness auto
termination
  by (relation "measure (\<lambda>(e, cfg, current_iteration, st).
                  max_iterations cfg - current_iteration)") auto

declare rollout_loop.simps [simp del]

section \<open>Properties of the KL penalty\<close>

lemma tmap_tmap: "tmap f (tmap g A) = tmap (f \<circ> g) A"
  by (simp add: tmap_def)

lemma tmap_tmap2: "tmap f (tmap2 g A B) = tmap2 (\<lambda>x y. f (g x y)) A B"
  by (simp add: tmap_def tmap2_def split_def)

lemma map2_map_left_same:
  "map2 f (map g xs) xs = map (\<lambda>x. f (g x) x) xs"
  by (induction xs) auto

lemma map2_map2_left_same:
  "map2 f (map2 g xs ys) (map2 h xs ys) = map2 (\<lambda>x y. f (g x y) (h x y)) xs ys"
proof (induction xs arbitrary: ys)
  case Nil
  show ?case by simp
next
  case (Cons x xs)
  show ?case by (cases ys) (simp_all add: Cons.IH)
qed

lemma tmap2_tmap2_same:
  "tmap2 f (tmap2 g A B) (tmap2 h A B) = tmap2 (\<lambda>x y. f (g x y) (h x y)) A B"
proof (induction A arbitrary: B)
  case Nil
  show ?case by (simp add: tmap2_def)
next
  case (Cons a A)
  show ?case
  proof (cases B)
    case Nil
    then show ?thesis by (simp add: tmap2_def)
  next
    case (Cons b B')
    have "tmap2 f (tmap2 g A B') (tmap2 h A B') = tmap2 (\<lambda>x y. f (g x y) (h x y)) A B'"
      by (rule Cons.IH)
    then show ?thesis
      using Cons by (simp add: tmap2_def map2_map2_left_same)
  qed
qed

lemma clamp_bounds: "lo \<le> hi \<Longrightarrow> lo \<le> clamp x lo hi \<and> clamp x lo hi \<le> hi"
  by (simp add: clamp_def)

lemma tmap2_elements:
  "row \<in> set (tmap2 f A B) \<Longrightarrow> x \<in> set row \<Longrightarrow> \<exists>a b. x = f a b"
  by (auto simp: tmap2_def elim!: in_set_zipE) blast

text \<open>
  C9: for every pair of log-prob tensors, \<open>kl_penalty\<close> with kind \<open>low_var_kl\<close> returns
  \<open>exp(ref - logp) - (ref - logp) - 1\<close> clamped element-wise into \<open>[-10, 10]\<close>, and every
  element of the output lies in that interval.
\<close>

theorem kl_penalty_low_var_kl_clamped:
  "kl_penalty logprob ref_logprob ''low_var_kl'' =
     Inr (tmap2 (\<lambda>r l. clamp (exp (r - l) - (r - l) - 1) (- 10) 10) ref_logprob logprob)
   \<and> (\<forall>out. kl_penalty logprob ref_logprob ''low_var_kl'' = Inr out \<longrightarrow>
        (\<forall>row \<in> set out. \<forall>x \<in> set row. - 10 \<le> x \<and> x \<le> 10))"
proof -
  let ?kl = "tmap2 (-) ref_logprob logprob"
  have ratio: "tmap exp ?kl = tmap2 (\<lambda>r l. exp (r - l)) ref_logprob logprob"
    by (simp add: tmap_tmap2)
  have kld: "tmap2 (-) (tmap exp ?kl) ?kl
             = tmap2 (\<lambda>r l. exp (r - l) - (r - l)) ref_logprob logprob"
    unfolding ratio by (rule tmap2_tmap2_same)
  have eq: "kl_penalty logprob ref_logprob ''low_var_kl'' =
     Inr (tmap2 (\<lambda>r l. clamp (exp (r - l) - (r - l) - 1) (- 10) 10) ref_logprob logprob)"
    by (simp add: kl_penalty_def Let_def tmap_tmap2 tmap2_tmap2_same)
  have bounds: "- 10 \<le> x \<and> x \<le> 10"
    if mem: "row \<in> set (tmap2 (\<lambda>r l. clamp (exp (r - l) - (r - l) - 1) (- 10) 10)
                      ref_logprob logprob)" "x \<in> set row" for row x
  proof -
    obtain a b where "x = clamp (exp (a - b) - (a - b) - 1) (- 10) 10"
      using tmap2_elements [OF mem] by blast
    then show ?thesis
      using clamp_bounds [of "- 10" 10] by simp
  qed
  show ?thesis
    using eq bounds by auto
qed

theorem kl_penalty_low_var_kl_clamped_witness:
  "kl_penalty [[0, 0]] [[0, - 20]] ''low_var_kl'' = Inr [[0, 10]]"
proof -
  have pos: "exp (- 20 :: real) > 0"
    by (rule exp_gt_zero)
  have c1: "clamp (exp (0 - 0) - (0 - 0) - 1) (- 10) 10 = (0::real)"
    by (simp add: clamp_def)
  have "exp (- 20 :: real) - (- 20) - 1 \<ge> 10"
    using pos by linarith
  then have c2: "clamp (exp (- 20 - 0) - (- 20 - 0) - 1) (- 10) 10 = (10::real)"
    by (simp add: clamp_def)
  have shape: "tmap2 f [[0, - 20]] [[0, 0]] = [[f 0 0, f (- 20) 0]]" for f
    by (simp add: tmap2_def)
  have "kl_penalty [[0, 0]] [[0, - 20]] ''low_var_kl'' =
     Inr (tmap2 (\<lambda>r l. clamp (exp (r - l) - (r - l) - 1) (- 10) 10) [[0, - 20]] [[0, 0]])"
    using kl_penalty_low_var_kl_clamped [of "[[0, 0]]" "[[0, - 20]]"] by (rule conjunct1)
  then show ?thesis
    unfolding shape c1 c2 .
qed

section \<open>Properties of the KL controller factory\<close>

text \<open>
  C8: the factory is meant to reject an adaptive controller whose horizon is not positive.
  The assertion reads \<open>config.kl_ctrl.horizon\<close>, while the controller is built from
  \<open>config.critic.kl_ctrl.horizon\<close> (the value the assertion message prints). A configuration
  whose top-level horizon is positive and whose critic horizon is 0 therefore yields an
  adaptive controller with horizon 0, and a configuration without the top-level attribute
  fails with an attribute error whatever the horizon is.
\<close>

theorem get_kl_controller_horizon_unchecked:
  "get_kl_controller
     \<lparr>critic_kl_ctrl = \<lparr>ctrl_type = ''adaptive'', kl_coef = 1, target_kl = 1, horizon = 0\<rparr>,
      top_kl_ctrl = Some \<lparr>ctrl_type = ''adaptive'', kl_coef = 1, target_kl = 1, horizon = 10\<rparr>\<rparr>
     = Inr (AdaptiveKLController 1 1 0)
   \<and> get_kl_controller
     \<lparr>critic_kl_ctrl = \<lparr>ctrl_type = ''adaptive'', kl_coef = 1, target_kl = 1, horizon = 10\<rparr>,
      top_kl_ctrl = None\<rparr>
     = Inl AttributeError"
  by (simp add: get_kl_controller_def)

lemma get_kl_controller_unknown_type:
  "ctrl_type (critic_kl_ctrl cfg) \<noteq> ''fixed'' \<Longrightarrow> ctrl_type (critic_kl_ctrl cfg) \<noteq> ''adaptive''
   \<Longrightarrow> get_kl_controller cfg = Inl ValueError"
  by (simp add: get_kl_controller_def)

lemma get_kl_controller_checks_top_level_horizon:
  "ctrl_type (critic_kl_ctrl cfg) = ''adaptive'' \<Longrightarrow> top_kl_ctrl cfg = Some k \<Longrightarrow> horizon k \<le> 0
   \<Longrightarrow> get_kl_controller cfg = Inl AssertionError"
  by (simp add: get_kl_controller_def)

section \<open>Properties of the clip-range defaults\<close>

lemma or_default_simps:
  "or_default None d = d" "or_default (Some v) d = Some v" "or_default d d = d"
  by (simp_all add: or_default_def split: option.splits)

lemma ebind_simps:
  "ebind (Inl e) f = Inl e" "ebind (Inr x) f = f x"
  by (simp_all add: ebind_def)

lemma ebind_Inl_const: "\<exists>e. ebind m (\<lambda>x. Inl (g x)) = Inl e"
  by (cases m) (simp_all add: ebind_def)

lemma clip_bounds_None:
  "clip_bounds None hi = Inl TypeError" "clip_bounds lo None = Inl TypeError"
  by (simp_all add: clip_bounds_def split: option.splits)

section \<open>Properties of the loss aggregation\<close>

lemma expand_list_id: "length xs = n \<Longrightarrow> expand_list n xs = xs"
  by (auto simp: expand_list_def split: list.splits)

lemma rect_rows: "rect A \<Longrightarrow> r \<in> set A \<Longrightarrow> length r = ncols A"
  by (simp add: rect_def list_all_iff)

lemma expand_id: "rect A \<Longrightarrow> expand (nrows A) (ncols A) A = A"
proof -
  assume r: "rect A"
  have "map (expand_list (ncols A)) A = A"
    using rect_rows [OF r] by (simp add: map_idI expand_list_id)
  then show ?thesis
    by (simp add: expand_def nrows_def expand_list_id)
qed

lemma bdim_same: "bdim a a = Some a"
  by (simp add: bdim_def)

lemma bop_same_shape:
  "rect A \<Longrightarrow> rect B \<Longrightarrow> nrows A = nrows B \<Longrightarrow> ncols A = ncols B
   \<Longrightarrow> bop f A B = Inr (tmap2 f A B)"
  using expand_id [of A] expand_id [of B] by (simp add: bop_def bdim_same)

lemma nrows_tmap: "nrows (tmap f A) = nrows A"
  by (simp add: nrows_def tmap_def)

lemma ncols_tmap: "ncols (tmap f A) = ncols A"
  by (cases A) (simp_all add: ncols_def tmap_def)

lemma rect_tmap: "rect A \<Longrightarrow> rect (tmap f A)"
  using ncols_tmap [of f A] by (simp add: rect_def list_all_iff tmap_def)

lemma map2_mul_one: "map2 (*) r (map (\<lambda>_. 1) r) = (r :: real list)"
  by (induction r) simp_all

lemma tmap2_mul_ones: "tmap2 (*) L (tmap (\<lambda>_. 1) L) = L"
  by (induction L) (simp_all add: tmap2_def tmap_def map2_mul_one)

lemma sum_list_ones: "sum_list (map (\<lambda>_. 1 :: real) r) = real (length r)"
  by (induction r) simp_all

lemma tsum_ones_aux:
  "list_all (\<lambda>r. length r = c) L \<Longrightarrow> tsum (tmap (\<lambda>_. 1) L) = real (length L * c)"
  by (induction L) (simp_all add: tsum_def tmap_def sum_list_ones algebra_simps)

lemma tsum_ones: "rect L \<Longrightarrow> tsum (tmap (\<lambda>_. 1) L) = real (nrows L * ncols L)"
  by (simp add: rect_def nrows_def tsum_ones_aux)

lemma sum_list_divide: "sum_list (map (\<lambda>r. f r / c) xs) = sum_list (map f xs) / (c :: real)"
  by (induction xs) (simp_all add: add_divide_distrib)

lemma mean_row_sums_norm:
  "mean (map (\<lambda>r. sum_list r / c) L) = tsum L / (c * real (length L))"
  by (simp add: mean_def sum_list_divide tsum_def)

text \<open>
  C7: on an all-ones mask \<open>agg_loss\<close> with mode \<open>token-mean\<close> is the plain mean of all
  elements of the loss matrix, and mode \<open>seq-mean-token-sum-norm\<close>, whose normalizer is the
  width of the mask tensor, gives the same value.
\<close>

theorem agg_loss_full_mask:
  assumes "rect L" and "0 < nrows L" and "0 < ncols L"
  shows "agg_loss L (tmap (\<lambda>_. 1) L) ''token-mean'' scale eps
           = Inr (tsum L / real (nrows L * ncols L))
       \<and> agg_loss L (tmap (\<lambda>_. 1) L) ''seq-mean-token-sum-norm'' scale eps
           = agg_loss L (tmap (\<lambda>_. 1) L) ''token-mean'' scale eps"
proof -
  let ?M = "tmap (\<lambda>_. 1) L"
  have prod: "bop (*) L ?M = Inr L"
    using assms(1) by (simp add: bop_same_shape rect_tmap nrows_tmap ncols_tmap tmap2_mul_ones)
  have tm: "agg_loss L ?M ''token-mean'' scale eps = Inr (tsum L / real (nrows L * ncols L))"
    using assms(1) by (simp add: agg_loss_def masked_mean_def prod ebind_simps tsum_ones)
  have sn: "agg_loss L ?M ''seq-mean-token-sum-norm'' scale eps
              = Inr (tsum L / (real (ncols L) * real (nrows L)))"
    by (simp add: agg_loss_def prod ebind_simps ncols_tmap mean_row_sums_norm nrows_def)
  show ?thesis
    unfolding tm sn by (simp add: mult.commute)
qed

theorem agg_loss_full_mask_witness:
  "agg_loss [[1, 2], [3, 6]] [[1, 1], [1, 1]] ''token-mean'' 1 0 = Inr 3
   \<and> agg_loss [[1, 2], [3, 6]] [[1, 1], [1, 1]] ''seq-mean-token-sum-norm'' 1 0 = Inr 3"
proof -
  have r: "rect [[1, 2], [3, 6 :: real]]" by (simp add: rect_def ncols_def)
  have n: "0 < nrows [[1, 2], [3, 6 :: real]]" "0 < ncols [[1, 2], [3, 6 :: real]]"
    by (simp_all add: nrows_def ncols_def)
  have m: "tmap (\<lambda>_. 1) [[1, 2], [3, 6 :: real]] = [[1, 1], [1, 1]]"
    by (simp add: tmap_def)
  have v: "tsum [[1, 2], [3, 6]] / real (nrows [[1, 2], [3, 6 :: real]] * ncols [[1, 2], [3, 6 :: real]]) = 3"
    by (simp add: tsum_def nrows_def ncols_def)
  show ?thesis
    using agg_loss_full_mask [OF r n, of 1 0] unfolding m v by simp
qed

section \<open>Properties of the clip fraction\<close>

lemma map2_map_left: "map2 f (map g xs) ys = map2 (\<lambda>a b. f (g a) b) xs ys"
  by (simp add: zip_map1 split_def)

lemma map2_map_right: "map2 f xs (map h ys) = map2 (\<lambda>a b. f a (h b)) xs ys"
  by (simp add: zip_map2 split_def)

lemma tmap2_tmap_left: "tmap2 f (tmap g A) B = tmap2 (\<lambda>a b. f (g a) b) A B"
  by (simp add: tmap2_def tmap_def zip_map1 split_def map2_map_left)

lemma tmap2_tmap_right: "tmap2 f A (tmap h B) = tmap2 (\<lambda>a b. f a (h b)) A B"
  by (simp add: tmap2_def tmap_def zip_map2 split_def map2_map_right)

lemma ebind_eq_Inr: "ebind m f = Inr y \<longleftrightarrow> (\<exists>x. m = Inr x \<and> f x = Inr y)"
  by (cases m) (simp_all add: ebind_def)

lemma gt_float_clip_mono:
  assumes "0 \<le> c'" and "c' \<le> c"
  shows "gt_float (- a * clamp r (1 - c) (1 + c)) (- a * r)
         \<le> gt_float (- a * clamp r (1 - c') (1 + c')) (- a * r)"
proof (cases "- a * clamp r (1 - c) (1 + c) > - a * r")
  case False
  then show ?thesis by (simp add: gt_float_def)
next
  case True
  have "- a * clamp r (1 - c') (1 + c') > - a * r"
  proof (cases "a > 0")
    case pos: True
    from True pos have "clamp r (1 - c) (1 + c) < r"
      by (simp add: mult_less_cancel_left)
    then have "r > 1 + c" using assms by (simp add: clamp_def min_def max_def split: if_splits)
    then have "clamp r (1 - c') (1 + c') < r"
      using assms by (simp add: clamp_def min_def max_def)
    then show ?thesis using pos by (simp add: mult_less_cancel_left)
  next
    case npos: False
    show ?thesis
    proof (cases "a = 0")
      case True
      with \<open>- a * clamp r (1 - c) (1 + c) > - a * r\<close> show ?thesis by simp
    next
      case False
      then have neg: "a < 0" using npos by simp
      from True neg have "clamp r (1 - c) (1 + c) > r"
        by (simp add: mult_less_cancel_left)
      then have "r < 1 - c" using assms by (simp add: clamp_def min_def max_def split: if_splits)
      then have "clamp r (1 - c') (1 + c') > r"
        using assms by (simp add: clamp_def min_def max_def)
      then show ?thesis using neg by (simp add: mult_less_cancel_left)
    qed
  qed
  then show ?thesis by (simp add: gt_float_def)
qed

lemma map2_pointwise_le:
  "(\<And>a b. f a b \<le> (g a b :: real)) \<Longrightarrow> list_all2 (\<le>) (map2 f xs ys) (map2 g xs ys)"
  by (simp add: list_all2_conv_all_nth)

lemma tmap2_pointwise_le:
  "(\<And>a b. f a b \<le> g a b) \<Longrightarrow> list_all2 (list_all2 (\<le>)) (tmap2 f A B) (tmap2 g A B)"
  by (simp add: tmap2_def list_all2_conv_all_nth map2_pointwise_le)

lemma expand_list_all2:
  "list_all2 P xs ys \<Longrightarrow> list_all2 P (expand_list n xs) (expand_list n ys)"
  by (auto simp: expand_list_def list_all2_Cons1 list_all2_Cons2 list_all2_conv_all_nth
           split: list.splits)

lemma expand_all2:
  assumes "list_all2 (list_all2 P) A B"
  shows "list_all2 (list_all2 P) (expand r c A) (expand r c B)"
proof -
  have "list_all2 (list_all2 P) (map (expand_list c) A) (map (expand_list c) B)"
    using assms by (induction rule: list_all2_induct) (simp_all add: expand_list_all2)
  then show ?thesis
    unfolding expand_def by (rule expand_list_all2)
qed

lemma all2_nrows: "list_all2 P A B \<Longrightarrow> nrows A = nrows B"
  by (simp add: nrows_def list_all2_lengthD)

lemma all2_ncols: "list_all2 (list_all2 P) A B \<Longrightarrow> ncols A = ncols B"
  by (cases A; cases B) (auto simp: ncols_def dest: list_all2_lengthD)

lemma sum_list_map2_mono:
  "list_all2 (\<le>) g g' \<Longrightarrow> \<forall>x \<in> set m. 0 \<le> x
   \<Longrightarrow> sum_list (map2 (*) g m) \<le> sum_list (map2 (*) g' (m :: real list))"
proof (induction g g' arbitrary: m rule: list_all2_induct)
  case Nil
  show ?case by simp
next
  case (Cons x xs y ys)
  show ?case
  proof (cases m)
    case Nil
    then show ?thesis by simp
  next
    case (Cons z zs)
    have "x * z \<le> y * z" using Cons.hyps(1) Cons.prems \<open>m = z # zs\<close>
      by (simp add: mult_right_mono)
    moreover have "sum_list (map2 (*) xs zs) \<le> sum_list (map2 (*) ys zs)"
      using Cons.IH [of zs] Cons.prems \<open>m = z # zs\<close> by simp
    ultimately show ?thesis using \<open>m = z # zs\<close> by simp
  qed
qed

lemma tsum_tmap2_mono:
  "list_all2 (list_all2 (\<le>)) G G' \<Longrightarrow> \<forall>row \<in> set M. \<forall>x \<in> set row. 0 \<le> x
   \<Longrightarrow> tsum (tmap2 (*) G M) \<le> tsum (tmap2 (*) G' M)"
proof (induction G G' arbitrary: M rule: list_all2_induct)
  case Nil
  show ?case by (simp add: tsum_def tmap2_def)
next
  case (Cons g G g' G')
  show ?case
  proof (cases M)
    case Nil
    then show ?thesis by (simp add: tsum_def tmap2_def)
  next
    case (Cons m Ms)
    have "sum_list (map2 (*) g m) \<le> sum_list (map2 (*) g' m)"
      using Cons.hyps(1) Cons.prems \<open>M = m # Ms\<close> by (simp add: sum_list_map2_mono)
    moreover have "tsum (tmap2 (*) G Ms) \<le> tsum (tmap2 (*) G' Ms)"
      using Cons.IH [of Ms] Cons.prems \<open>M = m # Ms\<close> by simp
    ultimately show ?thesis using \<open>M = m # Ms\<close> by (simp add: tsum_def tmap2_def)
  qed
qed

lemma set_expand_list: "set (expand_list n xs) \<subseteq> set xs"
  by (auto simp: expand_list_def split: list.splits)

lemma expand_entries:
  assumes "row \<in> set (expand r c M)" and "x \<in> set row"
  shows "\<exists>row' \<in> set M. x \<in> set row'"
proof -
  from assms(1) have "row \<in> set (map (expand_list c) M)"
    using set_expand_list [of r "map (expand_list c) M"] by (auto simp: expand_def)
  then obtain row' where "row' \<in> set M" and "row = expand_list c row'" by auto
  then show ?thesis using assms(2) set_expand_list [of c row'] by auto
qed

lemma tsum_nonneg: "\<forall>row \<in> set M. \<forall>x \<in> set row. 0 \<le> x \<Longrightarrow> 0 \<le> tsum M"
  by (auto simp: tsum_def intro!: sum_list_nonneg)

lemma bop_Inr:
  assumes "bop f A B = Inr P"
  shows "\<exists>r c. bdim (nrows A) (nrows B) = Some r \<and> bdim (ncols A) (ncols B) = Some c
     \<and> P = tmap2 f (expand r c A) (expand r c B)"
proof (cases "bdim (nrows A) (nrows B)")
  case None
  with assms show ?thesis by (simp add: bop_def)
next
  case r: (Some r)
  show ?thesis
  proof (cases "bdim (ncols A) (ncols B)")
    case None
    with assms r show ?thesis by (simp add: bop_def)
  next
    case (Some c)
    with assms r show ?thesis by (simp add: bop_def)
  qed
qed

lemma masked_mean_Inr:
  assumes "masked_mean G M = Inr f"
  shows "\<exists>r c. bdim (nrows G) (nrows M) = Some r \<and> bdim (ncols G) (ncols M) = Some c
     \<and> f = tsum (tmap2 (*) (expand r c G) (expand r c M)) / tsum M"
proof -
  from assms obtain P where P: "bop (*) G M = Inr P" and f: "f = tsum P / tsum M"
    unfolding masked_mean_def ebind_eq_Inr by auto
  from bop_Inr [OF P] f show ?thesis by blast
qed

lemma masked_mean_mono:
  assumes le: "list_all2 (list_all2 (\<le>)) G G'"
      and nonneg: "\<forall>row \<in> set M. \<forall>x \<in> set row. 0 \<le> x"
      and f: "masked_mean G M = Inr f" and f': "masked_mean G' M = Inr f'"
  shows "f \<le> f'"
proof -
  have nr: "nrows G = nrows G'"
    using le by (rule all2_nrows)
  have nc: "ncols G = ncols G'"
    using le by (rule all2_ncols)
  from masked_mean_Inr [OF f] obtain r c where r: "bdim (nrows G) (nrows M) = Some r"
      and c: "bdim (ncols G) (ncols M) = Some c"
      and fv: "f = tsum (tmap2 (*) (expand r c G) (expand r c M)) / tsum M"
    by blast
  from masked_mean_Inr [OF f'] obtain r' c' where r': "bdim (nrows G') (nrows M) = Some r'"
      and c': "bdim (ncols G') (ncols M) = Some c'"
      and fv0: "f' = tsum (tmap2 (*) (expand r' c' G') (expand r' c' M)) / tsum M"
    by blast
  have "r' = r" using r r' nr by simp
  moreover have "c' = c" using c c' nc by simp
  ultimately have fv': "f' = tsum (tmap2 (*) (expand r c G') (expand r c M)) / tsum M"
    using fv0 by simp
  have ne: "\<forall>row \<in> set (expand r c M). \<forall>x \<in> set row. 0 \<le> x"
  proof (intro ballI)
    fix row x
    assume a: "row \<in> set (expand r c M)" and b: "x \<in> set row"
    from expand_entries [OF a b] obtain row' where "row' \<in> set M" and "x \<in> set row'" ..
    then show "0 \<le> x" using nonneg by simp
  qed
  have "list_all2 (list_all2 (\<le>)) (expand r c G) (expand r c G')"
    using le by (rule expand_all2)
  then have "tsum (tmap2 (*) (expand r c G) (expand r c M))
             \<le> tsum (tmap2 (*) (expand r c G') (expand r c M))"
    using ne by (rule tsum_tmap2_mono)
  moreover have "0 \<le> tsum M"
    using nonneg by (rule tsum_nonneg)
  ultimately show ?thesis
    unfolding fv fv' by (rule divide_right_mono)
qed

lemma clip_indicator:
  "tmap2 gt_float (tmap2 (*) (tmap uminus A) (tmap (\<lambda>r. clamp r lo hi) R))
                  (tmap2 (*) (tmap uminus A) R)
   = tmap2 (\<lambda>a r. gt_float (- a * clamp r lo hi) (- a * r)) A R"
  by (simp only: tmap2_tmap_left tmap2_tmap_right tmap2_tmap2_same)

lemma compute_policy_loss_clipfrac:
  assumes "compute_policy_loss olp lp adv m (Some c) None None mode sc = Inr (l, f, k)"
  shows "masked_mean (tmap2 (\<lambda>a r. gt_float (- a * clamp r (1 - c) (1 + c)) (- a * r))
                        adv (tmap exp (tmap2 (-) lp olp))) m = Inr f"
proof -
  have cb: "clip_bounds (or_default None (Some c)) (or_default None (Some c))
              = Inr (1 - c, 1 + c)"
    by (simp add: clip_bounds_def or_default_def)
  from assms have "\<exists>ppo_kl pg_loss x.
      masked_mean (tmap2 (\<lambda>a r. gt_float (- a * clamp r (1 - c) (1 + c)) (- a * r))
                        adv (tmap exp (tmap2 (-) lp olp))) m = Inr x
      \<and> (Inr (pg_loss, x, ppo_kl) :: error + real \<times> real \<times> real) = Inr (l, f, k)"
    unfolding compute_policy_loss_def Let_def cb ebind_simps prod.case clip_indicator
      ebind_eq_Inr
    by blast
  then show ?thesis by simp
qed

text \<open>
  C6: for fixed log-probabilities, advantages and a mask without negative entries, the
  clip fraction reported by \<open>compute_policy_loss\<close> does not decrease when the shared clip
  range shrinks: if \<open>0 < c' \<le> c\<close> then the clip fraction for \<open>c'\<close> is at least the one for
  \<open>c\<close>.
\<close>

theorem clipfrac_monotone:
  assumes "\<forall>row \<in> set m. \<forall>x \<in> set row. 0 \<le> x"
      and "0 < c'" and "c' \<le> c"
      and "compute_policy_loss olp lp adv m (Some c) None None mode sc = Inr (l, f, k)"
      and "compute_policy_loss olp lp adv m (Some c') None None mode sc = Inr (l', f', k')"
  shows "f \<le> f'"
proof -
  let ?R = "tmap exp (tmap2 (-) lp olp)"
  let ?G = "\<lambda>c. tmap2 (\<lambda>a r. gt_float (- a * clamp r (1 - c) (1 + c)) (- a * r)) adv ?R"
  have c0: "0 \<le> c'" using assms(2) by simp
  have "list_all2 (list_all2 (\<le>)) (?G c) (?G c')"
    by (rule tmap2_pointwise_le) (rule gt_float_clip_mono [OF c0 assms(3)])
  then show ?thesis
    using assms(1) compute_policy_loss_clipfrac [OF assms(4)]
          compute_policy_loss_clipfrac [OF assms(5)]
    by (rule masked_mean_mono)
qed

lemma bop_single: "bop f [[a]] [[b]] = Inr [[f a b]]"
  by (simp add: bop_def bdim_def nrows_def ncols_def expand_def expand_list_def tmap2_def)

lemma masked_mean_single: "masked_mean [[v]] [[1]] = Inr v"
  by (simp add: masked_mean_def bop_single ebind_def tsum_def)

lemma agg_loss_single: "agg_loss [[v]] [[1]] ''token-mean'' sc eps = Inr v"
  by (simp add: agg_loss_def masked_mean_single)

lemma compute_policy_loss_single:
  "compute_policy_loss [[0]] [[ln 2]] [[1]] [[1]] (Some c) None None ''token-mean'' 1
   = Inr (max (- 2) (- clamp 2 (1 - c) (1 + c)),
          gt_float (- clamp 2 (1 - c) (1 + c)) (- 2), - ln 2)"
  by (simp add: compute_policy_loss_def Let_def tmap_def tmap2_def masked_mean_single
        agg_loss_single ebind_simps or_default_simps clip_bounds_def)

theorem clipfrac_monotone_witness:
  "compute_policy_loss [[0]] [[ln 2]] [[1]] [[1]] (Some 2) None None ''token-mean'' 1
     = Inr (- 2, 0, - ln 2)
   \<and> compute_policy_loss [[0]] [[ln 2]] [[1]] [[1]] (Some (1 / 2)) None None ''token-mean'' 1
     = Inr (- 3 / 2, 1, - ln 2)
   \<and> (0 :: real) \<le> 1"
proof -
  have e1: "compute_policy_loss [[0]] [[ln 2]] [[1]] [[1]] (Some 2) None None ''token-mean'' 1
     = Inr (- 2, 0, - ln 2)"
    unfolding compute_policy_loss_single by (simp add: clamp_def gt_float_def)
  have e2: "compute_policy_loss [[0]] [[ln 2]] [[1]] [[1]] (Some (1 / 2)) None None
              ''token-mean'' 1 = Inr (- 3 / 2, 1, - ln 2)"
    unfolding compute_policy_loss_single by (simp add: clamp_def gt_float_def)
  have m: "\<forall>row \<in> set [[1 :: real]]. \<forall>x \<in> set row. 0 \<le> x" by simp
  have "(0 :: real) \<le> 1"
    using m _ _ e1 e2 by (rule clipfrac_monotone) simp_all
  then show ?thesis using e1 e2 by blast
qed

section \<open>Properties of generalized advantage estimation\<close>

lemma gae_loop_Suc:
  "gae_loop R V g l T (Suc t) lg acc =
     gae_loop R V g l T t (gae_step R V g l T t lg) (acc @ [gae_step R V g l T t lg])"
  by (simp add: Let_def)

lemma gae_loop_length: "length (gae_loop R V g l T n lg acc) = length acc + n"
  by (induction n arbitrary: lg acc) (simp_all only: gae_loop.simps(1) gae_loop_Suc length_append, simp_all)

lemma gae_loop_prefix:
  "j < length acc \<Longrightarrow> gae_loop R V g l T n lg acc ! j = acc ! j"
proof (induction n arbitrary: lg acc)
  case 0
  show ?case by simp
next
  case (Suc n)
  have "gae_loop R V g l T n (gae_step R V g l T n lg) (acc @ [gae_step R V g l T n lg]) ! j
        = (acc @ [gae_step R V g l T n lg]) ! j"
    using Suc.prems by (intro Suc.IH) simp
  then show ?case
    using Suc.prems by (simp only: gae_loop_Suc nth_append if_True)
qed

lemma gae_loop_nth:
  "k < n \<Longrightarrow>
   gae_loop R V g l T n lg acc ! (length acc + k) =
     gae_step R V g l T (n - 1 - k)
       (if k = 0 then lg else gae_loop R V g l T n lg acc ! (length acc + k - 1))"
proof (induction n arbitrary: lg acc k)
  case 0
  then show ?case by simp
next
  case (Suc n)
  let ?lg = "gae_step R V g l T n lg"
  let ?acc = "acc @ [?lg]"
  let ?res = "gae_loop R V g l T n ?lg ?acc"
  have res: "gae_loop R V g l T (Suc n) lg acc = ?res"
    by (rule gae_loop_Suc)
  have at_len: "?res ! length acc = ?lg"
    using gae_loop_prefix [of "length acc" ?acc R V g l T n ?lg] by simp
  show ?case
  proof (cases k)
    case 0
    then show ?thesis unfolding res using at_len by simp
  next
    case (Suc k')
    then have k': "k' < n" using Suc.prems by simp
    have ih: "?res ! (length ?acc + k') =
        gae_step R V g l T (n - 1 - k')
          (if k' = 0 then ?lg else ?res ! (length ?acc + k' - 1))"
      using k' by (rule Suc.IH)
    have idx: "length ?acc + k' = length acc + k" using Suc by simp
    have t: "n - 1 - k' = Suc n - 1 - k" using Suc by simp
    have prev: "(if k' = 0 then ?lg else ?res ! (length ?acc + k' - 1))
                = ?res ! (length acc + k - 1)"
      using Suc at_len by (cases k') simp_all
    have "?res ! (length acc + k) = ?res ! (length ?acc + k')"
      by (simp only: idx)
    also have "\<dots> = gae_step R V g l T (n - 1 - k')
          (if k' = 0 then ?lg else ?res ! (length ?acc + k' - 1))"
      by (rule ih)
    also have "\<dots> = gae_step R V g l T (Suc n - 1 - k) (?res ! (length acc + k - 1))"
      by (simp only: t prev)
    finally show ?thesis
      unfolding res using Suc by simp
  qed
qed

lemma length_col: "length (col t A) = nrows A"
  by (simp add: col_def nrows_def)

lemma col_nth: "i < nrows A \<Longrightarrow> col t A ! i = A ! i ! t"
  by (simp add: col_def nrows_def)

lemma gae_step_length:
  "nrows R = bs \<Longrightarrow> nrows V = bs \<Longrightarrow> length prev = bs
   \<Longrightarrow> length (gae_step R V g l T t prev) = bs"
  by (simp add: gae_step_def Let_def length_col)

lemma gae_step_nth:
  assumes "nrows R = bs" and "nrows V = bs" and "length prev = bs" and "i < bs"
  shows "gae_step R V g l T t prev ! i =
           R ! i ! t + g * (if t < T - 1 then V ! i ! (t + 1) else 0) - V ! i ! t
           + g * l * prev ! i"
  using assms by (simp add: gae_step_def Let_def length_col col_nth)

lemma gae_loop_lengths:
  "nrows R = bs \<Longrightarrow> nrows V = bs \<Longrightarrow> length lg = bs \<Longrightarrow> \<forall>v \<in> set acc. length v = bs
   \<Longrightarrow> \<forall>v \<in> set (gae_loop R V g l T n lg acc). length v = bs"
proof (induction n arbitrary: lg acc)
  case 0
  then show ?case by simp
next
  case (Suc n)
  have len: "length (gae_step R V g l T n lg) = bs"
    using Suc.prems(1-3) by (rule gae_step_length)
  have "\<forall>v \<in> set (acc @ [gae_step R V g l T n lg]). length v = bs"
    using Suc.prems(4) len by simp
  with Suc.prems(1,2) len
  have "\<forall>v \<in> set (gae_loop R V g l T n (gae_step R V g l T n lg)
                     (acc @ [gae_step R V g l T n lg])). length v = bs"
    by (rule Suc.IH)
  then show ?case by (simp only: gae_loop_Suc)
qed

lemma stack_dim1_Inr:
  assumes "cols \<noteq> []" and "\<forall>v \<in> set cols. length v = bs"
  shows "stack_dim1 cols = Inr (map (\<lambda>i. map (\<lambda>v. v ! i) cols) [0..<bs])"
  using assms by (cases cols) (simp_all add: stack_dim1_def)

lemma gae_advantages_entries:
  fixes R V :: tensor and g l :: real
  assumes bsV: "nrows V = nrows R" and T0: "0 < ncols R"
  defines "A \<equiv> map (\<lambda>i. map (\<lambda>v. v ! i)
                    (rev (gae_loop R V g l (ncols R) (ncols R) (replicate (nrows R) 0) [])))
                  [0..<nrows R]"
  shows "gae_advantages R V g l = Inr A"
    and "nrows A = nrows R"
    and "i < nrows R \<Longrightarrow> length (A ! i) = ncols R"
    and "i < nrows R \<Longrightarrow> t < ncols R \<Longrightarrow>
         A ! i ! t = R ! i ! t + g * (if t + 1 < ncols R then V ! i ! (t + 1) else 0) - V ! i ! t
                     + g * l * (if t + 1 < ncols R then A ! i ! (t + 1) else 0)"
proof -
  let ?T = "ncols R" and ?bs = "nrows R"
  let ?res = "gae_loop R V g l ?T ?T (replicate ?bs 0) []"
  let ?cols = "rev ?res"
  have len: "length ?res = ?T"
    by (simp add: gae_loop_length)
  have lens: "\<forall>v \<in> set ?res. length v = ?bs"
    by (rule gae_loop_lengths) (simp_all add: bsV)
  have ne: "?cols \<noteq> []"
    using len T0 by auto
  have "stack_dim1 ?cols = Inr A"
    unfolding A_def using ne lens by (intro stack_dim1_Inr) simp_all
  then show "gae_advantages R V g l = Inr A"
    by (simp add: gae_advantages_def Let_def)
  show "nrows A = nrows R"
    by (simp add: A_def nrows_def)
  have entry: "A ! i ! t = ?cols ! t ! i" if "i < ?bs" "t < ?T" for i t
    using that len by (simp add: A_def)
  show "length (A ! i) = ncols R" if "i < nrows R"
    using that len by (simp add: A_def)
  show "A ! i ! t = R ! i ! t + g * (if t + 1 < ncols R then V ! i ! (t + 1) else 0) - V ! i ! t
                     + g * l * (if t + 1 < ncols R then A ! i ! (t + 1) else 0)"
    if i: "i < nrows R" and t: "t < ncols R"
  proof -
    let ?k = "?T - 1 - t"
    have k: "?k < ?T" using t by simp
    have colt: "?cols ! t = ?res ! ?k"
      using t len by (simp add: rev_nth)
    let ?prev = "if ?k = 0 then replicate ?bs 0 else ?res ! (?k - 1)"
    have step: "?res ! ?k = gae_step R V g l ?T (?T - 1 - ?k) ?prev"
      using gae_loop_nth [OF k, of R V g l ?T "replicate ?bs 0" "[]"] by simp
    have tk: "?T - 1 - ?k = t" using t by simp
    have prevlen: "length ?prev = ?bs"
    proof (cases "?k = 0")
      case True
      then show ?thesis by simp
    next
      case False
      then have "?k - 1 < length ?res" using len k by simp
      then have "?res ! (?k - 1) \<in> set ?res" by (rule nth_mem)
      with lens False show ?thesis by simp
    qed
    have previ: "?prev ! i = (if t + 1 < ?T then A ! i ! (t + 1) else 0)"
    proof (cases "t + 1 < ?T")
      case True
      then have k0: "?k \<noteq> 0" by simp
      have "?cols ! (t + 1) = ?res ! (?k - 1)"
        using True len by (simp add: rev_nth)
      then have "?res ! (?k - 1) ! i = A ! i ! (t + 1)"
        using entry [OF i True] by simp
      with True k0 show ?thesis by simp
    next
      case False
      then have "?k = 0" using t by simp
      with False i show ?thesis by simp
    qed
    have "A ! i ! t = gae_step R V g l ?T t ?prev ! i"
      using entry [OF i t] colt step tk by simp
    also have "\<dots> = R ! i ! t + g * (if t < ?T - 1 then V ! i ! (t + 1) else 0) - V ! i ! t
                     + g * l * ?prev ! i"
      using refl bsV prevlen i by (rule gae_step_nth)
    also have "(if t < ?T - 1 then V ! i ! (t + 1) else 0)
               = (if t + 1 < ?T then V ! i ! (t + 1) else 0)"
      by (simp add: less_diff_conv)
    finally show ?thesis
      unfolding previ .
  qed
qed

lemma masked_mean_same_shape:
  "rect A \<Longrightarrow> rect M \<Longrightarrow> nrows A = nrows M \<Longrightarrow> ncols A = ncols M
   \<Longrightarrow> masked_mean A M = Inr (tsum (tmap2 (*) A M) / tsum M)"
  by (simp add: masked_mean_def bop_same_shape ebind_simps)

lemma masked_whiten_same_shape:
  assumes "rect A" and "rect M" and "nrows A = nrows M" and "ncols A = ncols M"
  shows "\<exists>W. masked_whiten A M = Inr W"
proof -
  obtain mu where mu: "masked_mean A M = Inr mu"
    using assms by (simp add: masked_mean_same_shape)
  obtain var where var: "masked_mean (tmap (\<lambda>x. (x - mu)\<^sup>2) A) M = Inr var"
    using assms by (simp add: masked_mean_same_shape rect_tmap nrows_tmap ncols_tmap)
  show ?thesis
    unfolding masked_whiten_def mu var ebind_simps by blast
qed

lemma gae_example: "gae_advantages [[0, 0, 1]] [[0, 0, 0]] 1 1 = Inr [[1, 1, 1]]"
  by (simp add: gae_advantages_def Let_def ncols_def nrows_def gae_loop_Suc gae_step_def
        col_def stack_dim1_def)

text \<open>
  C4: for reward and value tensors of one shape with at least one column, the advantages
  before whitening satisfy the backward recurrence
  \<open>A\<^sub>t = R\<^sub>t + \<gamma> V\<^sub>t\<^sub>+\<^sub>1 - V\<^sub>t + \<gamma> \<lambda> A\<^sub>t\<^sub>+\<^sub>1\<close>, with \<open>V\<close> and \<open>A\<close> taken as 0 beyond the last column; the
  returned returns are these advantages plus the values, and whitening is applied to the
  returned advantages only. For rewards \<open>[[0,0,1]]\<close>, values \<open>[[0,0,0]]\<close>, mask \<open>[[1,1,1]]\<close> and
  \<open>\<gamma> = \<lambda> = 1\<close> the advantages before whitening and the returns are \<open>[[1,1,1]]\<close>.
\<close>

theorem gae_recurrence:
  fixes R V M :: tensor and g l :: real
  assumes "rect R" and "rect V" and "nrows V = nrows R" and "ncols V = ncols R"
      and "0 < ncols R"
  shows "(\<exists>A. gae_advantages R V g l = Inr A \<and> nrows A = nrows R
          \<and> (\<forall>i t. i < nrows R \<longrightarrow> t < ncols R \<longrightarrow>
                A ! i ! t = R ! i ! t + g * (if t + 1 < ncols R then V ! i ! (t + 1) else 0)
                            - V ! i ! t
                            + g * l * (if t + 1 < ncols R then A ! i ! (t + 1) else 0))
          \<and> compute_gae_advantage_return R V M g l
              = ebind (masked_whiten A M) (\<lambda>adv. Inr (adv, tmap2 (+) A V)))
       \<and> gae_advantages [[0, 0, 1]] [[0, 0, 0]] 1 1 = Inr [[1, 1, 1]]
       \<and> (\<exists>adv. compute_gae_advantage_return [[0, 0, 1]] [[0, 0, 0]] [[1, 1, 1]] 1 1
                  = Inr (adv, [[1, 1, 1]]))"
proof -
  let ?A = "map (\<lambda>i. map (\<lambda>v. v ! i)
                    (rev (gae_loop R V g l (ncols R) (ncols R) (replicate (nrows R) 0) [])))
                  [0..<nrows R]"
  note e = gae_advantages_entries [OF assms(3,5), where g = g and l = l]
  have a: "gae_advantages R V g l = Inr ?A" by (rule e(1))
  have b: "nrows ?A = nrows R" by (rule e(2))
  have c: "\<forall>i t. i < nrows R \<longrightarrow> t < ncols R \<longrightarrow>
                ?A ! i ! t = R ! i ! t + g * (if t + 1 < ncols R then V ! i ! (t + 1) else 0)
                            - V ! i ! t
                            + g * l * (if t + 1 < ncols R then ?A ! i ! (t + 1) else 0)"
    using e(4) by blast
  have d: "compute_gae_advantage_return R V M g l
              = ebind (masked_whiten ?A M) (\<lambda>adv. Inr (adv, tmap2 (+) ?A V))"
    unfolding compute_gae_advantage_return_def a ebind_simps Let_def ..
  have first: "\<exists>A. gae_advantages R V g l = Inr A \<and> nrows A = nrows R
          \<and> (\<forall>i t. i < nrows R \<longrightarrow> t < ncols R \<longrightarrow>
                A ! i ! t = R ! i ! t + g * (if t + 1 < ncols R then V ! i ! (t + 1) else 0)
                            - V ! i ! t
                            + g * l * (if t + 1 < ncols R then A ! i ! (t + 1) else 0))
          \<and> compute_gae_advantage_return R V M g l
              = ebind (masked_whiten A M) (\<lambda>adv. Inr (adv, tmap2 (+) A V))"
    using a b c d by (intro exI [of _ ?A] conjI)
  obtain W where W: "masked_whiten [[1, 1, 1]] [[1, 1, 1]] = Inr W"
    using masked_whiten_same_shape [of "[[1, 1, 1]]" "[[1, 1, 1]]"]
    by (auto simp: rect_def ncols_def nrows_def)
  have "compute_gae_advantage_return [[0, 0, 1]] [[0, 0, 0]] [[1, 1, 1]] 1 1
          = Inr (W, [[1, 1, 1]])"
    unfolding compute_gae_advantage_return_def gae_example ebind_simps Let_def W
    by (simp add: tmap2_def)
  then have ex: "\<exists>adv. compute_gae_advantage_return [[0, 0, 1]] [[0, 0, 0]] [[1, 1, 1]] 1 1
                  = Inr (adv, [[1, 1, 1]])" ..
  show ?thesis
    using first gae_example ex by (intro conjI)
qed

theorem gae_recurrence_witness:
  "\<exists>A. gae_advantages [[1, 2], [3, 4]] [[5, 6], [7, 8]] 1 1 = Inr A
       \<and> A ! 0 ! 1 = 2 - 6 \<and> A ! 0 ! 0 = 1 + 6 - 5 + A ! 0 ! 1
       \<and> A ! 1 ! 1 = 4 - 8 \<and> A ! 1 ! 0 = 3 + 8 - 7 + A ! 1 ! 1"
proof -
  have sh: "rect [[1, 2], [3, 4 :: real]]" "rect [[5, 6], [7, 8 :: real]]"
    "nrows [[5, 6], [7, 8 :: real]] = nrows [[1, 2], [3, 4 :: real]]"
    "ncols [[5, 6], [7, 8 :: real]] = ncols [[1, 2], [3, 4 :: real]]"
    "0 < ncols [[1, 2], [3, 4 :: real]]"
    by (simp_all add: rect_def ncols_def nrows_def)
  have n: "nrows [[1, 2], [3, 4 :: real]] = 2" "ncols [[1, 2], [3, 4 :: real]] = 2"
    by (simp_all add: ncols_def nrows_def)
  from gae_recurrence [OF sh, where M = "[[1, 1], [1, 1]]" and g = 1 and l = 1]
  obtain A where A: "gae_advantages [[1, 2], [3, 4]] [[5, 6], [7, 8]] 1 1 = Inr A"
    and rec: "\<forall>i t. i < 2 \<longrightarrow> t < 2 \<longrightarrow>
                A ! i ! t = [[1, 2], [3, 4]] ! i ! t
                   + 1 * (if t + 1 < 2 then [[5, 6], [7, 8]] ! i ! (t + 1) else 0)
                   - [[5, 6], [7, 8]] ! i ! t
                   + 1 * 1 * (if t + 1 < 2 then A ! i ! (t + 1) else 0)"
    unfolding n by blast
  have "A ! 0 ! 1 = 2 - 6" using rec [rule_format, of 0 1] by simp
  moreover have "A ! 0 ! 0 = 1 + 6 - 5 + A ! 0 ! 1" using rec [rule_format, of 0 0] by simp
  moreover have "A ! 1 ! 1 = 4 - 8" using rec [rule_format, of 1 1] by simp
  moreover have "A ! 1 ! 0 = 3 + 8 - 7 + A ! 1 ! 1" using rec [rule_format, of 1 0] by simp
  ultimately show ?thesis using A by blast
qed

section \<open>Properties of the response mask in the estimators\<close>

lemma tmap2_nth:
  "i < length (tmap2 f A B) \<Longrightarrow> t < length (tmap2 f A B ! i)
   \<Longrightarrow> tmap2 f A B ! i ! t = f (A ! i ! t) (B ! i ! t)"
  by (simp add: tmap2_def)

lemma masked_product_zero:
  assumes "i < length (tmap2 (*) W M)" and "t < length (tmap2 (*) W M ! i)"
      and "M ! i ! t = 0"
  shows "tmap2 (*) W M ! i ! t = 0"
  using tmap2_nth [OF assms(1,2)] assms(3) by simp

lemma length_cumsum_from: "length (cumsum_from a xs) = length xs"
  by (induction xs arbitrary: a) simp_all

lemma cumsum_from_nth:
  "k < length xs \<Longrightarrow> cumsum_from a xs ! k = a + sum_list (take (Suc k) xs)"
proof (induction xs arbitrary: a k)
  case Nil
  then show ?case by simp
next
  case (Cons x xs)
  show ?case
  proof (cases k)
    case 0
    then show ?thesis by simp
  next
    case (Suc j)
    then have "j < length xs" using Cons.prems by simp
    then have "cumsum_from (a + x) xs ! j = (a + x) + sum_list (take (Suc j) xs)"
      by (rule Cons.IH)
    then show ?thesis using Suc by simp
  qed
qed

lemma suffix_sums:
  assumes "t < length xs"
  shows "rev (cumsum (rev xs)) ! t = sum_list (drop t xs)"
proof -
  let ?n = "length xs"
  have "rev (cumsum (rev xs)) ! t = cumsum (rev xs) ! (?n - Suc t)"
    using assms by (simp add: rev_nth cumsum_def length_cumsum_from)
  also have "\<dots> = sum_list (take (Suc (?n - Suc t)) (rev xs))"
    using assms by (simp add: cumsum_def cumsum_from_nth)
  also have "Suc (?n - Suc t) = ?n - t"
    using assms by simp
  also have "take (?n - t) (rev xs) = rev (drop t xs)"
    using assms by (simp add: take_rev)
  finally show ?thesis by (simp add: sum_list_rev)
qed

lemma rect_nth: "rect A \<Longrightarrow> i < nrows A \<Longrightarrow> length (A ! i) = ncols A"
  by (simp add: rect_def nrows_def list_all_length)

lemma remax_entries:
  assumes "rect R" and "rect M" and "nrows M = nrows R" and "ncols M = ncols R"
      and "length b = nrows R" and i: "i < nrows R" and t: "t < ncols R"
  shows "snd (compute_remax_outcome_advantage R b M) ! i ! t
           = sum_list (drop t (map2 (*) (R ! i) (M ! i)))"
    and "fst (compute_remax_outcome_advantage R b M) ! i ! t
           = snd (compute_remax_outcome_advantage R b M) ! i ! t - b ! i * M ! i ! t"
proof -
  let ?T = "ncols R"
  let ?ret = "map (\<lambda>row. rev (cumsum (rev row))) (tmap2 (*) R M)"
  have lr: "length (R ! i) = ?T" using assms(1) i by (rule rect_nth)
  have lm: "length (M ! i) = ?T" using rect_nth [OF assms(2)] i assms(3,4) by simp
  have iR: "i < length R" "i < length M" "i < length b"
    using i assms(3,5) by (simp_all add: nrows_def)
  have snd_eq: "snd (compute_remax_outcome_advantage R b M) = ?ret"
    by (simp add: compute_remax_outcome_advantage_def Let_def)
  have reti: "?ret ! i = rev (cumsum (rev (map2 (*) (R ! i) (M ! i))))"
    using iR by (simp add: tmap2_def)
  have lenret: "length (?ret ! i) = ?T"
    unfolding reti using lr lm by (simp add: cumsum_def length_cumsum_from)
  show ret: "snd (compute_remax_outcome_advantage R b M) ! i ! t
           = sum_list (drop t (map2 (*) (R ! i) (M ! i)))"
    unfolding snd_eq reti using t lr lm by (intro suffix_sums) simp
  have fst_eq: "fst (compute_remax_outcome_advantage R b M)
        = tmap2 (-) ?ret (tmap2 (*) (map (replicate ?T) b) M)"
    by (simp add: compute_remax_outcome_advantage_def Let_def)
  have "fst (compute_remax_outcome_advantage R b M) ! i ! t
         = ?ret ! i ! t - (replicate ?T (b ! i) ! t) * M ! i ! t"
    unfolding fst_eq using iR t lr lm lenret
    by (simp add: tmap2_def cumsum_def length_cumsum_from)
  then show "fst (compute_remax_outcome_advantage R b M) ! i ! t
           = snd (compute_remax_outcome_advantage R b M) ! i ! t - b ! i * M ! i ! t"
    unfolding snd_eq using t by simp
qed

lemma remax_example:
  "compute_remax_outcome_advantage [[0, 0, 1]] [0] [[1, 0, 1]] = ([[1, 1, 1]], [[1, 1, 1]])"
  by (simp add: compute_remax_outcome_advantage_def Let_def tmap2_def cumsum_def ncols_def)

lemma grpo_example:
  "compute_grpo_outcome_advantage [[0, r]] [[1, 0]] [0 :: nat] 0 False ''none'' 1
     = Inr ([[r, 0]], [[r, 0]])"
  by (simp add: compute_grpo_outcome_advantage_def grpo_scores_def Let_def build_id2score_def
        ebind_def broadcast_scores_def tmap2_def ncols_def)

lemma rloo_example:
  "compute_rloo_outcome_advantage [[0, r]] [[1, 0]] [0 :: nat] = Inr ([[r, 0]], [[r, 0]])"
  by (simp add: compute_rloo_outcome_advantage_def rloo_scores_def Let_def build_id2score_def
        ebind_def broadcast_scores_def tmap2_def ncols_def get_scores_def)

lemma rpp_example:
  "compute_reinforce_plus_plus_outcome_advantage [[1, 0], [3, 0]] [[1, 0], [1, 0]] 1
     = Inr ([[- 1, 0], [1, 0]], [[1, 0], [3, 0]])"
proof -
  have two: "ncols [[1, 0], [3, 0 :: real]] = Suc (Suc 0)" "nrows [[1, 0], [3, 0 :: real]] = Suc (Suc 0)"
    by (simp_all add: ncols_def nrows_def)
  have ret: "rpp_loop [[1, 0], [3, 0]] [[1, 0], [1, 0]] 1 (Suc (Suc 0)) (replicate (Suc (Suc 0)) 0)
               (tmap (\<lambda>_. 0) [[1, 0], [3, 0]]) = [[1, 0], [3, 0]]"
    by (simp add: Let_def col_def set_col_def tmap_def)
  have sh: "rect [[1, 0], [3, 0 :: real]]" "rect [[1, 0], [1, 0 :: real]]"
    "nrows [[1, 0], [3, 0 :: real]] = nrows [[1, 0], [1, 0 :: real]]"
    "ncols [[1, 0], [3, 0 :: real]] = ncols [[1, 0], [1, 0 :: real]]"
    by (simp_all add: rect_def ncols_def nrows_def)
  have mu: "masked_mean [[1, 0], [3, 0]] [[1, 0], [1, 0]] = Inr 2"
    by (simp add: masked_mean_same_shape [OF sh] tmap2_def tsum_def)
  have sh2: "rect [[1, 4], [1, 4 :: real]]"
    "nrows [[1, 4], [1, 4 :: real]] = nrows [[1, 0], [1, 0 :: real]]"
    "ncols [[1, 4], [1, 4 :: real]] = ncols [[1, 0], [1, 0 :: real]]"
    by (simp_all add: rect_def ncols_def nrows_def)
  have var: "masked_mean [[1, 4], [1, 4]] [[1, 0], [1, 0]] = Inr 1"
    by (simp add: masked_mean_same_shape [OF sh2(1) sh(2) sh2(2,3)] tmap2_def tsum_def)
  have w: "masked_whiten [[1, 0], [3, 0]] [[1, 0], [1, 0]] = Inr [[- 1, - 2], [1, - 2]]"
    by (simp add: masked_whiten_def mu ebind_simps tmap_def var)
  show ?thesis
    unfolding compute_reinforce_plus_plus_outcome_advantage_def two ret Let_def w ebind_simps
    by (simp add: tmap2_def)
qed

lemma grpo_outputs:
  assumes "compute_grpo_outcome_advantage R M index eps nstd nimp sc = Inr (adv, ret)"
  shows "\<exists>scores. adv = tmap2 (*) (map (replicate (ncols R)) scores) M \<and> ret = adv"
  using assms
  unfolding compute_grpo_outcome_advantage_def Let_def ebind_eq_Inr broadcast_scores_def
  by auto

lemma rloo_outputs:
  assumes "compute_rloo_outcome_advantage R M index = Inr (adv, ret)"
  shows "\<exists>scores. adv = tmap2 (*) (map (replicate (ncols R)) scores) M \<and> ret = adv"
  using assms
  unfolding compute_rloo_outcome_advantage_def Let_def ebind_eq_Inr broadcast_scores_def
  by auto

lemma rpp_outputs:
  assumes "compute_reinforce_plus_plus_outcome_advantage R M g = Inr (adv, ret)"
  shows "\<exists>W. adv = tmap2 (*) W M"
  using assms
  unfolding compute_reinforce_plus_plus_outcome_advantage_def Let_def ebind_eq_Inr
  by auto

lemma set_col_length: "length A = bs \<Longrightarrow> length v = bs \<Longrightarrow> length (set_col t v A) = bs"
  by (simp add: set_col_def)

lemma set_col_row:
  "length A = bs \<Longrightarrow> length v = bs \<Longrightarrow> i < bs \<Longrightarrow> set_col t v A ! i = (A ! i)[t := v ! i]"
  by (simp add: set_col_def)

lemma rpp_run_nth:
  assumes "length R = bs" and "length run = bs" and "i < bs"
  shows "map2 (+) (col t R) (map (\<lambda>r. g * r) run) ! i = R ! i ! t + g * run ! i"
  using assms by (simp add: col_def)

lemma rpp_coupled:
  assumes R: "length R = bs" and R': "length R' = bs"
      and M: "length M = bs" "\<forall>i<bs. length (M ! i) = T"
      and agree: "\<forall>i<bs. \<forall>s<T. M ! i ! s \<noteq> 0 \<longrightarrow> R' ! i ! s = R ! i ! s"
      and n: "n \<le> T"
      and run: "length run = bs"
      and ret: "length ret = bs" "\<forall>i<bs. length (ret ! i) = T"
      and ret': "length ret' = bs" "\<forall>i<bs. length (ret' ! i) = T"
      and agree_ret: "\<forall>i<bs. \<forall>s<T. M ! i ! s \<noteq> 0 \<longrightarrow> ret' ! i ! s = ret ! i ! s"
  shows "length (rpp_loop R M g n run ret) = bs
       \<and> (\<forall>i<bs. length (rpp_loop R M g n run ret ! i) = T)
       \<and> length (rpp_loop R' M g n run ret') = bs
       \<and> (\<forall>i<bs. length (rpp_loop R' M g n run ret' ! i) = T)
       \<and> (\<forall>i<bs. \<forall>s<T. M ! i ! s \<noteq> 0 \<longrightarrow>
             rpp_loop R' M g n run ret' ! i ! s = rpp_loop R M g n run ret ! i ! s)"
  using n run ret ret' agree_ret
proof (induction n arbitrary: run ret ret')
  case 0
  then show ?case by simp
next
  case (Suc n)
  let ?r1 = "map2 (+) (col n R) (map (\<lambda>r. g * r) run)"
  let ?r1' = "map2 (+) (col n R') (map (\<lambda>r. g * r) run)"
  let ?ret1 = "set_col n ?r1 ret"
  let ?ret1' = "set_col n ?r1' ret'"
  let ?r2 = "map2 (*) ?r1 (col n M)"
  let ?r2' = "map2 (*) ?r1' (col n M)"
  have nT: "n < T" using Suc.prems(1) by simp
  have l1: "length ?r1 = bs" "length ?r1' = bs"
    using R R' Suc.prems(2) by (simp_all add: col_def)
  have v1: "?r1 ! i = R ! i ! n + g * run ! i" if "i < bs" for i
    using R Suc.prems(2) that by (rule rpp_run_nth)
  have v1': "?r1' ! i = R' ! i ! n + g * run ! i" if "i < bs" for i
    using R' Suc.prems(2) that by (rule rpp_run_nth)
  have same: "?r1' ! i = ?r1 ! i" if "i < bs" "M ! i ! n \<noteq> 0" for i
    using that v1 v1' agree nT by simp
  have r2: "?r2' = ?r2"
  proof (rule nth_equalityI)
    show "length ?r2' = length ?r2" using l1 by simp
    fix i assume "i < length ?r2'"
    then have i: "i < bs" using l1 M(1) by (simp add: col_def)
    show "?r2' ! i = ?r2 ! i"
    proof (cases "M ! i ! n = 0")
      case True
      then show ?thesis using i l1 M(1) by (simp add: col_def)
    next
      case False
      then show ?thesis using i l1 M(1) same [OF i False] by (simp add: col_def)
    qed
  qed
  have len1: "length ?ret1 = bs" "length ?ret1' = bs"
    using Suc.prems(3,5) l1 by (simp_all add: set_col_length)
  have row1: "?ret1 ! i = (ret ! i)[n := ?r1 ! i]" if "i < bs" for i
    using Suc.prems(3) l1(1) that by (rule set_col_row)
  have row1': "?ret1' ! i = (ret' ! i)[n := ?r1' ! i]" if "i < bs" for i
    using Suc.prems(5) l1(2) that by (rule set_col_row)
  have rows1: "\<forall>i<bs. length (?ret1 ! i) = T" "\<forall>i<bs. length (?ret1' ! i) = T"
    using row1 row1' Suc.prems(4,6) by simp_all
  have agree1: "\<forall>i<bs. \<forall>s<T. M ! i ! s \<noteq> 0 \<longrightarrow> ?ret1' ! i ! s = ?ret1 ! i ! s"
  proof (intro allI impI)
    fix i s assume i: "i < bs" and s: "s < T" and ms: "M ! i ! s \<noteq> 0"
    show "?ret1' ! i ! s = ?ret1 ! i ! s"
    proof (cases "s = n")
      case True
      then show ?thesis
        using i s ms same [OF i] Suc.prems(4,6) by (simp add: row1 row1')
    next
      case False
      then show ?thesis
        using i s ms Suc.prems(4,6,7) by (simp add: row1 row1')
    qed
  qed
  have nle: "n \<le> T" using nT by simp
  have l2: "length ?r2 = bs" using l1 M(1) by (simp add: col_def)
  have ih: "length (rpp_loop R M g n ?r2 ?ret1) = bs
       \<and> (\<forall>i<bs. length (rpp_loop R M g n ?r2 ?ret1 ! i) = T)
       \<and> length (rpp_loop R' M g n ?r2 ?ret1') = bs
       \<and> (\<forall>i<bs. length (rpp_loop R' M g n ?r2 ?ret1' ! i) = T)
       \<and> (\<forall>i<bs. \<forall>s<T. M ! i ! s \<noteq> 0 \<longrightarrow>
             rpp_loop R' M g n ?r2 ?ret1' ! i ! s = rpp_loop R M g n ?r2 ?ret1 ! i ! s)"
    using nle l2 len1(1) rows1(1) len1(2) rows1(2) agree1 by (rule Suc.IH)
  have e: "rpp_loop R M g (Suc n) run ret = rpp_loop R M g n ?r2 ?ret1"
    by (simp add: Let_def)
  have e': "rpp_loop R' M g (Suc n) run ret' = rpp_loop R' M g n ?r2 ?ret1'"
    by (simp add: Let_def r2)
  show ?case unfolding e e' by (rule ih)
qed

lemma shape_rect:
  assumes "length A = bs" and "\<forall>i<bs. length (A ! i) = T"
  shows "rect A" and "nrows A = bs" and "0 < bs \<Longrightarrow> ncols A = T" and "bs = 0 \<Longrightarrow> ncols A = 0"
proof -
  show n: "nrows A = bs" using assms(1) by (simp add: nrows_def)
  show c: "ncols A = T" if pos: "0 < bs"
  proof -
    obtain r rs where A: "A = r # rs" using pos assms(1) by (cases A) auto
    have "length (A ! 0) = T" using assms(2) pos by simp
    then show ?thesis using A by (simp add: ncols_def)
  qed
  show z: "ncols A = 0" if "bs = 0" using that assms(1) by (simp add: ncols_def)
  show "rect A"
  proof (cases "bs = 0")
    case True
    then show ?thesis using assms(1) by (simp add: rect_def)
  next
    case False
    then have "ncols A = T" using c by simp
    then show ?thesis using assms by (simp add: rect_def list_all_length)
  qed
qed

lemma shape_same:
  assumes "length A = bs" and "\<forall>i<bs. length (A ! i) = T"
      and "length M = bs" and "\<forall>i<bs. length (M ! i) = T"
  shows "rect A" and "rect M" and "nrows A = nrows M" and "ncols A = ncols M"
proof -
  show "rect A" using assms(1,2) by (rule shape_rect(1))
  show "rect M" using assms(3,4) by (rule shape_rect(1))
  show "nrows A = nrows M" using assms(1,3) by (simp add: nrows_def)
  show "ncols A = ncols M"
  proof (cases "bs = 0")
    case True
    then show ?thesis using assms(1,3) by (simp add: ncols_def)
  next
    case False
    then have b: "0 < bs" by simp
    show ?thesis
      using shape_rect(3) [OF assms(1,2) b] shape_rect(3) [OF assms(3,4) b] by simp
  qed
qed

lemma masked_product_agree:
  fixes F F' M :: tensor
  assumes F: "length F = bs" "\<forall>i<bs. length (F ! i) = T"
      and F': "length F' = bs" "\<forall>i<bs. length (F' ! i) = T"
      and M: "length M = bs" "\<forall>i<bs. length (M ! i) = T"
      and agree: "\<forall>i<bs. \<forall>s<T. M ! i ! s \<noteq> 0 \<longrightarrow> F' ! i ! s = F ! i ! s"
  shows "tmap2 (*) (tmap f F') M = tmap2 (*) (tmap f F) M"
proof (rule nth_equalityI)
  show "length (tmap2 (*) (tmap f F') M) = length (tmap2 (*) (tmap f F) M)"
    using F(1) F'(1) M(1) by (simp add: tmap2_def tmap_def)
next
  fix i assume "i < length (tmap2 (*) (tmap f F') M)"
  then have i: "i < bs" using F'(1) M(1) by (simp add: tmap2_def tmap_def)
  have rows: "length (F ! i) = T" "length (F' ! i) = T" "length (M ! i) = T"
    using i F(2) F'(2) M(2) by simp_all
  have "map2 (*) (map f (F' ! i)) (M ! i) = map2 (*) (map f (F ! i)) (M ! i)"
  proof (rule nth_equalityI)
    show "length (map2 (*) (map f (F' ! i)) (M ! i)) = length (map2 (*) (map f (F ! i)) (M ! i))"
      using rows by simp
  next
    fix s assume "s < length (map2 (*) (map f (F' ! i)) (M ! i))"
    then have s: "s < T" using rows by simp
    show "map2 (*) (map f (F' ! i)) (M ! i) ! s = map2 (*) (map f (F ! i)) (M ! i) ! s"
    proof (cases "M ! i ! s = 0")
      case True
      then show ?thesis using s rows by simp
    next
      case False
      then have "F' ! i ! s = F ! i ! s" using agree i s by simp
      then show ?thesis using s rows by simp
    qed
  qed
  then show "tmap2 (*) (tmap f F') M ! i = tmap2 (*) (tmap f F) M ! i"
    using i F(1) F'(1) M(1) by (simp add: tmap2_def tmap_def)
qed

lemma tmap_shape:
  assumes "length F = bs" and "\<forall>i<bs. length (F ! i) = T"
  shows "length (tmap f F) = bs" and "\<forall>i<bs. length (tmap f F ! i) = T"
  using assms by (simp_all add: tmap_def)

lemma masked_mean_agree:
  fixes F F' M :: tensor
  assumes F: "length F = bs" "\<forall>i<bs. length (F ! i) = T"
      and F': "length F' = bs" "\<forall>i<bs. length (F' ! i) = T"
      and M: "length M = bs" "\<forall>i<bs. length (M ! i) = T"
      and agree: "\<forall>i<bs. \<forall>s<T. M ! i ! s \<noteq> 0 \<longrightarrow> F' ! i ! s = F ! i ! s"
  shows "masked_mean (tmap f F') M = Inr (tsum (tmap2 (*) (tmap f F) M) / tsum M)"
    and "masked_mean (tmap f F) M = Inr (tsum (tmap2 (*) (tmap f F) M) / tsum M)"
proof -
  note sF = tmap_shape [OF F, of f] and sF' = tmap_shape [OF F', of f]
  have "masked_mean (tmap f F') M = Inr (tsum (tmap2 (*) (tmap f F') M) / tsum M)"
    using shape_same [OF sF' M] by (rule masked_mean_same_shape)
  then show "masked_mean (tmap f F') M = Inr (tsum (tmap2 (*) (tmap f F) M) / tsum M)"
    unfolding masked_product_agree [OF F F' M agree, of f] .
  show "masked_mean (tmap f F) M = Inr (tsum (tmap2 (*) (tmap f F) M) / tsum M)"
    using shape_same [OF sF M] by (rule masked_mean_same_shape)
qed

lemma tmap_ident: "tmap (\<lambda>x. x) F = F"
  by (simp add: tmap_def)

lemma masked_whiten_agree:
  fixes F F' M :: tensor
  assumes F: "length F = bs" "\<forall>i<bs. length (F ! i) = T"
      and F': "length F' = bs" "\<forall>i<bs. length (F' ! i) = T"
      and M: "length M = bs" "\<forall>i<bs. length (M ! i) = T"
      and agree: "\<forall>i<bs. \<forall>s<T. M ! i ! s \<noteq> 0 \<longrightarrow> F' ! i ! s = F ! i ! s"
  shows "\<exists>mu var. masked_mean F M = Inr mu \<and> masked_mean F' M = Inr mu
           \<and> masked_mean (tmap (\<lambda>x. (x - mu)\<^sup>2) F) M = Inr var
           \<and> masked_mean (tmap (\<lambda>x. (x - mu)\<^sup>2) F') M = Inr var
           \<and> masked_whiten F M = Inr (tmap (\<lambda>x. (x - mu) / sqrt var) F)
           \<and> masked_whiten F' M = Inr (tmap (\<lambda>x. (x - mu) / sqrt var) F')"
proof -
  define mu where "mu = tsum (tmap2 (*) F M) / tsum M"
  define var where "var = tsum (tmap2 (*) (tmap (\<lambda>x. (x - mu)\<^sup>2) F) M) / tsum M"
  have m: "masked_mean F M = Inr mu" "masked_mean F' M = Inr mu"
    using masked_mean_agree [OF F F' M agree, of "\<lambda>x. x"] unfolding tmap_ident mu_def
    by simp_all
  have v: "masked_mean (tmap (\<lambda>x. (x - mu)\<^sup>2) F) M = Inr var"
          "masked_mean (tmap (\<lambda>x. (x - mu)\<^sup>2) F') M = Inr var"
    using masked_mean_agree [OF F F' M agree, of "\<lambda>x. (x - mu)\<^sup>2"] unfolding var_def
    by simp_all
  have w: "masked_whiten F M = Inr (tmap (\<lambda>x. (x - mu) / sqrt var) F)"
    unfolding masked_whiten_def m v ebind_simps ..
  have w': "masked_whiten F' M = Inr (tmap (\<lambda>x. (x - mu) / sqrt var) F')"
    unfolding masked_whiten_def m v ebind_simps ..
  show ?thesis using m v w w' by blast
qed

lemma rect_shape:
  assumes "rect A" and "nrows A = bs" and "ncols A = T"
  shows "length A = bs" and "\<forall>i<bs. length (A ! i) = T"
  using assms rect_nth [OF assms(1)] by (simp_all add: nrows_def)

lemma rpp_masked_rewards:
  fixes R R' M :: tensor
  assumes sh: "rect R" "rect R'" "rect M" "nrows R' = nrows R" "ncols R' = ncols R"
              "nrows M = nrows R" "ncols M = ncols R"
      and agree: "\<forall>i<nrows R. \<forall>s<ncols R. M ! i ! s \<noteq> 0 \<longrightarrow> R' ! i ! s = R ! i ! s"
  shows "\<exists>adv ret ret' mu.
           compute_reinforce_plus_plus_outcome_advantage R M g = Inr (adv, ret)
         \<and> compute_reinforce_plus_plus_outcome_advantage R' M g = Inr (adv, ret')
         \<and> masked_mean ret M = Inr mu \<and> masked_mean ret' M = Inr mu
         \<and> masked_mean (tmap (\<lambda>x. (x - mu)\<^sup>2) ret') M
             = masked_mean (tmap (\<lambda>x. (x - mu)\<^sup>2) ret) M"
proof -
  define bs where "bs = nrows R"
  define T where "T = ncols R"
  define F where "F = rpp_loop R M g T (replicate bs 0) (tmap (\<lambda>_. 0) R)"
  define F' where "F' = rpp_loop R' M g T (replicate bs 0) (tmap (\<lambda>_. 0) R')"
  note sR = rect_shape [OF sh(1) bs_def [symmetric] T_def [symmetric]]
  have "nrows R' = bs" "ncols R' = T" "nrows M = bs" "ncols M = T"
    using sh by (simp_all add: bs_def T_def)
  note sR' = rect_shape [OF sh(2) this(1,2)]
  note sM = rect_shape [OF sh(3) \<open>nrows M = bs\<close> \<open>ncols M = T\<close>]
  note z = tmap_shape [OF sR, of "\<lambda>_. 0"] and z' = tmap_shape [OF sR', of "\<lambda>_. 0"]
  have zz: "\<forall>i<bs. \<forall>s<T. M ! i ! s \<noteq> 0 \<longrightarrow>
              tmap (\<lambda>_. 0) R' ! i ! s = tmap (\<lambda>_. 0 :: real) R ! i ! s"
    using sR sR' by (simp add: tmap_def)
  have ag: "\<forall>i<bs. \<forall>s<T. M ! i ! s \<noteq> 0 \<longrightarrow> R' ! i ! s = R ! i ! s"
    using agree by (simp add: bs_def T_def)
  have cp: "length F = bs \<and> (\<forall>i<bs. length (F ! i) = T)
       \<and> length F' = bs \<and> (\<forall>i<bs. length (F' ! i) = T)
       \<and> (\<forall>i<bs. \<forall>s<T. M ! i ! s \<noteq> 0 \<longrightarrow> F' ! i ! s = F ! i ! s)"
    unfolding F_def F'_def
    by (rule rpp_coupled [OF sR(1) sR'(1) sM ag order_refl length_replicate z z' zz])
  then have sF: "length F = bs" "\<forall>i<bs. length (F ! i) = T"
    and sF': "length F' = bs" "\<forall>i<bs. length (F' ! i) = T"
    and agF: "\<forall>i<bs. \<forall>s<T. M ! i ! s \<noteq> 0 \<longrightarrow> F' ! i ! s = F ! i ! s"
    by simp_all
  from masked_whiten_agree [OF sF sF' sM agF] obtain mu var
    where m: "masked_mean F M = Inr mu" "masked_mean F' M = Inr mu"
      and v: "masked_mean (tmap (\<lambda>x. (x - mu)\<^sup>2) F) M = Inr var"
             "masked_mean (tmap (\<lambda>x. (x - mu)\<^sup>2) F') M = Inr var"
      and w: "masked_whiten F M = Inr (tmap (\<lambda>x. (x - mu) / sqrt var) F)"
             "masked_whiten F' M = Inr (tmap (\<lambda>x. (x - mu) / sqrt var) F')"
    by blast
  let ?adv = "tmap2 (*) (tmap (\<lambda>x. (x - mu) / sqrt var) F) M"
  have c: "compute_reinforce_plus_plus_outcome_advantage R M g = Inr (?adv, F)"
    unfolding compute_reinforce_plus_plus_outcome_advantage_def Let_def
      bs_def [symmetric] T_def [symmetric] F_def [symmetric] w ebind_simps ..
  have "compute_reinforce_plus_plus_outcome_advantage R' M g
          = Inr (tmap2 (*) (tmap (\<lambda>x. (x - mu) / sqrt var) F') M, F')"
    unfolding compute_reinforce_plus_plus_outcome_advantage_def Let_def
      \<open>nrows R' = bs\<close> \<open>ncols R' = T\<close> F'_def [symmetric] w ebind_simps ..
  then have c': "compute_reinforce_plus_plus_outcome_advantage R' M g = Inr (?adv, F')"
    unfolding masked_product_agree [OF sF sF' sM agF] .
  show ?thesis using c c' m v by auto
qed

lemma gae_masked_example:
  "gae_advantages [[0, 5], [1, 0]] [[0, 0], [0, 0]] 1 1 = Inr [[5, 5], [1, 0]]"
  by (simp add: gae_advantages_def Let_def ncols_def nrows_def gae_loop_Suc gae_step_def
        col_def stack_dim1_def)

lemma gae_masked_example0:
  "gae_advantages [[0, 0], [1, 0]] [[0, 0], [0, 0]] 1 1 = Inr [[0, 0], [1, 0]]"
  by (simp add: gae_advantages_def Let_def ncols_def nrows_def gae_loop_Suc gae_step_def
        col_def stack_dim1_def)

lemma shape22:
  "rect [[a, b], [c, d :: real]]"
  "nrows [[a, b], [c, d :: real]] = nrows [[a', b'], [c', d' :: real]]"
  "ncols [[a, b], [c, d :: real]] = ncols [[a', b'], [c', d' :: real]]"
  by (simp_all add: rect_def ncols_def nrows_def)

lemma masked_mean22:
  "masked_mean [[a, b], [c, d]] [[1, 0], [1, 0]] = Inr ((a + c) / 2)"
  by (simp add: masked_mean_same_shape [OF shape22(1) shape22] tmap2_def tsum_def)

lemma masked_whiten22:
  "masked_whiten [[a, b], [c, d]] [[1, 0], [1, 0]]
     = Inr (tmap (\<lambda>x. (x - (a + c) / 2) / sqrt (((a - (a + c) / 2)\<^sup>2 + (c - (a + c) / 2)\<^sup>2) / 2))
              [[a, b], [c, d]])"
  unfolding masked_whiten_def masked_mean22 ebind_simps
  by (simp add: tmap_def masked_mean22 ebind_simps)

lemma sqrt_quarter: "sqrt (1 / 4) = 1 / 2"
  by (simp add: real_sqrt_divide)

lemma gae_masked_stat:
  "masked_mean [[5, 5], [1, 0]] [[1, 0], [1, 0]] = Inr 3"
  "masked_mean [[0, 0], [1, 0]] [[1, 0], [1, 0]] = Inr (1 / 2)"
  by (simp_all add: masked_mean22)

lemma gae_masked_return:
  "compute_gae_advantage_return [[0, 5], [1, 0]] [[0, 0], [0, 0]] [[1, 0], [1, 0]] 1 1
     = Inr ([[1, 1], [- 1, - (3 / 2)]], [[5, 5], [1, 0]])"
  unfolding compute_gae_advantage_return_def gae_masked_example ebind_simps Let_def
    masked_whiten22
  by (simp add: tmap_def tmap2_def)

lemma gae_masked_return0:
  "compute_gae_advantage_return [[0, 0], [1, 0]] [[0, 0], [0, 0]] [[1, 0], [1, 0]] 1 1
     = Inr ([[- 1, - 1], [1, - 1]], [[0, 0], [1, 0]])"
  unfolding compute_gae_advantage_return_def gae_masked_example0 ebind_simps Let_def
    masked_whiten22
  by (simp add: tmap_def tmap2_def power2_eq_square sqrt_quarter)

lemma rpp_masked_return:
  "compute_reinforce_plus_plus_outcome_advantage [[1, 2], [3, 0]] [[1, 0], [1, 0]] 1
     = Inr ([[- 1, 0], [1, 0]], [[1, 2], [3, 0]])"
proof -
  have two: "ncols [[1, 2], [3, 0 :: real]] = Suc (Suc 0)" "nrows [[1, 2], [3, 0 :: real]] = Suc (Suc 0)"
    by (simp_all add: ncols_def nrows_def)
  have ret: "rpp_loop [[1, 2], [3, 0]] [[1, 0], [1, 0]] 1 (Suc (Suc 0)) (replicate (Suc (Suc 0)) 0)
               (tmap (\<lambda>_. 0) [[1, 2], [3, 0]]) = [[1, 2], [3, 0]]"
    by (simp add: Let_def col_def set_col_def tmap_def)
  show ?thesis
    unfolding compute_reinforce_plus_plus_outcome_advantage_def two ret Let_def masked_whiten22
      ebind_simps
    by (simp add: tmap_def tmap2_def)
qed

text \<open>
  C1 as stated fails, for every estimator but in different parts.
  ReMax: with the reward on the last token, mask \<open>[[1,0,1]]\<close> and baseline 0, the advantage
  and the return are 1 at the middle position, whose mask is 0.
  GRPO and RLOO: the score of a row sums the rewards of all its positions, so changing only
  the reward at a position of mask 0 from 0 to 5 changes the advantage at the unmasked
  position from 0 to 5.
  GAE: with rewards \<open>[[0,5],[1,0]]\<close>, values 0 and mask \<open>[[1,0],[1,0]]\<close>, the advantage is 1
  and the return is 5 at the position \<open>(0,1)\<close> of mask 0; and with the reward 5 at that
  position replaced by 0, the masked mean of the advantages before whitening changes from
  3 to \<open>1/2\<close> and the advantage at the unmasked position \<open>(0,0)\<close> from 1 to \<open>-1\<close>.
  REINFORCE++: with rewards \<open>[[1,2],[3,0]]\<close> and the same mask, the return is 2 at the
  position \<open>(0,1)\<close> of mask 0.
\<close>

theorem mask_zero_positions_counterexample:
  "[[1, 0, 1 :: real]] ! 0 ! 1 = 0
   \<and> fst (compute_remax_outcome_advantage [[0, 0, 1]] [0] [[1, 0, 1]]) ! 0 ! 1 = 1
   \<and> snd (compute_remax_outcome_advantage [[0, 0, 1]] [0] [[1, 0, 1]]) ! 0 ! 1 = 1
   \<and> compute_grpo_outcome_advantage [[0, 0]] [[1, 0]] [0 :: nat] 0 False ''none'' 1
        = Inr ([[0, 0]], [[0, 0]])
   \<and> compute_grpo_outcome_advantage [[0, 5]] [[1, 0]] [0 :: nat] 0 False ''none'' 1
        = Inr ([[5, 0]], [[5, 0]])
   \<and> compute_rloo_outcome_advantage [[0, 0]] [[1, 0]] [0 :: nat] = Inr ([[0, 0]], [[0, 0]])
   \<and> compute_rloo_outcome_advantage [[0, 5]] [[1, 0]] [0 :: nat] = Inr ([[5, 0]], [[5, 0]])
   \<and> [[1, 0], [1, 0 :: real]] ! 0 ! 1 = 0
   \<and> compute_gae_advantage_return [[0, 5], [1, 0]] [[0, 0], [0, 0]] [[1, 0], [1, 0]] 1 1
        = Inr ([[1, 1], [- 1, - (3 / 2)]], [[5, 5], [1, 0]])
   \<and> compute_gae_advantage_return [[0, 0], [1, 0]] [[0, 0], [0, 0]] [[1, 0], [1, 0]] 1 1
        = Inr ([[- 1, - 1], [1, - 1]], [[0, 0], [1, 0]])
   \<and> gae_advantages [[0, 5], [1, 0]] [[0, 0], [0, 0]] 1 1 = Inr [[5, 5], [1, 0]]
   \<and> masked_mean [[5, 5], [1, 0]] [[1, 0], [1, 0]] = Inr 3
   \<and> gae_advantages [[0, 0], [1, 0]] [[0, 0], [0, 0]] 1 1 = Inr [[0, 0], [1, 0]]
   \<and> masked_mean [[0, 0], [1, 0]] [[1, 0], [1, 0]] = Inr (1 / 2)
   \<and> compute_reinforce_plus_plus_outcome_advantage [[1, 2], [3, 0]] [[1, 0], [1, 0]] 1
        = Inr ([[- 1, 0], [1, 0]], [[1, 2], [3, 0]])"
  unfolding remax_example grpo_example rloo_example gae_masked_return gae_masked_return0
    gae_masked_example gae_masked_example0 gae_masked_stat rpp_masked_return
  by simp

text \<open>
  C1, amended. The outputs of GRPO and RLOO (advantages and returns) are 0 wherever the
  mask is 0, and so are the advantages of REINFORCE++. In REINFORCE++ the rewards at
  positions of mask 0 contribute neither to the statistics nor to the advantages: for
  rectangular reward tensors \<open>R\<close> and \<open>R'\<close> of the shape of the mask that agree wherever the
  mask is not 0, both calls return, with the same advantages, and the masked mean and
  the masked variance of the two return tensors are the same. The ReMax return at a
  position is the sum of \<open>reward * mask\<close> over that position and the later ones of its row,
  and the ReMax advantage is that return minus \<open>baseline * mask\<close>.
\<close>

theorem masked_positions_amended:
  "(compute_grpo_outcome_advantage R M index eps nstd nimp sc = Inr (adv, ret) \<longrightarrow>
      i < length adv \<longrightarrow> t < length (adv ! i) \<longrightarrow> M ! i ! t = 0 \<longrightarrow>
      adv ! i ! t = 0 \<and> ret ! i ! t = 0)
   \<and> (compute_rloo_outcome_advantage R M index = Inr (adv, ret) \<longrightarrow>
      i < length adv \<longrightarrow> t < length (adv ! i) \<longrightarrow> M ! i ! t = 0 \<longrightarrow>
      adv ! i ! t = 0 \<and> ret ! i ! t = 0)
   \<and> (compute_reinforce_plus_plus_outcome_advantage R M g = Inr (adv, ret) \<longrightarrow>
      i < length adv \<longrightarrow> t < length (adv ! i) \<longrightarrow> M ! i ! t = 0 \<longrightarrow>
      adv ! i ! t = 0)
   \<and> (rect R \<longrightarrow> rect R' \<longrightarrow> rect M \<longrightarrow> nrows R' = nrows R \<longrightarrow> ncols R' = ncols R \<longrightarrow>
      nrows M = nrows R \<longrightarrow> ncols M = ncols R \<longrightarrow>
      (\<forall>j<nrows R. \<forall>s<ncols R. M ! j ! s \<noteq> 0 \<longrightarrow> R' ! j ! s = R ! j ! s) \<longrightarrow>
      (\<exists>a r r' mu.
           compute_reinforce_plus_plus_outcome_advantage R M g = Inr (a, r)
         \<and> compute_reinforce_plus_plus_outcome_advantage R' M g = Inr (a, r')
         \<and> masked_mean r M = Inr mu \<and> masked_mean r' M = Inr mu
         \<and> masked_mean (tmap (\<lambda>x. (x - mu)\<^sup>2) r') M
             = masked_mean (tmap (\<lambda>x. (x - mu)\<^sup>2) r) M))
   \<and> (rect R \<longrightarrow> rect M \<longrightarrow> nrows M = nrows R \<longrightarrow> ncols M = ncols R \<longrightarrow>
      length b = nrows R \<longrightarrow> i < nrows R \<longrightarrow> t < ncols R \<longrightarrow>
      snd (compute_remax_outcome_advantage R b M) ! i ! t
        = sum_list (drop t (map2 (*) (R ! i) (M ! i)))
      \<and> fst (compute_remax_outcome_advantage R b M) ! i ! t
        = snd (compute_remax_outcome_advantage R b M) ! i ! t - b ! i * M ! i ! t)"
proof (intro conjI impI)
  assume a: "compute_grpo_outcome_advantage R M index eps nstd nimp sc = Inr (adv, ret)"
    and i: "i < length adv" and t: "t < length (adv ! i)" and m: "M ! i ! t = 0"
  from grpo_outputs [OF a] obtain scores
    where adv: "adv = tmap2 (*) (map (replicate (ncols R)) scores) M" and ret: "ret = adv"
    by blast
  show "adv ! i ! t = 0"
    using i t m unfolding adv by (rule masked_product_zero)
  then show "ret ! i ! t = 0" using ret by simp
next
  assume a: "compute_rloo_outcome_advantage R M index = Inr (adv, ret)"
    and i: "i < length adv" and t: "t < length (adv ! i)" and m: "M ! i ! t = 0"
  from rloo_outputs [OF a] obtain scores
    where adv: "adv = tmap2 (*) (map (replicate (ncols R)) scores) M" and ret: "ret = adv"
    by blast
  show "adv ! i ! t = 0"
    using i t m unfolding adv by (rule masked_product_zero)
  then show "ret ! i ! t = 0" using ret by simp
next
  assume a: "compute_reinforce_plus_plus_outcome_advantage R M g = Inr (adv, ret)"
    and i: "i < length adv" and t: "t < length (adv ! i)" and m: "M ! i ! t = 0"
  from rpp_outputs [OF a] obtain W where adv: "adv = tmap2 (*) W M" by blast
  show "adv ! i ! t = 0"
    using i t m unfolding adv by (rule masked_product_zero)
next
  assume "rect R" "rect R'" "rect M" "nrows R' = nrows R" "ncols R' = ncols R"
    "nrows M = nrows R" "ncols M = ncols R"
    "\<forall>j<nrows R. \<forall>s<ncols R. M ! j ! s \<noteq> 0 \<longrightarrow> R' ! j ! s = R ! j ! s"
  then show "\<exists>a r r' mu.
           compute_reinforce_plus_plus_outcome_advantage R M g = Inr (a, r)
         \<and> compute_reinforce_plus_plus_outcome_advantage R' M g = Inr (a, r')
         \<and> masked_mean r M = Inr mu \<and> masked_mean r' M = Inr mu
         \<and> masked_mean (tmap (\<lambda>x. (x - mu)\<^sup>2) r') M
             = masked_mean (tmap (\<lambda>x. (x - mu)\<^sup>2) r) M"
    by (rule rpp_masked_rewards)
next
  assume "rect R" "rect M" "nrows M = nrows R" "ncols M = ncols R" "length b = nrows R"
    "i < nrows R" "t < ncols R"
  then show "snd (compute_remax_outcome_advantage R b M) ! i ! t
        = sum_list (drop t (map2 (*) (R ! i) (M ! i)))"
    by (rule remax_entries(1))
next
  assume "rect R" "rect M" "nrows M = nrows R" "ncols M = ncols R" "length b = nrows R"
    "i < nrows R" "t < ncols R"
  then show "fst (compute_remax_outcome_advantage R b M) ! i ! t
        = snd (compute_remax_outcome_advantage R b M) ! i ! t - b ! i * M ! i ! t"
    by (rule remax_entries(2))
qed

theorem masked_positions_amended_witness:
  "compute_grpo_outcome_advantage [[0, 5]] [[1, 0]] [0 :: nat] 0 False ''none'' 1
     = Inr ([[5, 0]], [[5, 0]])
   \<and> [[5, 0 :: real]] ! 0 ! 1 = 0
   \<and> compute_rloo_outcome_advantage [[0, 5]] [[1, 0]] [0 :: nat] = Inr ([[5, 0]], [[5, 0]])
   \<and> compute_reinforce_plus_plus_outcome_advantage [[1, 0], [3, 0]] [[1, 0], [1, 0]] 1
     = Inr ([[- 1, 0], [1, 0]], [[1, 0], [3, 0]])
   \<and> [[- 1, 0], [1, 0 :: real]] ! 0 ! 1 = 0
   \<and> (\<exists>r'. compute_reinforce_plus_plus_outcome_advantage [[1, 2], [3, 0]] [[1, 0], [1, 0]] 1
             = Inr ([[- 1, 0], [1, 0]], r')
           \<and> masked_mean r' [[1, 0], [1, 0]] = Inr 2)
   \<and> snd (compute_remax_outcome_advantage [[0, 0, 1]] [0] [[1, 0, 1]]) ! 0 ! 1
     = sum_list (drop 1 (map2 (*) [0, 0, 1] [1, 0, 1]))"
proof -
  note am = masked_positions_amended
  have g: "compute_grpo_outcome_advantage [[0, 5]] [[1, 0]] [0 :: nat] 0 False ''none'' 1
     = Inr ([[5, 0]], [[5, 0]])"
    by (rule grpo_example)
  have r: "compute_rloo_outcome_advantage [[0, 5]] [[1, 0]] [0 :: nat]
     = Inr ([[5, 0]], [[5, 0]])"
    by (rule rloo_example)
  have p: "compute_reinforce_plus_plus_outcome_advantage [[1, 0], [3, 0]] [[1, 0], [1, 0]] 1
     = Inr ([[- 1, 0], [1, 0]], [[1, 0], [3, 0]])"
    by (rule rpp_example)
  have g0: "[[5, 0 :: real]] ! 0 ! 1 = 0"
    using am [THEN conjunct1, rule_format, OF g, of 0 1] by simp
  have r0: "[[5, 0 :: real]] ! 0 ! 1 = 0"
    using am [THEN conjunct2, THEN conjunct1, rule_format, OF r, of 0 1] by simp
  have p0: "[[- 1, 0], [1, 0 :: real]] ! 0 ! 1 = 0"
    using am [THEN conjunct2, THEN conjunct2, THEN conjunct1, rule_format, OF p, of 0 1]
    by simp
  have agree: "\<forall>j<nrows [[1, 0], [3, 0 :: real]]. \<forall>s<ncols [[1, 0], [3, 0 :: real]].
                 [[1, 0], [1, 0 :: real]] ! j ! s \<noteq> 0
                 \<longrightarrow> [[1, 2], [3, 0 :: real]] ! j ! s = [[1, 0], [3, 0 :: real]] ! j ! s"
    by (simp add: nrows_def ncols_def less_Suc_eq numeral_2_eq_2)
  have sh2: "rect [[1, 0], [3, 0 :: real]]" "rect [[1, 2], [3, 0 :: real]]"
    "rect [[1, 0], [1, 0 :: real]]"
    "nrows [[1, 2], [3, 0 :: real]] = nrows [[1, 0], [3, 0 :: real]]"
    "ncols [[1, 2], [3, 0 :: real]] = ncols [[1, 0], [3, 0 :: real]]"
    "nrows [[1, 0], [1, 0 :: real]] = nrows [[1, 0], [3, 0 :: real]]"
    "ncols [[1, 0], [1, 0 :: real]] = ncols [[1, 0], [3, 0 :: real]]"
    by (simp_all add: rect_def nrows_def ncols_def)
  from am [where R = "[[1, 0], [3, 0]]" and R' = "[[1, 2], [3, 0]]"
             and M = "[[1, 0], [1, 0]]" and g = 1,
           THEN conjunct2, THEN conjunct2, THEN conjunct2, THEN conjunct1, rule_format,
           OF sh2 agree [rule_format]]
  obtain a r1 r' mu
    where c: "compute_reinforce_plus_plus_outcome_advantage [[1, 0], [3, 0]] [[1, 0], [1, 0]] 1
                = Inr (a, r1)"
      and c': "compute_reinforce_plus_plus_outcome_advantage [[1, 2], [3, 0]] [[1, 0], [1, 0]] 1
                = Inr (a, r')"
      and m: "masked_mean r1 [[1, 0], [1, 0]] = Inr mu"
      and m': "masked_mean r' [[1, 0], [1, 0]] = Inr mu"
    by blast
  have a: "a = [[- 1, 0], [1, 0]]" and r1: "r1 = [[1, 0], [3, 0]]"
    using c unfolding p by simp_all
  have "mu = 2" using m unfolding r1 masked_mean22 by simp
  then have q: "\<exists>r'. compute_reinforce_plus_plus_outcome_advantage [[1, 2], [3, 0]]
                       [[1, 0], [1, 0]] 1 = Inr ([[- 1, 0], [1, 0]], r')
                   \<and> masked_mean r' [[1, 0], [1, 0]] = Inr 2"
    using c' m' a by blast
  have sh: "rect [[0, 0, 1 :: real]]" "rect [[1, 0, 1 :: real]]"
    "nrows [[1, 0, 1 :: real]] = nrows [[0, 0, 1 :: real]]"
    "ncols [[1, 0, 1 :: real]] = ncols [[0, 0, 1 :: real]]"
    "length [0 :: real] = nrows [[0, 0, 1 :: real]]"
    "0 < nrows [[0, 0, 1 :: real]]" "1 < ncols [[0, 0, 1 :: real]]"
    by (simp_all add: rect_def nrows_def ncols_def)
  have x: "snd (compute_remax_outcome_advantage [[0, 0, 1]] [0] [[1, 0, 1]]) ! 0 ! 1
     = sum_list (drop 1 (map2 (*) [0, 0, 1] [1, 0, 1]))"
    using am [THEN conjunct2, THEN conjunct2, THEN conjunct2, THEN conjunct2, rule_format,
               OF sh, THEN conjunct1]
    by simp
  show ?thesis
    using g g0 r p p0 q x by (intro conjI)
qed

section \<open>Properties of the groups in GRPO and RLOO\<close>

lemma get_scores_append_score:
  "get_scores (append_score k s d) k' =
     (if k' = k then get_scores d k @ [s] else get_scores d k')"
  by (induction d) (auto simp: get_scores_def)

lemma get_scores_fold:
  "get_scores (fold (\<lambda>(k, s) d. append_score k s d) ps d) k' =
     get_scores d k' @ map snd (filter (\<lambda>p. fst p = k') ps)"
proof (induction ps arbitrary: d)
  case Nil
  show ?case by simp
next
  case (Cons p ps)
  obtain k s where p: "p = (k, s)" by (cases p)
  show ?case
    by (simp add: p Cons.IH get_scores_append_score)
qed

lemma get_scores_build:
  "get_scores (build_id2score index scores) k =
     map snd (filter (\<lambda>p. fst p = k) (zip index scores))"
  unfolding build_id2score_def get_scores_fold by (simp add: get_scores_def)

lemma keys_append_score: "fst ` set (append_score k s d) = insert k (fst ` set d)"
proof (induction d)
  case Nil
  show ?case by simp
next
  case (Cons a d)
  obtain k' xs where a: "a = (k', xs)" by (cases a)
  show ?case
  proof (cases "k = k'")
    case True
    then show ?thesis by (simp add: a insert_absorb)
  next
    case False
    then show ?thesis by (simp add: a Cons.IH insert_commute)
  qed
qed

lemma distinct_append_score:
  "distinct (map fst d) \<Longrightarrow> distinct (map fst (append_score k s d))"
proof (induction d)
  case Nil
  show ?case by simp
next
  case (Cons a d)
  obtain k' xs where a: "a = (k', xs)" by (cases a)
  show ?case
  proof (cases "k = k'")
    case True
    then show ?thesis using Cons.prems a by simp
  next
    case False
    have "k' \<notin> fst ` set (append_score k s d)"
      using Cons.prems a False by (simp add: keys_append_score)
    then show ?thesis
      using Cons a False by simp
  qed
qed

lemma nonempty_append_score:
  "[] \<notin> snd ` set d \<Longrightarrow> [] \<notin> snd ` set (append_score k s d)"
proof (induction d)
  case Nil
  show ?case by simp
next
  case (Cons a d)
  obtain k' xs where a: "a = (k', xs)" by (cases a)
  have xs: "xs \<noteq> []" and d: "[] \<notin> snd ` set d" using Cons.prems a by auto
  show ?case
  proof (cases "k = k'")
    case True
    then show ?thesis using d by (simp add: a)
  next
    case False
    then show ?thesis using Cons.IH [OF d] xs by (simp add: a)
  qed
qed

lemma fold_append_invariants:
  "distinct (map fst d) \<Longrightarrow> [] \<notin> snd ` set d \<Longrightarrow>
   distinct (map fst (fold (\<lambda>(k, s) d. append_score k s d) ps d))
   \<and> [] \<notin> snd ` set (fold (\<lambda>(k, s) d. append_score k s d) ps d)
   \<and> fst ` set (fold (\<lambda>(k, s) d. append_score k s d) ps d) = fst ` set ps \<union> fst ` set d"
proof (induction ps arbitrary: d)
  case Nil
  then show ?case by simp
next
  case (Cons p ps)
  obtain k s where p: "p = (k, s)" by (cases p)
  have d1: "distinct (map fst (append_score k s d))"
    using Cons.prems(1) by (rule distinct_append_score)
  have d2: "[] \<notin> snd ` set (append_score k s d)"
    using Cons.prems(2) by (rule nonempty_append_score)
  from Cons.IH [OF d1 d2] show ?case
    by (simp add: p keys_append_score)
qed

lemma build_invariants:
  "distinct (map fst (build_id2score index scores))"
  "[] \<notin> snd ` set (build_id2score index scores)"
  "fst ` set (build_id2score index scores) = fst ` set (zip index scores)"
  using fold_append_invariants [of "[]" "zip index scores"]
  by (simp_all add: build_id2score_def)

lemma get_scores_Cons:
  "get_scores ((k, xs) # d) k' = (if k' = k then xs else get_scores d k')"
  by (simp add: get_scores_def)

lemma rloo_stats_result:
  assumes "distinct (map fst d)" and "[] \<notin> snd ` set d"
  shows "\<exists>m'. rloo_stats d m = Inr m'
           \<and> (\<forall>k \<in> fst ` set d.
                 m' k = Some (if length (get_scores d k) = 1 then 0 else mean (get_scores d k)))"
    (is "\<exists>m'. ?P d m m'")
proof -
  have "\<exists>m'. ?P d m m' \<and> (\<forall>k. k \<notin> fst ` set d \<longrightarrow> m' k = m k)"
    using assms
  proof (induction d arbitrary: m)
    case Nil
    show ?case by simp
  next
    case (Cons a d)
    obtain k xs where a: "a = (k, xs)" by (cases a)
    have k: "k \<notin> fst ` set d" and dd: "distinct (map fst d)" and ne: "[] \<notin> snd ` set d"
      and xs: "xs \<noteq> []"
      using Cons.prems a by auto
    define v where "v = (if length xs = 1 then 0 else mean xs)"
    have step: "rloo_stats (a # d) m = rloo_stats d (m(k \<mapsto> v))"
      using xs by (cases xs) (simp_all add: a v_def)
    from Cons.IH [OF dd ne, of "m(k \<mapsto> v)"] obtain m'
      where r: "rloo_stats d (m(k \<mapsto> v)) = Inr m'"
        and keys: "\<forall>k' \<in> fst ` set d.
                 m' k' = Some (if length (get_scores d k') = 1 then 0 else mean (get_scores d k'))"
        and rest: "\<forall>k'. k' \<notin> fst ` set d \<longrightarrow> m' k' = (m(k \<mapsto> v)) k'"
      by blast
    have mk: "m' k = Some v" using rest k by simp
    have "\<forall>k' \<in> fst ` set (a # d).
            m' k' = Some (if length (get_scores (a # d) k') = 1 then 0
                          else mean (get_scores (a # d) k'))"
    proof
      fix k' assume k': "k' \<in> fst ` set (a # d)"
      show "m' k' = Some (if length (get_scores (a # d) k') = 1 then 0
                          else mean (get_scores (a # d) k'))"
      proof (cases "k' = k")
        case True
        then show ?thesis using mk by (simp add: a get_scores_Cons v_def)
      next
        case False
        then have "k' \<in> fst ` set d" using k' a by auto
        with keys have "m' k' = Some (if length (get_scores d k') = 1 then 0
                                      else mean (get_scores d k'))"
          by (rule bspec)
        then show ?thesis using False by (simp add: a get_scores_Cons)
      qed
    qed
    moreover have "\<forall>k'. k' \<notin> fst ` set (a # d) \<longrightarrow> m' k' = m k'"
      using rest a by auto
    ultimately show ?case using step r by simp
  qed
  then show ?thesis by blast
qed

lemma grpo_stats_result:
  assumes "distinct (map fst d)" and "[] \<notin> snd ` set d"
  shows "\<exists>m' s'. grpo_stats d m s = Inr (m', s')
           \<and> (\<forall>k \<in> fst ` set d.
                 m' k = Some (if length (get_scores d k) = 1 then 0 else mean (get_scores d k))
               \<and> s' k = Some (if length (get_scores d k) = 1 then 1 else std (get_scores d k)))"
    (is "\<exists>m' s'. ?P d m s m' s'")
proof -
  have "\<exists>m' s'. ?P d m s m' s'
          \<and> (\<forall>k. k \<notin> fst ` set d \<longrightarrow> m' k = m k \<and> s' k = s k)"
    using assms
  proof (induction d arbitrary: m s)
    case Nil
    show ?case by simp
  next
    case (Cons a d)
    obtain k xs where a: "a = (k, xs)" by (cases a)
    have k: "k \<notin> fst ` set d" and dd: "distinct (map fst d)" and ne: "[] \<notin> snd ` set d"
      and xs: "xs \<noteq> []"
      using Cons.prems a by auto
    define v where "v = (if length xs = 1 then 0 else mean xs)"
    define w where "w = (if length xs = 1 then 1 else std xs)"
    have step: "grpo_stats (a # d) m s = grpo_stats d (m(k \<mapsto> v)) (s(k \<mapsto> w))"
      using xs by (cases xs) (simp_all add: a v_def w_def)
    from Cons.IH [OF dd ne, of "m(k \<mapsto> v)" "s(k \<mapsto> w)"] obtain m' s'
      where r: "grpo_stats d (m(k \<mapsto> v)) (s(k \<mapsto> w)) = Inr (m', s')"
        and keys: "\<forall>k' \<in> fst ` set d.
                 m' k' = Some (if length (get_scores d k') = 1 then 0 else mean (get_scores d k'))
               \<and> s' k' = Some (if length (get_scores d k') = 1 then 1 else std (get_scores d k'))"
        and rest: "\<forall>k'. k' \<notin> fst ` set d \<longrightarrow>
                     m' k' = (m(k \<mapsto> v)) k' \<and> s' k' = (s(k \<mapsto> w)) k'"
      by blast
    have mk: "m' k = Some v" "s' k = Some w" using rest k by simp_all
    have "\<forall>k' \<in> fst ` set (a # d).
            m' k' = Some (if length (get_scores (a # d) k') = 1 then 0
                          else mean (get_scores (a # d) k'))
          \<and> s' k' = Some (if length (get_scores (a # d) k') = 1 then 1
                          else std (get_scores (a # d) k'))"
    proof
      fix k' assume k': "k' \<in> fst ` set (a # d)"
      show "m' k' = Some (if length (get_scores (a # d) k') = 1 then 0
                          else mean (get_scores (a # d) k'))
          \<and> s' k' = Some (if length (get_scores (a # d) k') = 1 then 1
                          else std (get_scores (a # d) k'))"
      proof (cases "k' = k")
        case True
        then show ?thesis using mk by (simp add: a get_scores_Cons v_def w_def)
      next
        case False
        then have "k' \<in> fst ` set d" using k' a by auto
        with keys have
          "m' k' = Some (if length (get_scores d k') = 1 then 0 else mean (get_scores d k'))
           \<and> s' k' = Some (if length (get_scores d k') = 1 then 1 else std (get_scores d k'))"
          by (rule bspec)
        then show ?thesis using False by (simp add: a get_scores_Cons)
      qed
    qed
    moreover have "\<forall>k'. k' \<notin> fst ` set (a # d) \<longrightarrow> m' k' = m k' \<and> s' k' = s k'"
      using rest a by auto
    ultimately show ?case using step r by simp
  qed
  then show ?thesis by blast
qed

lemma emap_map:
  "(\<And>x. x \<in> set xs \<Longrightarrow> f x = Inr (g x)) \<Longrightarrow> emap f xs = Inr (map g xs)"
  by (induction xs) (simp_all add: ebind_simps)

lemma zip_keys_build:
  assumes "x \<in> set (zip index scores)"
  shows "fst x \<in> fst ` set (build_id2score index scores)"
  using assms unfolding build_invariants(3) by (rule imageI)

lemma rloo_scores_closed:
  assumes "length R \<le> length index"
  shows "rloo_scores R index =
           Inr (map (\<lambda>p. let xs = map snd (filter (\<lambda>q. fst q = fst p)
                                               (zip index (map sum_list R)));
                              n = length xs
                          in if 1 < n then snd p * real n / (real n - 1)
                                           - mean xs * real n / (real n - 1)
                             else snd p)
                    (zip index (map sum_list R)))"
    (is "_ = Inr (map ?g ?zs)")
proof -
  let ?d = "build_id2score index (map sum_list R)"
  from rloo_stats_result [OF build_invariants(1,2), of index "map sum_list R" Map.empty]
  obtain m' where st: "rloo_stats ?d Map.empty = Inr m'"
    and keys: "\<forall>k \<in> fst ` set ?d.
                 m' k = Some (if length (get_scores ?d k) = 1 then 0 else mean (get_scores ?d k))"
    by blast
  let ?f = "\<lambda>(k, s). let response_num = length (get_scores ?d k)
                  in if response_num > 1 then
                       (case m' k of
                          None \<Rightarrow> Inl KeyError
                        | Some m \<Rightarrow>
                            Inr (s * real response_num / (real response_num - 1)
                                 - m * real response_num / (real response_num - 1)))
                     else Inr s"
  have "emap ?f ?zs = Inr (map ?g ?zs)"
  proof (rule emap_map)
    fix x assume x: "x \<in> set ?zs"
    obtain k s where xs: "x = (k, s)" by (cases x)
    have "k \<in> fst ` set ?d" using zip_keys_build [OF x] xs by simp
    with keys have mk: "m' k = Some (if length (get_scores ?d k) = 1 then 0
                                     else mean (get_scores ?d k))"
      by (rule bspec)
    show "?f x = Inr (?g x)"
      using mk by (simp add: xs Let_def get_scores_build)
  qed
  then show ?thesis
    using assms by (simp add: rloo_scores_def Let_def st ebind_simps)
qed

lemma grpo_stats_build:
  "\<exists>m' s'. grpo_stats (build_id2score index scores) Map.empty Map.empty = Inr (m', s')
     \<and> (\<forall>k \<in> fst ` set (zip index scores).
           m' k = Some (if length (map snd (filter (\<lambda>q. fst q = k) (zip index scores))) = 1
                        then 0 else mean (map snd (filter (\<lambda>q. fst q = k) (zip index scores))))
         \<and> s' k = Some (if length (map snd (filter (\<lambda>q. fst q = k) (zip index scores))) = 1
                        then 1 else std (map snd (filter (\<lambda>q. fst q = k) (zip index scores)))))"
  using grpo_stats_result [OF build_invariants(1,2), of index scores Map.empty Map.empty]
  unfolding build_invariants(3) get_scores_build .

lemma grpo_scores_closed:
  assumes "length R \<le> length index"
  shows "grpo_scores R index eps nstd nimp sc =
           Inr (map (\<lambda>p. let xs = map snd (filter (\<lambda>q. fst q = fst p)
                                               (zip index (map sum_list R)));
                              m = (if length xs = 1 then 0 else mean xs);
                              sd = (if length xs = 1 then 1 else std xs)
                          in if nstd then (snd p - m) / (sd + eps)
                             else if nimp = ''v1'' then (snd p - m) / ((sc / sd) + eps)
                             else snd p - m)
                    (zip index (map sum_list R)))"
    (is "_ = Inr (map ?g ?zs)")
proof -
  let ?d = "build_id2score index (map sum_list R)"
  from grpo_stats_build [of index "map sum_list R"]
  obtain m' s' where st: "grpo_stats ?d Map.empty Map.empty = Inr (m', s')"
    and keys: "\<forall>k \<in> fst ` set ?zs.
           m' k = Some (if length (map snd (filter (\<lambda>q. fst q = k) ?zs)) = 1
                        then 0 else mean (map snd (filter (\<lambda>q. fst q = k) ?zs)))
         \<and> s' k = Some (if length (map snd (filter (\<lambda>q. fst q = k) ?zs)) = 1
                        then 1 else std (map snd (filter (\<lambda>q. fst q = k) ?zs)))"
    by blast
  let ?f = "\<lambda>(k, s).
                  case m' k of
                    None \<Rightarrow> Inl KeyError
                  | Some m \<Rightarrow>
                      if nstd then
                        (case s' k of
                           None \<Rightarrow> Inl KeyError
                         | Some sd \<Rightarrow> Inr ((s - m) / (sd + eps)))
                      else if nimp = ''v1'' then
                        (case s' k of
                           None \<Rightarrow> Inl KeyError
                         | Some sd \<Rightarrow> Inr ((s - m) / ((sc / sd) + eps)))
                      else Inr (s - m)"
  have "emap ?f ?zs = Inr (map ?g ?zs)"
  proof (rule emap_map)
    fix x assume x: "x \<in> set ?zs"
    obtain k s where xs: "x = (k, s)" by (cases x)
    have "k \<in> fst ` set ?zs" using x xs by force
    with keys have mk:
      "m' k = Some (if length (map snd (filter (\<lambda>q. fst q = k) ?zs)) = 1
                        then 0 else mean (map snd (filter (\<lambda>q. fst q = k) ?zs)))
       \<and> s' k = Some (if length (map snd (filter (\<lambda>q. fst q = k) ?zs)) = 1
                        then 1 else std (map snd (filter (\<lambda>q. fst q = k) ?zs)))"
      by (rule bspec)
    show "?f x = Inr (?g x)"
      using mk by (simp add: xs Let_def)
  qed
  then show ?thesis
    using assms by (simp add: grpo_scores_def Let_def st ebind_simps)
qed

lemma singleton_filter:
  assumes i: "i < length xs" and P: "P (xs ! i)"
      and single: "\<forall>j<length xs. P (xs ! j) \<longrightarrow> j = i"
  shows "length (filter P xs) = 1"
proof -
  have "{j. j < length xs \<and> P (xs ! j)} = {i}"
  proof (intro equalityI subsetI)
    fix j assume "j \<in> {j. j < length xs \<and> P (xs ! j)}"
    then have "j < length xs" and "P (xs ! j)" by simp_all
    with single have "j = i" by blast
    then show "j \<in> {i}" by simp
  next
    fix j assume "j \<in> {i}"
    then show "j \<in> {j. j < length xs \<and> P (xs ! j)}" using i P by simp
  qed
  then have "card {j. j < length xs \<and> P (xs ! j)} = 1" by simp
  then show ?thesis unfolding length_filter_conv_card .
qed

lemma singleton_group:
  assumes len: "length R \<le> length index" and i: "i < length R"
      and single: "\<forall>j<length R. index ! j = index ! i \<longrightarrow> j = i"
  shows "length (filter (\<lambda>q. fst q = index ! i) (zip index (map sum_list R))) = 1"
proof (rule singleton_filter [where i = i])
  show "i < length (zip index (map sum_list R))" using len i by simp
  show "fst (zip index (map sum_list R) ! i) = index ! i" using len i by simp
  show "\<forall>j<length (zip index (map sum_list R)).
          fst (zip index (map sum_list R) ! j) = index ! i \<longrightarrow> j = i"
  proof (intro allI impI)
    fix j
    assume j: "j < length (zip index (map sum_list R))"
      and e: "fst (zip index (map sum_list R) ! j) = index ! i"
    have jl: "j < length R" using j by simp
    have "fst (zip index (map sum_list R) ! j) = index ! j" using jl len by simp
    then have "index ! j = index ! i" using e by simp
    with single jl show "j = i" by blast
  qed
qed

lemma broadcast_scores_nth:
  assumes "i < length v" and "i < length M" and "t < n" and "t < length (M ! i)"
  shows "broadcast_scores v n M ! i ! t = v ! i * M ! i ! t"
  using assms by (simp add: broadcast_scores_def tmap2_def)

lemma nth_zip_scores:
  assumes "length R \<le> length index" and "i < length R"
  shows "zip index (map sum_list R) ! i = (index ! i, sum_list (R ! i))"
    and "i < length (zip index (map sum_list R))"
    and "length (zip index (map sum_list R)) = length R"
  using assms by simp_all

lemma rloo_singleton_score:
  assumes len: "length R \<le> length index" and i: "i < length R"
      and single: "\<forall>j<length R. index ! j = index ! i \<longrightarrow> j = i"
  shows "\<exists>v. rloo_scores R index = Inr v \<and> length v = length R \<and> v ! i = sum_list (R ! i)"
proof -
  note g = singleton_group [OF len i single]
  note z = nth_zip_scores [OF len i]
  have c: "rloo_scores R index =
           Inr (map (\<lambda>p. let xs = map snd (filter (\<lambda>q. fst q = fst p)
                                               (zip index (map sum_list R)));
                              n = length xs
                          in if 1 < n then snd p * real n / (real n - 1)
                                           - mean xs * real n / (real n - 1)
                             else snd p)
                    (zip index (map sum_list R)))"
    (is "_ = Inr (map ?g ?zs)")
    using len by (rule rloo_scores_closed)
  have "map ?g ?zs ! i = ?g (?zs ! i)" using z(2) by (rule nth_map)
  also have "\<dots> = sum_list (R ! i)"
    unfolding z(1) fst_conv snd_conv Let_def length_map g by simp
  finally have vi: "map ?g ?zs ! i = sum_list (R ! i)" .
  have lv: "length (map ?g ?zs) = length R" unfolding length_map by (rule z(3))
  from c lv vi show ?thesis by blast
qed

lemma grpo_singleton_score:
  assumes len: "length R \<le> length index" and i: "i < length R"
      and single: "\<forall>j<length R. index ! j = index ! i \<longrightarrow> j = i"
  shows "\<exists>v. grpo_scores R index eps nstd nimp sc = Inr v \<and> length v = length R
             \<and> v ! i = (if nstd then (sum_list (R ! i) - 0) / (1 + eps)
                        else if nimp = ''v1'' then (sum_list (R ! i) - 0) / (sc / 1 + eps)
                        else sum_list (R ! i) - 0)"
proof -
  note g = singleton_group [OF len i single]
  note z = nth_zip_scores [OF len i]
  have c: "grpo_scores R index eps nstd nimp sc =
           Inr (map (\<lambda>p. let xs = map snd (filter (\<lambda>q. fst q = fst p)
                                               (zip index (map sum_list R)));
                              m = (if length xs = 1 then 0 else mean xs);
                              sd = (if length xs = 1 then 1 else std xs)
                          in if nstd then (snd p - m) / (sd + eps)
                             else if nimp = ''v1'' then (snd p - m) / ((sc / sd) + eps)
                             else snd p - m)
                    (zip index (map sum_list R)))"
    (is "_ = Inr (map ?g ?zs)")
    using len by (rule grpo_scores_closed)
  have "map ?g ?zs ! i = ?g (?zs ! i)" using z(2) by (rule nth_map)
  also have "\<dots> = (if nstd then (sum_list (R ! i) - 0) / (1 + eps)
                        else if nimp = ''v1'' then (sum_list (R ! i) - 0) / (sc / 1 + eps)
                        else sum_list (R ! i) - 0)"
    unfolding z(1) fst_conv snd_conv Let_def length_map g by simp
  finally have vi: "map ?g ?zs ! i = (if nstd then (sum_list (R ! i) - 0) / (1 + eps)
                        else if nimp = ''v1'' then (sum_list (R ! i) - 0) / (sc / 1 + eps)
                        else sum_list (R ! i) - 0)" .
  have lv: "length (map ?g ?zs) = length R" unfolding length_map by (rule z(3))
  from c lv vi show ?thesis by blast
qed

lemma grpo_singleton_stats:
  assumes len: "length R \<le> length index" and i: "i < length R"
      and single: "\<forall>j<length R. index ! j = index ! i \<longrightarrow> j = i"
  shows "\<exists>m s. grpo_stats (build_id2score index (map sum_list R)) Map.empty Map.empty
                  = Inr (m, s)
               \<and> m (index ! i) = Some 0 \<and> s (index ! i) = Some 1"
proof -
  let ?zs = "zip index (map sum_list R)"
  note g = singleton_group [OF len i single]
  have "?zs ! i \<in> set ?zs" using len i by (intro nth_mem) simp
  then have "fst (?zs ! i) \<in> fst ` set ?zs" by (rule imageI)
  then have k: "index ! i \<in> fst ` set ?zs" using len i by simp
  from grpo_stats_build [of index "map sum_list R"]
  obtain m' s'
    where st: "grpo_stats (build_id2score index (map sum_list R)) Map.empty Map.empty
                 = Inr (m', s')"
      and keys: "\<forall>k \<in> fst ` set ?zs.
           m' k = Some (if length (map snd (filter (\<lambda>q. fst q = k) ?zs)) = 1
                        then 0 else mean (map snd (filter (\<lambda>q. fst q = k) ?zs)))
         \<and> s' k = Some (if length (map snd (filter (\<lambda>q. fst q = k) ?zs)) = 1
                        then 1 else std (map snd (filter (\<lambda>q. fst q = k) ?zs)))"
    by blast
  from keys k have
    "m' (index ! i) = Some (if length (map snd (filter (\<lambda>q. fst q = index ! i) ?zs)) = 1
                        then 0 else mean (map snd (filter (\<lambda>q. fst q = index ! i) ?zs)))
     \<and> s' (index ! i) = Some (if length (map snd (filter (\<lambda>q. fst q = index ! i) ?zs)) = 1
                        then 1 else std (map snd (filter (\<lambda>q. fst q = index ! i) ?zs)))"
    by (rule bspec)
  then have "m' (index ! i) = Some 0 \<and> s' (index ! i) = Some 1"
    using g by simp
  then show ?thesis using st by blast
qed

lemma empty_group_grpo:
  "(k, []) \<in> set d \<Longrightarrow> grpo_stats d m s = Inl ValueError"
proof (induction d arbitrary: m s)
  case Nil
  then show ?case by simp
next
  case (Cons a d)
  obtain k' xs where a: "a = (k', xs)" by (cases a)
  show ?case
  proof (cases "xs = []")
    case True
    then show ?thesis by (simp add: a)
  next
    case False
    then have "(k, []) \<in> set d" using Cons.prems a by auto
    then show ?thesis using False by (simp add: a Cons.IH)
  qed
qed

lemma empty_group_rloo:
  "(k, []) \<in> set d \<Longrightarrow> rloo_stats d m = Inl ValueError"
proof (induction d arbitrary: m)
  case Nil
  then show ?case by simp
next
  case (Cons a d)
  obtain k' xs where a: "a = (k', xs)" by (cases a)
  show ?case
  proof (cases "xs = []")
    case True
    then show ?thesis by (simp add: a)
  next
    case False
    then have "(k, []) \<in> set d" using Cons.prems a by auto
    then show ?thesis using False by (simp add: a Cons.IH)
  qed
qed

lemma compute_grpo_scores:
  "grpo_scores R index eps nstd nimp sc = Inr v \<Longrightarrow>
   compute_grpo_outcome_advantage R M index eps nstd nimp sc
     = Inr (broadcast_scores v (ncols R) M, broadcast_scores v (ncols R) M)"
  by (simp add: compute_grpo_outcome_advantage_def Let_def ebind_simps)

lemma compute_rloo_scores:
  "rloo_scores R index = Inr v \<Longrightarrow>
   compute_rloo_outcome_advantage R M index
     = Inr (broadcast_scores v (ncols R) M, broadcast_scores v (ncols R) M)"
  by (simp add: compute_rloo_outcome_advantage_def Let_def ebind_simps)

lemma grpo_singleton_advantage:
  assumes len: "length R \<le> length index" and i: "i < length R" "i < length M"
      and t: "t < ncols R" "t < length (M ! i)"
      and single: "\<forall>j<length R. index ! j = index ! i \<longrightarrow> j = i"
  shows "\<exists>adv. compute_grpo_outcome_advantage R M index eps nstd nimp sc = Inr (adv, adv)
           \<and> adv ! i ! t = (if nstd then (sum_list (R ! i) - 0) / (1 + eps)
                            else if nimp = ''v1'' then (sum_list (R ! i) - 0) / (sc / 1 + eps)
                            else sum_list (R ! i) - 0) * M ! i ! t"
proof -
  from grpo_singleton_score [OF len i(1) single, of eps nstd nimp sc] obtain v
    where v: "grpo_scores R index eps nstd nimp sc = Inr v" and lv: "length v = length R"
      and vi: "v ! i = (if nstd then (sum_list (R ! i) - 0) / (1 + eps)
                        else if nimp = ''v1'' then (sum_list (R ! i) - 0) / (sc / 1 + eps)
                        else sum_list (R ! i) - 0)"
    by blast
  have iv: "i < length v" using i(1) lv by simp
  have "broadcast_scores v (ncols R) M ! i ! t = v ! i * M ! i ! t"
    using iv i(2) t by (rule broadcast_scores_nth)
  then show ?thesis
    using compute_grpo_scores [OF v, of M] vi by simp
qed

lemma rloo_singleton_advantage:
  assumes len: "length R \<le> length index" and i: "i < length R" "i < length M"
      and t: "t < ncols R" "t < length (M ! i)"
      and single: "\<forall>j<length R. index ! j = index ! i \<longrightarrow> j = i"
  shows "\<exists>adv. compute_rloo_outcome_advantage R M index = Inr (adv, adv)
           \<and> adv ! i ! t = sum_list (R ! i) * M ! i ! t"
proof -
  from rloo_singleton_score [OF len i(1) single] obtain v
    where v: "rloo_scores R index = Inr v" and lv: "length v = length R"
      and vi: "v ! i = sum_list (R ! i)"
    by blast
  have iv: "i < length v" using i(1) lv by simp
  have "broadcast_scores v (ncols R) M ! i ! t = v ! i * M ! i ! t"
    using iv i(2) t by (rule broadcast_scores_nth)
  then show ?thesis
    using compute_rloo_scores [OF v, of M] vi by simp
qed

lemma zip_map_zip:
  "zip xs (map g (zip xs ys)) = map (\<lambda>p. (fst p, g p)) (zip xs ys)"
proof -
  have "zip (map fst (zip xs ys)) (map g (zip xs ys)) = map (\<lambda>p. (fst p, g p)) (zip xs ys)"
    by (simp add: zip_map_map zip_same_conv_map)
  moreover have "zip xs (map g (zip xs ys)) = zip (map fst (zip xs ys)) (map g (zip xs ys))"
  proof (induction xs arbitrary: ys g)
    case Nil
    show ?case by simp
  next
    case (Cons x xs)
    show ?case
    proof (cases ys)
      case Nil
      then show ?thesis by simp
    next
      case (Cons y ys')
      show ?thesis
        using Cons.IH [of "\<lambda>p. g p" ys'] by (simp add: Cons)
    qed
  qed
  ultimately show ?thesis by simp
qed

lemma filter_key_map:
  "filter (\<lambda>p. fst p = k) (map (\<lambda>p. (fst p, h p)) zs)
     = map (\<lambda>p. (fst p, h p)) (filter (\<lambda>p. fst p = k) zs)"
  by (induction zs) simp_all

lemma group_size_rows:
  "length (filter (\<lambda>q. fst q = k) (zip index (map sum_list R)))
     = length (filter (\<lambda>p. fst p = k) (zip index R))"
proof -
  have "zip index (map sum_list R) = map (\<lambda>p. (fst p, sum_list (snd p))) (zip index R)"
    by (simp add: zip_map2 case_prod_beta)
  then show ?thesis by (simp add: filter_key_map)
qed

lemma leave_one_out_sum:
  fixes xs :: "real list"
  assumes "2 \<le> length xs"
  shows "sum_list (map (\<lambda>x. x * real (length xs) / (real (length xs) - 1)
                            - mean xs * real (length xs) / (real (length xs) - 1)) xs) = 0"
proof -
  define n where "n = real (length xs)"
  have "0 < length xs" using assms by linarith
  then have n: "n \<noteq> 0" by (simp add: n_def)
  have m: "mean xs * n = sum_list xs"
    using n by (simp add: mean_def n_def)
  have s1: "sum_list (map (\<lambda>x. x * n / (n - 1) - mean xs * n / (n - 1)) xs)
          = sum_list (map (\<lambda>x. x * (n / (n - 1))) xs)
            - sum_list (map (\<lambda>x. mean xs * n / (n - 1)) xs)"
    by (simp add: sum_list_subtractf)
  have s2: "sum_list (map (\<lambda>x. x * (n / (n - 1))) xs) = sum_list xs * (n / (n - 1))"
    using sum_list_mult_const [of "\<lambda>x. x" "n / (n - 1)" xs] by simp
  have s3: "sum_list (map (\<lambda>x. mean xs * n / (n - 1)) xs) = n * (mean xs * n / (n - 1))"
    by (simp add: sum_list_triv n_def)
  have "n * (mean xs * n / (n - 1)) = (mean xs * n) * (n / (n - 1))" by simp
  then have s4: "n * (mean xs * n / (n - 1)) = sum_list xs * (n / (n - 1))"
    unfolding m .
  have "sum_list (map (\<lambda>x. x * n / (n - 1) - mean xs * n / (n - 1)) xs) = 0"
    unfolding s1 s2 s3 s4 by simp
  then show ?thesis unfolding n_def .
qed

lemma rloo_group_sum:
  assumes len: "length R \<le> length index"
      and big: "2 \<le> length (filter (\<lambda>p. fst p = k) (zip index R))"
  shows "\<exists>v. rloo_scores R index = Inr v \<and> length v = length R
             \<and> sum_list (map snd (filter (\<lambda>p. fst p = k) (zip index v))) = 0"
proof -
  have c: "rloo_scores R index =
           Inr (map (\<lambda>p. let xs = map snd (filter (\<lambda>q. fst q = fst p)
                                               (zip index (map sum_list R)));
                              n = length xs
                          in if 1 < n then snd p * real n / (real n - 1)
                                           - mean xs * real n / (real n - 1)
                             else snd p)
                    (zip index (map sum_list R)))"
    (is "_ = Inr (map ?g ?zs)")
    using len by (rule rloo_scores_closed)
  let ?F = "filter (\<lambda>q. fst q = k) ?zs"
  let ?xs = "map snd ?F"
  have n: "2 \<le> length ?xs" using big by (simp add: group_size_rows)
  have lv: "length (map ?g ?zs) = length R" using len by simp
  have "map snd (filter (\<lambda>p. fst p = k) (zip index (map ?g ?zs))) = map ?g ?F"
    unfolding zip_map_zip filter_key_map by (simp add: comp_def)
  also have "\<dots> = map (\<lambda>p. snd p * real (length ?xs) / (real (length ?xs) - 1)
                            - mean ?xs * real (length ?xs) / (real (length ?xs) - 1)) ?F"
  proof (rule map_cong [OF refl])
    fix p assume "p \<in> set ?F"
    then have "fst p = k" by simp
    then show "?g p = snd p * real (length ?xs) / (real (length ?xs) - 1)
                            - mean ?xs * real (length ?xs) / (real (length ?xs) - 1)"
      using n by (simp add: Let_def)
  qed
  also have "\<dots> = map (\<lambda>x. x * real (length ?xs) / (real (length ?xs) - 1)
                            - mean ?xs * real (length ?xs) / (real (length ?xs) - 1)) ?xs"
    by (simp add: comp_def)
  finally have "sum_list (map snd (filter (\<lambda>p. fst p = k) (zip index (map ?g ?zs)))) = 0"
    using leave_one_out_sum [OF n] by simp
  with c lv show ?thesis by blast
qed

lemma rloo_scores_example:
  "rloo_scores [[a], [1], [3]] [0, 1, 1 :: nat] = Inr [a, - 2, 2]"
  by (simp add: rloo_scores_def Let_def build_id2score_def ebind_def get_scores_def mean_def)

lemma rloo_three_rows:
  "compute_rloo_outcome_advantage [[a], [1], [3]] [[1], [1], [1]] [0, 1, 1 :: nat]
     = Inr ([[a], [- 2], [2]], [[a], [- 2], [2]])"
  unfolding compute_rloo_outcome_advantage_def rloo_scores_example ebind_simps Let_def
  by (simp add: broadcast_scores_def tmap2_def ncols_def)

lemma grpo_scores_example:
  "grpo_scores [[2], [1], [3]] [0, 1, 1 :: nat] 0 False ''none'' 1 = Inr [2, - 1, 1]"
  by (simp add: grpo_scores_def Let_def build_id2score_def ebind_def mean_def)

lemma grpo_three_rows:
  "compute_grpo_outcome_advantage [[2], [1], [3]] [[1], [1], [1]] [0, 1, 1 :: nat] 0 False
       ''none'' 1
     = Inr ([[2], [- 1], [1]], [[2], [- 1], [1]])"
  unfolding compute_grpo_outcome_advantage_def grpo_scores_example ebind_simps Let_def
  by (simp add: broadcast_scores_def tmap2_def ncols_def)

text \<open>
  C2 as stated fails. In the batch with rewards \<open>[[2],[1],[3]]\<close> and index \<open>[0,1,1]\<close> the row 0
  is a group of its own. Its RLOO advantage is 2, the raw score, and so is its GRPO
  advantage in the mean-only branch: neither is 0.
\<close>

theorem singleton_group_counterexample:
  "compute_rloo_outcome_advantage [[2], [1], [3]] [[1], [1], [1]] [0, 1, 1 :: nat]
     = Inr ([[2], [- 2], [2]], [[2], [- 2], [2]])
   \<and> compute_grpo_outcome_advantage [[2], [1], [3]] [[1], [1], [1]] [0, 1, 1 :: nat] 0 False
        ''none'' 1
     = Inr ([[2], [- 1], [1]], [[2], [- 1], [1]])"
  unfolding rloo_three_rows grpo_three_rows by simp

text \<open>
  C2, amended. Let the row \<open>i\<close> be the only row of its group. GRPO gives the group the
  statistics mean 0 and std 1, so at every position of the row the advantage is the mask
  times \<open>(score - 0) / (1 + epsilon)\<close> with normalisation by the standard deviation,
  \<open>(score - 0) / (scale / 1 + epsilon)\<close> with \<open>norm_by_importance = 'v1'\<close> and the raw score in
  the mean-only branch, where the score is the sum of the rewards of the row. The RLOO
  advantage of the row is the mask times the raw score. In both estimators a group of
  the dictionary without members raises \<open>ValueError\<close>.
\<close>

theorem singleton_group_advantage:
  "(length R \<le> length index \<longrightarrow> i < length R \<longrightarrow> i < length M \<longrightarrow>
    t < ncols R \<longrightarrow> t < length (M ! i) \<longrightarrow>
    (\<forall>j<length R. index ! j = index ! i \<longrightarrow> j = i) \<longrightarrow>
      (\<exists>m s. grpo_stats (build_id2score index (map sum_list R)) Map.empty Map.empty
                = Inr (m, s)
             \<and> m (index ! i) = Some 0 \<and> s (index ! i) = Some 1)
    \<and> (\<exists>adv. compute_grpo_outcome_advantage R M index eps True nimp sc = Inr (adv, adv)
             \<and> adv ! i ! t = (sum_list (R ! i) - 0) / (1 + eps) * M ! i ! t)
    \<and> (\<exists>adv. compute_grpo_outcome_advantage R M index eps False ''v1'' sc = Inr (adv, adv)
             \<and> adv ! i ! t = (sum_list (R ! i) - 0) / (sc / 1 + eps) * M ! i ! t)
    \<and> (nimp \<noteq> ''v1'' \<longrightarrow>
         (\<exists>adv. compute_grpo_outcome_advantage R M index eps False nimp sc = Inr (adv, adv)
             \<and> adv ! i ! t = sum_list (R ! i) * M ! i ! t))
    \<and> (\<exists>adv. compute_rloo_outcome_advantage R M index = Inr (adv, adv)
             \<and> adv ! i ! t = sum_list (R ! i) * M ! i ! t))
   \<and> ((k, []) \<in> set d \<longrightarrow>
         grpo_stats d m0 s0 = Inl ValueError \<and> rloo_stats d m0 = Inl ValueError)"
proof (intro conjI impI)
  assume len: "length R \<le> length index" and i: "i < length R" "i < length M"
    and t: "t < ncols R" "t < length (M ! i)"
    and single: "\<forall>j<length R. index ! j = index ! i \<longrightarrow> j = i"
  show "\<exists>m s. grpo_stats (build_id2score index (map sum_list R)) Map.empty Map.empty
                = Inr (m, s)
             \<and> m (index ! i) = Some 0 \<and> s (index ! i) = Some 1"
    using len i(1) single by (rule grpo_singleton_stats)
  show "\<exists>adv. compute_grpo_outcome_advantage R M index eps True nimp sc = Inr (adv, adv)
             \<and> adv ! i ! t = (sum_list (R ! i) - 0) / (1 + eps) * M ! i ! t"
    using grpo_singleton_advantage [OF len i t single, of eps True nimp sc] by simp
  show "\<exists>adv. compute_grpo_outcome_advantage R M index eps False ''v1'' sc = Inr (adv, adv)
             \<and> adv ! i ! t = (sum_list (R ! i) - 0) / (sc / 1 + eps) * M ! i ! t"
    using grpo_singleton_advantage [OF len i t single, of eps False "''v1''" sc] by simp
  show "\<exists>adv. compute_rloo_outcome_advantage R M index = Inr (adv, adv)
             \<and> adv ! i ! t = sum_list (R ! i) * M ! i ! t"
    using len i t single by (rule rloo_singleton_advantage)
  assume "nimp \<noteq> ''v1''"
  then show "\<exists>adv. compute_grpo_outcome_advantage R M index eps False nimp sc = Inr (adv, adv)
             \<and> adv ! i ! t = sum_list (R ! i) * M ! i ! t"
    using grpo_singleton_advantage [OF len i t single, of eps False nimp sc] by simp
next
  assume "(k, []) \<in> set d"
  then show "grpo_stats d m0 s0 = Inl ValueError" by (rule empty_group_grpo)
next
  assume "(k, []) \<in> set d"
  then show "rloo_stats d m0 = Inl ValueError" by (rule empty_group_rloo)
qed

theorem singleton_group_advantage_witness:
  "(\<exists>adv. compute_grpo_outcome_advantage [[2], [1], [3]] [[1], [1], [1]] [0, 1, 1 :: nat] 0 True
             ''none'' 1 = Inr (adv, adv)
          \<and> adv ! 0 ! 0 = 2)
   \<and> (\<exists>adv. compute_grpo_outcome_advantage [[2], [1], [3]] [[1], [1], [1]] [0, 1, 1 :: nat] 0
             False ''none'' 1 = Inr (adv, adv)
          \<and> adv ! 0 ! 0 = 2)
   \<and> (\<exists>adv. compute_rloo_outcome_advantage [[2], [1], [3]] [[1], [1], [1]] [0, 1, 1 :: nat]
             = Inr (adv, adv)
          \<and> adv ! 0 ! 0 = 2)
   \<and> grpo_stats [(0 :: nat, [])] Map.empty Map.empty = Inl ValueError
   \<and> rloo_stats [(0 :: nat, [])] Map.empty = Inl ValueError"
proof -
  have h: "length [[2], [1], [3 :: real]] \<le> length [0, 1, 1 :: nat]"
    "0 < length [[2], [1], [3 :: real]]" "0 < length [[1], [1], [1 :: real]]"
    "0 < ncols [[2], [1], [3 :: real]]" "0 < length ([[1], [1], [1 :: real]] ! 0)"
    by (simp_all add: ncols_def)
  have single: "\<forall>j<length [[2], [1], [3 :: real]].
                  [0, 1, 1 :: nat] ! j = [0, 1, 1 :: nat] ! 0 \<longrightarrow> j = 0"
    by (simp add: less_Suc_eq numeral_3_eq_3)
  have ne: "''none'' \<noteq> ''v1''" by simp
  have e: "(0 :: nat, []) \<in> set [(0 :: nat, [] :: real list)]" by simp
  note am = singleton_group_advantage
    [where R = "[[2], [1], [3]]" and M = "[[1], [1], [1]]" and index = "[0, 1, 1 :: nat]"
       and i = 0 and t = 0 and eps = 0 and sc = 1 and nimp = "''none''"
       and k = "0 :: nat" and d = "[(0 :: nat, [])]" and ?m0.0 = Map.empty
       and ?s0.0 = Map.empty]
  note a = am [THEN conjunct1, rule_format (no_asm), OF h single]
  have g1: "\<exists>adv. compute_grpo_outcome_advantage [[2], [1], [3]] [[1], [1], [1]]
               [0, 1, 1 :: nat] 0 True ''none'' 1 = Inr (adv, adv) \<and> adv ! 0 ! 0 = 2"
    using a [THEN conjunct2, THEN conjunct1] by simp
  have g2: "\<exists>adv. compute_grpo_outcome_advantage [[2], [1], [3]] [[1], [1], [1]]
               [0, 1, 1 :: nat] 0 False ''none'' 1 = Inr (adv, adv) \<and> adv ! 0 ! 0 = 2"
    using a [THEN conjunct2, THEN conjunct2, THEN conjunct2, THEN conjunct1, rule_format, OF ne]
    by simp
  have r: "\<exists>adv. compute_rloo_outcome_advantage [[2], [1], [3]] [[1], [1], [1]]
               [0, 1, 1 :: nat] = Inr (adv, adv) \<and> adv ! 0 ! 0 = 2"
    using a [THEN conjunct2, THEN conjunct2, THEN conjunct2, THEN conjunct2] by simp
  note z = am [THEN conjunct2, rule_format, OF e]
  show ?thesis
    using g1 g2 r z by (intro conjI) simp_all
qed

text \<open>
  C5 as stated fails for a group of one row: RLOO leaves the score of such a row as it
  is. With rewards \<open>[[5],[1],[3]]\<close> and index \<open>[0,1,1]\<close> the group of index 0 is the row 0
  alone, and its advantage is 5, not 0.
\<close>

theorem rloo_group_sum_counterexample:
  "rloo_scores [[5], [1], [3]] [0, 1, 1 :: nat] = Inr [5, - 2, 2]
   \<and> compute_rloo_outcome_advantage [[5], [1], [3]] [[1], [1], [1]] [0, 1, 1 :: nat]
       = Inr ([[5], [- 2], [2]], [[5], [- 2], [2]])"
  unfolding rloo_scores_example rloo_three_rows by simp

text \<open>
  C5, amended: for every group of at least two rows, the RLOO scores of the rows of the
  group sum to 0, exactly over the reals. The advantage of a row is its score times the
  mask at every position of the row.
\<close>

theorem rloo_group_sum_zero:
  "length R \<le> length index \<longrightarrow> 2 \<le> length (filter (\<lambda>p. fst p = k) (zip index R)) \<longrightarrow>
     (\<exists>v. rloo_scores R index = Inr v \<and> length v = length R
         \<and> compute_rloo_outcome_advantage R M index
             = Inr (broadcast_scores v (ncols R) M, broadcast_scores v (ncols R) M)
         \<and> sum_list (map snd (filter (\<lambda>p. fst p = k) (zip index v))) = 0)"
proof (intro impI)
  assume len: "length R \<le> length index"
    and big: "2 \<le> length (filter (\<lambda>p. fst p = k) (zip index R))"
  from rloo_group_sum [OF len big] obtain v
    where v: "rloo_scores R index = Inr v" and lv: "length v = length R"
      and s: "sum_list (map snd (filter (\<lambda>p. fst p = k) (zip index v))) = 0"
    by blast
  from compute_rloo_scores [OF v, of M] v lv s show
    "\<exists>v. rloo_scores R index = Inr v \<and> length v = length R
         \<and> compute_rloo_outcome_advantage R M index
             = Inr (broadcast_scores v (ncols R) M, broadcast_scores v (ncols R) M)
         \<and> sum_list (map snd (filter (\<lambda>p. fst p = k) (zip index v))) = 0"
    by blast
qed

theorem rloo_group_sum_zero_witness:
  "rloo_scores [[5], [1], [3]] [0, 1, 1 :: nat] = Inr [5, - 2, 2]
   \<and> sum_list (map snd (filter (\<lambda>p. fst p = 1) (zip [0, 1, 1 :: nat] [5, - 2, 2 :: real]))) = 0"
proof -
  have len: "length [[5], [1], [3 :: real]] \<le> length [0, 1, 1 :: nat]" by simp
  have big: "2 \<le> length (filter (\<lambda>p. fst p = 1)
                            (zip [0, 1, 1 :: nat] [[5], [1], [3 :: real]]))"
    by simp
  from rloo_group_sum_zero [where M = "[[1], [1], [1]]", rule_format, OF len big]
  obtain v where v: "rloo_scores [[5], [1], [3]] [0, 1, 1 :: nat] = Inr v"
    and s: "sum_list (map snd (filter (\<lambda>p. fst p = 1) (zip [0, 1, 1 :: nat] v))) = 0"
    by blast
  have e: "rloo_scores [[5], [1], [3]] [0, 1, 1 :: nat] = Inr [5, - 2, 2]"
    by (rule rloo_scores_example)
  have "v = [5, - 2, 2]" using v unfolding e by simp
  with s e show ?thesis by simp
qed

section \<open>Properties of the clip bounds\<close>

lemma clip_bounds_Some: "clip_bounds (Some lo) (Some hi) = Inr (1 - lo, 1 + hi)"
  by (simp add: clip_bounds_def)

lemma compute_policy_loss_Inr_iff:
  "compute_policy_loss olp lp adv m c (Some lo) (Some hi) mode sc = Inr (l, f, k) \<longleftrightarrow>
     agg_loss (tmap2 max (tmap2 (*) (tmap uminus adv) (tmap exp (tmap2 (-) lp olp)))
                         (tmap2 (*) (tmap uminus adv)
                            (tmap (\<lambda>r. clamp r (1 - lo) (1 + hi)) (tmap exp (tmap2 (-) lp olp)))))
              m mode sc (1 / 1000000) = Inr l
     \<and> masked_mean (tmap2 gt_float
                       (tmap2 (*) (tmap uminus adv)
                          (tmap (\<lambda>r. clamp r (1 - lo) (1 + hi)) (tmap exp (tmap2 (-) lp olp))))
                       (tmap2 (*) (tmap uminus adv) (tmap exp (tmap2 (-) lp olp)))) m = Inr f
     \<and> masked_mean (tmap uminus (tmap2 (-) lp olp)) m = Inr k"
  unfolding compute_policy_loss_def Let_def or_default_simps clip_bounds_Some ebind_simps
    prod.case ebind_eq_Inr
  by auto

lemma compute_policy_loss_gspo_Inr_iff:
  "compute_policy_loss_gspo olp lp adv m mode c (Some lo) (Some hi) eps = Inr (l, f, k) \<longleftrightarrow>
     (\<exists>p1 p2.
        bop (*) (tmap uminus adv)
          [map exp (map2 (-)
             (map2 (\<lambda>s n. s / (n + eps)) (map sum_list (tmap2 (*) lp m)) (map sum_list m))
             (map2 (\<lambda>s n. s / (n + eps)) (map sum_list (tmap2 (*) olp m)) (map sum_list m)))]
          = Inr p1
      \<and> bop (*) (tmap uminus adv)
          [map (\<lambda>r. clamp r (1 - lo) (1 + hi)) (map exp (map2 (-)
             (map2 (\<lambda>s n. s / (n + eps)) (map sum_list (tmap2 (*) lp m)) (map sum_list m))
             (map2 (\<lambda>s n. s / (n + eps)) (map sum_list (tmap2 (*) olp m)) (map sum_list m))))]
          = Inr p2
      \<and> agg_loss (tmap2 max p1 p2) m mode 1 (1 / 1000000) = Inr l
      \<and> masked_mean (tmap2 gt_float p2 p1) m = Inr f
      \<and> masked_mean (tmap uminus (tmap (\<lambda>x. clamp x (- 20) 20) (tmap2 (-) lp olp))) m = Inr k)"
  unfolding compute_policy_loss_gspo_def Let_def or_default_simps clip_bounds_Some ebind_simps
    prod.case ebind_eq_Inr
  by auto

lemma compute_policy_loss_upper_example:
  "compute_policy_loss [[0]] [[ln 2]] [[1]] [[1]] (Some (1 / 2)) None None ''token-mean'' 1
     = Inr (- (1 + 1 / 2), 1, - ln 2)"
  unfolding compute_policy_loss_single by (simp add: clamp_def gt_float_def)

lemma compute_policy_loss_lower_example:
  "compute_policy_loss [[0]] [[- ln 2]] [[- 1]] [[1]] (Some (1 / 4)) None None ''token-mean'' 1
     = Inr (1 - 1 / 4, 1, ln 2)"
proof -
  have e: "exp (- ln (2 :: real)) = 1 / 2"
    by (simp add: exp_minus inverse_eq_divide)
  show ?thesis
    by (simp add: compute_policy_loss_def Let_def tmap_def tmap2_def masked_mean_single
        agg_loss_single ebind_simps or_default_simps clip_bounds_def e clamp_def gt_float_def)
qed

lemma ln2_bounds: "- 20 \<le> ln (2 :: real)" "ln (2 :: real) \<le> 20"
proof -
  have "0 \<le> ln (2 :: real)" by simp
  then show "- 20 \<le> ln (2 :: real)" by linarith
  have "ln (2 :: real) \<le> 2 - 1" by (rule ln_le_minus_one) simp
  then show "ln (2 :: real) \<le> 20" by simp
qed

lemma clamp_ln2: "clamp (ln 2) (- 20) 20 = ln 2" "clamp (- ln 2) (- 20) 20 = - ln 2"
  using ln2_bounds by (auto simp: clamp_def min_def max_def)

lemma compute_policy_loss_gspo_upper_example:
  "compute_policy_loss_gspo [[0]] [[ln 2]] [[1]] [[1]] ''token-mean'' (Some (1 / 2)) None None 0
     = Inr (- (1 + 1 / 2), 1, - ln 2)"
proof -
  note k = clamp_ln2(1)
  show ?thesis
    by (simp add: compute_policy_loss_gspo_def Let_def tmap_def tmap2_def masked_mean_single
        agg_loss_single bop_single ebind_simps or_default_simps clip_bounds_def k
        gt_float_def)
      (simp add: clamp_def)
qed

lemma compute_policy_loss_gspo_lower_example:
  "compute_policy_loss_gspo [[0]] [[- ln 2]] [[- 1]] [[1]] ''token-mean'' (Some (1 / 4)) None None 0
     = Inr (1 - 1 / 4, 1, ln 2)"
proof -
  have e: "exp (- ln (2 :: real)) = 1 / 2"
    by (simp add: exp_minus inverse_eq_divide)
  note k = clamp_ln2(2)
  show ?thesis
    by (simp add: compute_policy_loss_gspo_def Let_def tmap_def tmap2_def masked_mean_single
        agg_loss_single bop_single ebind_simps or_default_simps clip_bounds_def k e
        gt_float_def)
      (simp add: clamp_def)
qed

text \<open>
  C10: in \<open>compute_policy_loss\<close> and in \<open>compute_policy_loss_gspo\<close> a clip bound that is
  \<open>None\<close> is replaced by the shared \<open>cliprange\<close>. With only the shared clip range \<open>cr\<close>
  given, the function returns a loss exactly when its parts succeed, and the loss is
  aggregated from \<open>max(-A * ratio, -A * clamp(ratio, 1 - cr, 1 + cr))\<close>; the four evaluations
  show a ratio clipped at \<open>1 + cr\<close> and at \<open>1 - cr\<close> in both functions. When the shared
  \<open>cliprange\<close> is \<open>None\<close> and a bound is omitted (in particular when all three are \<open>None\<close>),
  the function fails instead of returning a loss.
\<close>

theorem cliprange_fallback:
  "compute_policy_loss olp lp adv m c None hi mode sc
     = compute_policy_loss olp lp adv m c c hi mode sc
   \<and> compute_policy_loss olp lp adv m c lo None mode sc
     = compute_policy_loss olp lp adv m c lo c mode sc
   \<and> compute_policy_loss_gspo olp lp adv m mode c None hi eps
     = compute_policy_loss_gspo olp lp adv m mode c c hi eps
   \<and> compute_policy_loss_gspo olp lp adv m mode c lo None eps
     = compute_policy_loss_gspo olp lp adv m mode c lo c eps
   \<and> (compute_policy_loss olp lp adv m (Some cr) None None mode sc = Inr (l, f, k) \<longleftrightarrow>
        agg_loss (tmap2 max (tmap2 (*) (tmap uminus adv) (tmap exp (tmap2 (-) lp olp)))
                            (tmap2 (*) (tmap uminus adv)
                               (tmap (\<lambda>r. clamp r (1 - cr) (1 + cr))
                                  (tmap exp (tmap2 (-) lp olp)))))
                 m mode sc (1 / 1000000) = Inr l
        \<and> masked_mean (tmap2 gt_float
                          (tmap2 (*) (tmap uminus adv)
                             (tmap (\<lambda>r. clamp r (1 - cr) (1 + cr))
                                (tmap exp (tmap2 (-) lp olp))))
                          (tmap2 (*) (tmap uminus adv) (tmap exp (tmap2 (-) lp olp)))) m = Inr f
        \<and> masked_mean (tmap uminus (tmap2 (-) lp olp)) m = Inr k)
   \<and> (compute_policy_loss_gspo olp lp adv m mode (Some cr) None None eps = Inr (l, f, k) \<longleftrightarrow>
        (\<exists>p1 p2.
           bop (*) (tmap uminus adv)
             [map exp (map2 (-)
                (map2 (\<lambda>s n. s / (n + eps)) (map sum_list (tmap2 (*) lp m)) (map sum_list m))
                (map2 (\<lambda>s n. s / (n + eps)) (map sum_list (tmap2 (*) olp m))
                   (map sum_list m)))]
             = Inr p1
         \<and> bop (*) (tmap uminus adv)
             [map (\<lambda>r. clamp r (1 - cr) (1 + cr)) (map exp (map2 (-)
                (map2 (\<lambda>s n. s / (n + eps)) (map sum_list (tmap2 (*) lp m)) (map sum_list m))
                (map2 (\<lambda>s n. s / (n + eps)) (map sum_list (tmap2 (*) olp m))
                   (map sum_list m))))]
             = Inr p2
         \<and> agg_loss (tmap2 max p1 p2) m mode 1 (1 / 1000000) = Inr l
         \<and> masked_mean (tmap2 gt_float p2 p1) m = Inr f
         \<and> masked_mean (tmap uminus (tmap (\<lambda>x. clamp x (- 20) 20) (tmap2 (-) lp olp))) m
             = Inr k))
   \<and> compute_policy_loss [[0]] [[ln 2]] [[1]] [[1]] (Some (1 / 2)) None None ''token-mean'' 1
        = Inr (- (1 + 1 / 2), 1, - ln 2)
   \<and> compute_policy_loss [[0]] [[- ln 2]] [[- 1]] [[1]] (Some (1 / 4)) None None
        ''token-mean'' 1 = Inr (1 - 1 / 4, 1, ln 2)
   \<and> compute_policy_loss_gspo [[0]] [[ln 2]] [[1]] [[1]] ''token-mean'' (Some (1 / 2)) None
        None 0 = Inr (- (1 + 1 / 2), 1, - ln 2)
   \<and> compute_policy_loss_gspo [[0]] [[- ln 2]] [[- 1]] [[1]] ''token-mean'' (Some (1 / 4))
        None None 0 = Inr (1 - 1 / 4, 1, ln 2)
   \<and> (\<exists>e. compute_policy_loss olp lp adv m None None hi mode sc = Inl e)
   \<and> (\<exists>e. compute_policy_loss olp lp adv m None lo None mode sc = Inl e)
   \<and> (\<exists>e. compute_policy_loss_gspo olp lp adv m mode None None hi eps = Inl e)
   \<and> (\<exists>e. compute_policy_loss_gspo olp lp adv m mode None lo None eps = Inl e)"
proof -
  have a: "compute_policy_loss olp lp adv m c None hi mode sc
     = compute_policy_loss olp lp adv m c c hi mode sc" for c hi
    by (simp add: compute_policy_loss_def or_default_simps)
  have b: "compute_policy_loss olp lp adv m c lo None mode sc
     = compute_policy_loss olp lp adv m c lo c mode sc" for c lo
    by (simp add: compute_policy_loss_def or_default_simps)
  have c: "compute_policy_loss_gspo olp lp adv m mode c None hi eps
     = compute_policy_loss_gspo olp lp adv m mode c c hi eps" for c hi
    by (simp add: compute_policy_loss_gspo_def or_default_simps)
  have d: "compute_policy_loss_gspo olp lp adv m mode c lo None eps
     = compute_policy_loss_gspo olp lp adv m mode c lo c eps" for c lo
    by (simp add: compute_policy_loss_gspo_def or_default_simps)
  have s1: "compute_policy_loss olp lp adv m (Some cr) None None mode sc
     = compute_policy_loss olp lp adv m (Some cr) (Some cr) (Some cr) mode sc"
    by (simp only: a b)
  have s2: "compute_policy_loss_gspo olp lp adv m mode (Some cr) None None eps
     = compute_policy_loss_gspo olp lp adv m mode (Some cr) (Some cr) (Some cr) eps"
    by (simp only: c d)
  note i1 = compute_policy_loss_Inr_iff [of olp lp adv m "Some cr" cr cr mode sc l f k,
      folded s1]
  note i2 = compute_policy_loss_gspo_Inr_iff [of olp lp adv m mode "Some cr" cr cr eps l f k,
      folded s2]
  have e1: "\<exists>e. compute_policy_loss olp lp adv m None None hi mode sc = Inl e"
    unfolding compute_policy_loss_def Let_def or_default_simps clip_bounds_None ebind_simps
    by (rule ebind_Inl_const)
  have e2: "\<exists>e. compute_policy_loss olp lp adv m None lo None mode sc = Inl e"
    unfolding compute_policy_loss_def Let_def or_default_simps clip_bounds_None ebind_simps
    by (rule ebind_Inl_const)
  have f1: "\<exists>e. compute_policy_loss_gspo olp lp adv m mode None None hi eps = Inl e"
    unfolding compute_policy_loss_gspo_def Let_def or_default_simps clip_bounds_None ebind_simps
    by (rule ebind_Inl_const)
  have f2: "\<exists>e. compute_policy_loss_gspo olp lp adv m mode None lo None eps = Inl e"
    unfolding compute_policy_loss_gspo_def Let_def or_default_simps clip_bounds_None ebind_simps
    by (rule ebind_Inl_const)
  show ?thesis
    using a b c d i1 i2 compute_policy_loss_upper_example compute_policy_loss_lower_example
      compute_policy_loss_gspo_upper_example compute_policy_loss_gspo_lower_example
      e1 e2 f1 f2
    by (intro conjI)
qed

section \<open>Properties of the rollout state machine\<close>

lemma pop_snoc: "pop (xs @ [x]) = Inr xs"
  by (simp add: pop_def)

lemma process_tool_call_appends:
  assumes "process_tool_call e st decoded it = Inr (n, out, st2)"
  shows "\<exists>ids. prompt_token_ids st2 = prompt_token_ids st @ ids
           \<and> multi_turn_response_mask st2
               = multi_turn_response_mask st @ [replicate (length ids) 0]"
    and "context_length st2 = context_length st"
    and "exceed st2 = exceed st" and "void st2 = void st"
    and "case out of
           Inl img \<Rightarrow>
             images st2 = images st @ [process_image e img]
             \<and> image_size_used_list st2
                 = image_size_used_list st @ [image_size e (process_image e img)]
             \<and> observations_list st2 = observations_list st @ [img]
         | Inr msg \<Rightarrow>
             images st2 = images st
             \<and> image_size_used_list st2 = image_size_used_list st
             \<and> observations_list st2 = observations_list st"
  using assms
  by (auto simp: process_tool_call_def Let_def split: sum.splits prod.splits if_splits)

lemma roll_back_restores:
  assumes ids: "prompt_token_ids st2 = old @ ids"
      and frag: "multi_turn_response_mask st2 = frags @ [frag]"
      and out: "case out of
           Inl img \<Rightarrow>
             images st2 = imgs @ [f img]
             \<and> image_size_used_list st2 = sizes @ [g img]
             \<and> observations_list st2 = obs @ [img]
         | Inr msg \<Rightarrow>
             images st2 = imgs \<and> image_size_used_list st2 = sizes
             \<and> observations_list st2 = obs"
  shows "roll_back st2 old out
           = Inr (st2\<lparr>prompt_token_ids := old, images := imgs, image_size_used_list := sizes,
                      observations_list := obs, multi_turn_response_mask := frags,
                      exceed := True\<rparr>)"
proof (cases out)
  case (Inl img)
  then show ?thesis
    using out frag by (simp add: roll_back_def Let_def pop_snoc ebind_simps)
next
  case (Inr msg)
  then show ?thesis
    using out frag by (simp add: roll_back_def Let_def pop_snoc ebind_simps)
qed

lemma rollout_iteration_exceed:
  fixes e :: "('img, 'sz, 'args) env" and st :: "('img, 'sz) rollout_state" and it :: nat
  defines "response \<equiv> filter (\<lambda>token_id. token_id \<le> 151664)
                         (fst (generate e (prompt_token_ids st) (images st) it))"
  defines "st1 \<equiv> append_response st response"
  defines "decoded \<equiv> decode e response"
  assumes call: "grounding_findall e decoded \<noteq> []"
      and budget: "length (images st1) < max_image_num cfg" "it \<noteq> max_iterations cfg - 1"
                  "context_length st1 < max_total_response_length cfg - 2000"
      and tool: "process_tool_call e st1 decoded it = Inr (n, out, st2)"
      and over: "max_total_response_length cfg - 2000 \<le> context_length st1 + n"
  shows "rollout_iteration e cfg it st
           = Inr (Break (st2\<lparr>context_length := context_length st1 + n,
                             prompt_token_ids := prompt_token_ids st1,
                             images := images st1,
                             image_size_used_list := image_size_used_list st1,
                             observations_list := observations_list st1,
                             multi_turn_response_mask := multi_turn_response_mask st1,
                             exceed := True\<rparr>))"
proof -
  obtain token_ids finish_reason
    where gen: "generate e (prompt_token_ids st) (images st) it = (token_ids, finish_reason)"
    by (cases "generate e (prompt_token_ids st) (images st) it")
  have resp: "filter (\<lambda>token_id. token_id \<le> 151664) token_ids = response"
    by (simp add: response_def gen)
  note app = process_tool_call_appends [OF tool]
  from app(1) obtain ids
    where ids: "prompt_token_ids st2 = prompt_token_ids st1 @ ids"
      and frag: "multi_turn_response_mask st2
                   = multi_turn_response_mask st1 @ [replicate (length ids) 0]"
    by blast
  let ?st3 = "st2\<lparr>context_length := context_length st2 + n\<rparr>"
  have out: "case out of
           Inl img \<Rightarrow>
             images ?st3 = images st1 @ [process_image e img]
             \<and> image_size_used_list ?st3
                 = image_size_used_list st1 @ [image_size e (process_image e img)]
             \<and> observations_list ?st3 = observations_list st1 @ [img]
         | Inr msg \<Rightarrow>
             images ?st3 = images st1 \<and> image_size_used_list ?st3 = image_size_used_list st1
             \<and> observations_list ?st3 = observations_list st1"
    using app(5) by (cases out) simp_all
  have rb: "roll_back ?st3 (prompt_token_ids st1) out
           = Inr (?st3\<lparr>prompt_token_ids := prompt_token_ids st1, images := images st1,
                      image_size_used_list := image_size_used_list st1,
                      observations_list := observations_list st1,
                      multi_turn_response_mask := multi_turn_response_mask st1,
                      exceed := True\<rparr>)"
  proof (rule roll_back_restores [where ids = ids and frag = "replicate (length ids) 0"
           and f = "process_image e" and g = "\<lambda>img. image_size e (process_image e img)"])
    show "prompt_token_ids ?st3 = prompt_token_ids st1 @ ids" by (simp add: ids)
    show "multi_turn_response_mask ?st3
            = multi_turn_response_mask st1 @ [replicate (length ids) 0]"
      by (simp add: frag)
    show "case out of
           Inl img \<Rightarrow>
             images ?st3 = images st1 @ [process_image e img]
             \<and> image_size_used_list ?st3
                 = image_size_used_list st1 @ [image_size e (process_image e img)]
             \<and> observations_list ?st3 = observations_list st1 @ [img]
         | Inr msg \<Rightarrow>
             images ?st3 = images st1 \<and> image_size_used_list ?st3 = image_size_used_list st1
             \<and> observations_list ?st3 = observations_list st1"
      by (rule out)
  qed
  have c3: "max_total_response_length cfg - 2000 \<le> context_length ?st3"
    using over app(2) by simp
  have "rollout_iteration e cfg it st
          = ebind (roll_back ?st3 (prompt_token_ids st1) out) (\<lambda>st. Inr (Break st))"
    unfolding rollout_iteration_def gen prod.case Let_def resp
      st1_def [symmetric] decoded_def [symmetric]
    using call budget c3 by (simp add: tool ebind_simps)
  then show ?thesis
    unfolding rb ebind_simps using app(2) by simp
qed

text \<open>
  C3: take an iteration of the loop in which the response contains a tool call, the three
  checks before the tool call pass, \<open>process_tool_call\<close> returns, and the context length
  with the new observation reaches \<open>max_total_response_length - 2000\<close>. Then the loop
  ends there with \<open>exceed\<close> set, and the token buffer, the images, the image sizes, the
  observations and the fragments of the response mask are what they were before the tool
  call, that is, right after the response was appended; in particular the token buffer
  has the length it had. What \<open>process_tool_call\<close> had appended: tokens and a mask
  fragment, and for an image also the image, its size and the observation.
\<close>

theorem tool_call_exceed_rolls_back:
  fixes e :: "('img, 'sz, 'args) env" and st :: "('img, 'sz) rollout_state" and it :: nat
  defines "response \<equiv> filter (\<lambda>token_id. token_id \<le> 151664)
                         (fst (generate e (prompt_token_ids st) (images st) it))"
  defines "st1 \<equiv> append_response st response"
  defines "decoded \<equiv> decode e response"
  assumes run: "it < max_iterations cfg"
      and call: "grounding_findall e decoded \<noteq> []"
      and budget: "length (images st1) < max_image_num cfg" "it \<noteq> max_iterations cfg - 1"
                  "context_length st1 < max_total_response_length cfg - 2000"
      and tool: "process_tool_call e st1 decoded it = Inr (n, out, st2)"
      and over: "max_total_response_length cfg - 2000 \<le> context_length st1 + n"
  shows "\<exists>st'. rollout_loop e cfg it st = Inr (it, st')
           \<and> exceed st'
           \<and> prompt_token_ids st' = prompt_token_ids st1
           \<and> length (prompt_token_ids st') = length (prompt_token_ids st1)
           \<and> images st' = images st1
           \<and> image_size_used_list st' = image_size_used_list st1
           \<and> observations_list st' = observations_list st1
           \<and> multi_turn_response_mask st' = multi_turn_response_mask st1
           \<and> (\<exists>ids. prompt_token_ids st2 = prompt_token_ids st1 @ ids
                  \<and> multi_turn_response_mask st2
                      = multi_turn_response_mask st1 @ [replicate (length ids) 0])
           \<and> (case out of
                 Inl img \<Rightarrow>
                   images st2 = images st1 @ [process_image e img]
                   \<and> image_size_used_list st2
                       = image_size_used_list st1 @ [image_size e (process_image e img)]
                   \<and> observations_list st2 = observations_list st1 @ [img]
               | Inr msg \<Rightarrow>
                   images st2 = images st1
                   \<and> image_size_used_list st2 = image_size_used_list st1
                   \<and> observations_list st2 = observations_list st1)"
proof -
  let ?st' = "st2\<lparr>context_length := context_length st1 + n,
                             prompt_token_ids := prompt_token_ids st1,
                             images := images st1,
                             image_size_used_list := image_size_used_list st1,
                             observations_list := observations_list st1,
                             multi_turn_response_mask := multi_turn_response_mask st1,
                             exceed := True\<rparr>"
  have it: "rollout_iteration e cfg it st = Inr (Break ?st')"
    using call budget tool over
    unfolding response_def st1_def decoded_def by (rule rollout_iteration_exceed)
  have loop: "rollout_loop e cfg it st = Inr (it, ?st')"
    using run by (simp add: rollout_loop.simps [of e cfg it st] it)
  note app = process_tool_call_appends [OF tool]
  show ?thesis
    using loop app(1) app(5) by (intro exI [of _ ?st']) simp
qed

theorem tool_call_exceed_rolls_back_witness:
  "\<exists>st'. rollout_loop
           \<lparr>generate = (\<lambda>ids imgs it. ([1, 2, 3], ''stop'')),
            decode = (\<lambda>ids. ''<grounding>box</grounding>''),
            encode = (\<lambda>msg. [7, 8]),
            grounding_findall = (\<lambda>s. [''box'']),
            answer_match = (\<lambda>s. False),
            finish_is_length = (\<lambda>s. Inr False),
            try_grounding = (\<lambda>s obs sizes. Inr (''grounding'', 0 :: nat)),
            crop_image = (\<lambda>args sizes. 5 :: nat),
            process_image = (\<lambda>img. img),
            image_size = (\<lambda>img. 1 :: nat),
            calculate_image_token_num = (\<lambda>img. 5),
            tool_call_crop_prompt = (\<lambda>a b. ''crop''),
            error_info_prompt = ''error''\<rparr>
           \<lparr>max_total_response_length = 2010, max_iterations = 3, max_image_num = 2\<rparr>
           0
           \<lparr>prompt_token_ids = [0], images = [9], image_size_used_list = [1],
            observations_list = [9], multi_turn_response_mask = [[0]],
            context_length = 1, exceed = False, void = False\<rparr>
         = Inr (0, st')
       \<and> exceed st'
       \<and> prompt_token_ids st' = [0, 1, 2, 3]
       \<and> images st' = [9]
       \<and> image_size_used_list st' = [1]
       \<and> observations_list st' = [9]
       \<and> multi_turn_response_mask st' = [[0], [1, 1, 1]]"
  (is "\<exists>st'. rollout_loop ?e ?cfg 0 ?st = Inr (0, st') \<and> _")
proof -
  let ?response = "filter (\<lambda>token_id. token_id \<le> 151664)
                     (fst (generate ?e (prompt_token_ids ?st) (images ?st) 0))"
  let ?st1 = "append_response ?st ?response"
  let ?decoded = "decode ?e ?response"
  let ?st2 = "\<lparr>prompt_token_ids = [0, 1, 2, 3, 7, 8], images = [9, 5],
               image_size_used_list = [1, 1], observations_list = [9, 5],
               multi_turn_response_mask = [[0], [1, 1, 1], [0, 0]],
               context_length = 4, exceed = False, void = False\<rparr>"
  have st1: "?st1 = \<lparr>prompt_token_ids = [0, 1, 2, 3], images = [9],
               image_size_used_list = [1], observations_list = [9],
               multi_turn_response_mask = [[0], [1, 1, 1]],
               context_length = 4, exceed = False, void = False\<rparr>"
    by (simp add: append_response_def)
  have run: "0 < max_iterations ?cfg" by simp
  have call: "grounding_findall ?e ?decoded \<noteq> []" by simp
  have budget: "length (images ?st1) < max_image_num ?cfg" "0 \<noteq> max_iterations ?cfg - 1"
    "context_length ?st1 < max_total_response_length ?cfg - 2000"
    unfolding st1 by simp_all
  have tool: "process_tool_call ?e ?st1 ?decoded 0 = Inr (6, Inl 5, ?st2)"
    unfolding st1 by (simp add: process_tool_call_def Let_def)
  have over: "max_total_response_length ?cfg - 2000 \<le> context_length ?st1 + 6"
    unfolding st1 by simp
  from tool_call_exceed_rolls_back [OF run call budget tool over]
  obtain st' where "rollout_loop ?e ?cfg 0 ?st = Inr (0, st')" and "exceed st'"
    and "prompt_token_ids st' = prompt_token_ids ?st1"
    and "images st' = images ?st1"
    and "image_size_used_list st' = image_size_used_list ?st1"
    and "observations_list st' = observations_list ?st1"
    and "multi_turn_response_mask st' = multi_turn_response_mask ?st1"
    by blast
  then show ?thesis unfolding st1 by (intro exI [of _ st']) simp
qed

end
